(* ===== verification/Prelude.thy ===== *)
theory Prelude
  imports "HOL-Library.Word" "HOL-Library.Finite_Map" "HOL-Library.List_Lexorder"
    "HOL-Library.Char_ord" "HOL-Library.Sublist"
begin

text \<open>
  Shared vocabulary of the development: bytes and Go strings, finite Go maps and their
  sorted entries, the repository's error values (sentinels, \<^verbatim>\<open>fmt.Errorf\<close> wrapping,
  \<^verbatim>\<open>errors.Is\<close>), and the explicit world (entropy and trace of effects) that the sealing
  path threads through its calls.
\<close>

section \<open>Bytes and strings\<close>

text \<open>
  A Go \<^verbatim>\<open>string\<close> is a byte sequence: every \<^typ>\<open>char\<close> is one byte. A \<^verbatim>\<open>[]byte\<close> is a
  list of 8-bit words. \<open>bytes_of\<close> and \<open>string_of\<close> are Go's two conversions between them.
  Where the code can tell a nil slice from an empty one, the slice is a \<open>gobytes\<close>, with
  \<open>None\<close> for nil.
\<close>

type_synonym byte = "8 word"
type_synonym bytes = "byte list"
type_synonym gobytes = "bytes option"

definition bytes_of :: "string \<Rightarrow> bytes" where
  "bytes_of s = map (\<lambda>c. word_of_nat (of_char c)) s"

definition string_of :: "bytes \<Rightarrow> string" where
  "string_of bs = map (\<lambda>b. char_of (unat b)) bs"

definition raw_bytes :: "gobytes \<Rightarrow> bytes" where
  "raw_bytes g = (case g of None \<Rightarrow> [] | Some b \<Rightarrow> b)"

lemma raw_bytes_simps [simp]: "raw_bytes None = []" "raw_bytes (Some b) = b"
  by (simp_all add: raw_bytes_def)

lemma unat_byte_bound [simp]: "unat (b :: byte) < 256"
  using unsigned_less [of b, where ?'a = nat] by simp

lemma of_char_nat_bound [simp]: "of_char c < (256 :: nat)"
proof -
  have "(of_char (char_of (of_char c :: nat)) :: nat) = of_char c mod 256"
    by (rule of_char_of)
  then have "of_char c = (of_char c :: nat) mod 256" by simp
  then show ?thesis by (metis mod_less_divisor zero_less_numeral)
qed

lemma of_char_byte [simp]: "unat (word_of_nat (of_char c) :: byte) = of_char c"
  by (simp add: unat_of_nat)

lemma char_of_byte [simp]: "word_of_nat (of_char (char_of (unat b) :: char)) = (b :: byte)"
proof -
  have "(of_char (char_of (unat b) :: char) :: nat) = unat b"
    by (simp only: of_char_of) simp
  then show ?thesis by simp
qed

lemma string_of_bytes_of [simp]: "string_of (bytes_of s) = s"
  by (induction s) (simp_all add: string_of_def bytes_of_def)

lemma bytes_of_string_of [simp]: "bytes_of (string_of b) = b"
  by (induction b) (simp_all add: string_of_def bytes_of_def)

lemma bytes_of_inject [simp]: "bytes_of s = bytes_of t \<longleftrightarrow> s = t"
  by (metis string_of_bytes_of)

lemma length_bytes_of [simp]: "length (bytes_of s) = length s"
  by (simp add: bytes_of_def)

lemma length_string_of [simp]: "length (string_of b) = length b"
  by (simp add: string_of_def)

lemma string_of_append [simp]: "string_of (a @ b) = string_of a @ string_of b"
  by (simp add: string_of_def)

section \<open>Go maps\<close>

text \<open>
  A Go map is a finite map. Its \<open>entries\<close> are listed in ascending key order, the order
  \<^verbatim>\<open>encoding/json\<close> writes a map in (bytewise on the keys); \<open>count\<close> is Go's \<^verbatim>\<open>len\<close>.
\<close>

definition entries :: "('k :: linorder, 'v) fmap \<Rightarrow> ('k \<times> 'v) list" where
  "entries m = sorted_list_of_fmap m"

definition count :: "('k, 'v) fmap \<Rightarrow> nat" where
  "count m = fcard (fmdom m)"

lemma map_of_entries [simp]: "map_of (entries m) = fmlookup m"
  by (simp add: entries_def)

lemma entries_inject [simp]: "entries m = entries n \<longleftrightarrow> m = n"
  by (metis fmap_ext map_of_entries)

lemma fst_entries: "map fst (entries m) = sorted_list_of_fset (fmdom m)"
  by (simp add: entries_def sorted_list_of_fmap_def comp_def)

lemma set_fst_entries [simp]: "fst ` set (entries m) = fset (fmdom m)"
proof -
  have "set (map fst (entries m)) = fset (fmdom m)"
    by (simp add: fst_entries)
  then show ?thesis by simp
qed

lemma count_card: "count m = card (fset (fmdom m))"
  by (simp add: count_def fcard.rep_eq)

lemma fmdom_iff: "k \<in> fset (fmdom m) \<longleftrightarrow> fmlookup m k \<noteq> None"
  by (simp add: fmlookup_dom_iff)

section \<open>Errors\<close>

text \<open>
  The sentinel errors of every package of the repository. Two sentinels are the same error
  only if they are the same constructor, as Go compares the pointers \<^verbatim>\<open>errors.New\<close> made.
\<close>

datatype sentinel =
    ErrUnsupportedSpecVersion | ErrMalformedPackage | ErrSignatureInvalid | ErrHashMismatch
  | ErrBindingMismatch | ErrIntentNotEvaluated | ErrIntentDenied | ErrIntentInvalid
  | ErrBindingCollision | ErrNilPackage | ErrIntegrityCheckFailed | ErrDecryptionFailed
  | ErrNoAudiences | ErrDuplicateAudience | ErrSegmentMissing
  | ErrUnwrapFailed | ErrWrapFailed | ErrKeySize
  | ErrUnknownIntentRef | ErrDuplicateIntentRef
  | ErrUnsupportedPayload | ErrMissingSegmentHash
  | ErrVaultUnreachable | ErrVaultResponse | ErrKeyTypeUnsupported | ErrKeyVersionMismatch
  | ErrAuthorityUnreachable | ErrAuthorityResponse | ErrUnauthorized | ErrForbidden
  | ErrMissingConfig

definition sentinel_text :: "sentinel \<Rightarrow> string" where
  "sentinel_text s = (case s of
      ErrUnsupportedSpecVersion \<Rightarrow> ''chainbind: unsupported spec_version''
    | ErrMalformedPackage \<Rightarrow> ''chainbind: malformed package''
    | ErrSignatureInvalid \<Rightarrow> ''chainbind: signature invalid''
    | ErrHashMismatch \<Rightarrow> ''chainbind: hash mismatch''
    | ErrBindingMismatch \<Rightarrow> ''chainbind: binding mismatch''
    | ErrIntentNotEvaluated \<Rightarrow> ''chainbind: intent not evaluated''
    | ErrIntentDenied \<Rightarrow> ''chainbind: intent denied by authority''
    | ErrIntentInvalid \<Rightarrow> ''chainbind: intent invalid''
    | ErrBindingCollision \<Rightarrow> ''chainbind: binding name collision''
    | ErrNilPackage \<Rightarrow> ''chainbind: verify: package is nil''
    | ErrIntegrityCheckFailed \<Rightarrow> ''chainbind: open: integrity check failed''
    | ErrDecryptionFailed \<Rightarrow> ''chainbind: decryption failed''
    | ErrNoAudiences \<Rightarrow> ''chainbind: seal requires at least one audience''
    | ErrDuplicateAudience \<Rightarrow> ''chainbind: seal: duplicate audience name''
    | ErrSegmentMissing \<Rightarrow> ''chainbind: seal: missing segment plaintext for audience''
    | ErrUnwrapFailed \<Rightarrow> ''keywrap/x25519: unwrap failed''
    | ErrWrapFailed \<Rightarrow> ''keywrap/x25519: wrap failed''
    | ErrKeySize \<Rightarrow> ''chainbind/signer/local: invalid private key size''
    | ErrUnknownIntentRef \<Rightarrow> ''mock: unknown intent_ref''
    | ErrDuplicateIntentRef \<Rightarrow> ''mock: duplicate intent_ref in seed data''
    | ErrUnsupportedPayload \<Rightarrow> ''agenticcheckout: unsupported payload type''
    | ErrMissingSegmentHash \<Rightarrow> ''agenticcheckout: missing segment plain_hash''
    | ErrVaultUnreachable \<Rightarrow> ''vault: unreachable''
    | ErrVaultResponse \<Rightarrow> ''vault: invalid response''
    | ErrKeyTypeUnsupported \<Rightarrow> ''vault: unsupported key type''
    | ErrKeyVersionMismatch \<Rightarrow> ''vault: signature key version does not match pinned version''
    | ErrAuthorityUnreachable \<Rightarrow> ''http: intent authority unreachable''
    | ErrAuthorityResponse \<Rightarrow> ''http: intent authority returned an invalid response''
    | ErrUnauthorized \<Rightarrow> ''keycloak: unauthorized''
    | ErrForbidden \<Rightarrow> ''keycloak: forbidden: missing role_issuer_admin role''
    | ErrMissingConfig \<Rightarrow> ''config: missing required environment variables'')"

text \<open>
  An error value: a sentinel, an error the repository did not declare (with its text), or
  \<^verbatim>\<open>fmt.Errorf\<close> with one \<^verbatim>\<open>%w\<close> between a prefix and a suffix, or with two of them.
\<close>

datatype err =
    Sentinel sentinel
  | LibErr string
  | Wrapped string err string
  | Joined err string err

type_synonym 'a res = "err + 'a"

fun err_text :: "err \<Rightarrow> string" where
  "err_text (Sentinel s) = sentinel_text s"
| "err_text (LibErr t) = t"
| "err_text (Wrapped pre e post) = pre @ err_text e @ post"
| "err_text (Joined e sep f) = err_text e @ sep @ err_text f"

text \<open>\<^verbatim>\<open>errors.Is\<close> against a sentinel: unwrap until it matches.\<close>

fun err_is :: "err \<Rightarrow> sentinel \<Rightarrow> bool" where
  "err_is (Sentinel s) t \<longleftrightarrow> s = t"
| "err_is (LibErr _) t \<longleftrightarrow> False"
| "err_is (Wrapped _ e _) t \<longleftrightarrow> err_is e t"
| "err_is (Joined e _ f) t \<longleftrightarrow> err_is e t \<or> err_is f t"

abbreviation errorf :: "string \<Rightarrow> err \<Rightarrow> err" where
  "errorf pre e \<equiv> Wrapped pre e ''''"

section \<open>The world\<close>

text \<open>
  \<open>entropy\<close> is what \<^verbatim>\<open>crypto/rand\<close> still has to give; \<open>trace\<close> is the sequence of effects
  performed so far, oldest first: the bytes drawn, the encryptions made, the keys wrapped
  and zeroed, every call of a port of the core, and the pings of the readiness probe.
\<close>

datatype event =
    EvRand bytes
  | EvEncrypt bytes bytes bytes
  | EvZero bytes
  | EvWrap bytes bytes
  | EvThumbprint bytes
  | EvCheck string
  | EvConstraintsHash string
  | EvKid
  | EvSign bytes
  | EvPing string

record world =
  entropy :: bytes
  trace :: "event list"

definition emit :: "event \<Rightarrow> world \<Rightarrow> world" where
  "emit e w = w\<lparr>trace := trace w @ [e]\<rparr>"

lemma emit_simps [simp]:
  "entropy (emit e w) = entropy w"
  "trace (emit e w) = trace w @ [e]"
  by (simp_all add: emit_def)

text \<open>What an operation answers when the answer does not depend on the world it is run in.\<close>

definition answer_of :: "(world \<Rightarrow> 'a \<times> world) \<Rightarrow> 'a" where
  "answer_of f = fst (f \<lparr> entropy = [], trace = [] \<rparr>)"

text \<open>\<^verbatim>\<open>crypto/rand.Read\<close> into a slice of \<open>n\<close> bytes: all of them, or an error.\<close>

definition rand_read :: "nat \<Rightarrow> world \<Rightarrow> bytes res \<times> world" where
  "rand_read n w =
     (if n \<le> length (entropy w)
      then (Inr (take n (entropy w)),
            emit (EvRand (take n (entropy w))) (w\<lparr>entropy := drop n (entropy w)\<rparr>))
      else (Inl (LibErr ''crypto/rand: entropy source failed''), w))"

text \<open>
  What a step of the sealing path may do to the world: draw a stretch of the entropy and
  append to the trace, each draw recorded. \<open>drawn\<close> collects the draws of a trace.
\<close>

fun drawn :: "event list \<Rightarrow> bytes list" where
  "drawn [] = []"
| "drawn (EvRand b # es) = b # drawn es"
| "drawn (e # es) = drawn es"

definition advances :: "world \<Rightarrow> world \<Rightarrow> event list \<Rightarrow> bool" where
  "advances w w' es \<longleftrightarrow>
     trace w' = trace w @ es \<and> entropy w = concat (drawn es) @ entropy w'"

lemma drawn_append [simp]: "drawn (es @ fs) = drawn es @ drawn fs"
  by (induction es rule: drawn.induct) simp_all

named_theorems world_steps

lemma advances_refl [simp, intro]: "advances w w []"
  by (simp add: advances_def)

lemma advances_trans [world_steps]:
  "advances u v es \<Longrightarrow> advances v w fs \<Longrightarrow> advances u w (es @ fs)"
  by (simp add: advances_def)

lemma advances_emit [world_steps]:
  "advances u v es \<Longrightarrow> drawn [e] = [] \<Longrightarrow> advances u (emit e v) (es @ [e])"
  by (simp add: advances_def)

lemma advances_rand [world_steps]:
  "rand_read n w = (Inr b, w') \<Longrightarrow> advances w w' [EvRand b] \<and> length b = n"
  by (auto simp: rand_read_def advances_def split: if_splits)

lemma rand_read_error: "rand_read n w = (Inl e, w') \<Longrightarrow> w' = w"
  by (auto simp: rand_read_def split: if_splits)

end
