(* ===== verification/Go_Text.thy ===== *)
theory Go_Text
  imports Prelude
begin

text \<open>
  The text encodings of Go's standard library the repository uses: \<^verbatim>\<open>encoding/hex\<close>,
  \<^verbatim>\<open>encoding/base64\<close> (\<^verbatim>\<open>RawURLEncoding\<close> and \<^verbatim>\<open>StdEncoding\<close>), \<^verbatim>\<open>strconv.Quote\<close> for the
  strings that reach an error message, and the UTF-8 decoder \<^verbatim>\<open>encoding/json\<close> runs over a
  string. The locale \<open>byte_codec\<close> is what the wire format needs of an encoding; both base64
  alphabets provide it.
\<close>

section \<open>The contract of a byte encoding\<close>

locale byte_codec =
  fixes enc :: "bytes \<Rightarrow> string" and dec :: "string \<Rightarrow> bytes option"
  assumes dec_enc: "dec (enc b) = Some b"
begin

lemma enc_inject: "enc b = enc c \<longleftrightarrow> b = c"
  by (metis dec_enc option.inject)

lemma enc_dec_unique: "dec (enc b) = Some c \<longleftrightarrow> b = c"
  by (simp add: dec_enc)

end

section \<open>Hexadecimal\<close>

definition hex_digits :: string where
  "hex_digits = ''0123456789abcdef''"

definition hex_byte :: "byte \<Rightarrow> string" where
  "hex_byte b = [hex_digits ! (unat b div 16), hex_digits ! (unat b mod 16)]"

definition hex_encode :: "bytes \<Rightarrow> string" where
  "hex_encode bs = concat (map hex_byte bs)"

lemma distinct_hex_digits: "distinct hex_digits" and length_hex_digits: "length hex_digits = 16"
  by (simp_all add: hex_digits_def)

lemma hex_byte_inject: "hex_byte b = hex_byte c \<longleftrightarrow> b = c"
proof
  assume eq: "hex_byte b = hex_byte c"
  have lt: "unat x div 16 < 16" "unat x mod 16 < 16" for x :: byte
    using unat_byte_bound [of x] by (simp_all add: less_mult_imp_div_less)
  from eq have "unat b div 16 = unat c div 16" "unat b mod 16 = unat c mod 16"
    by (simp_all add: hex_byte_def nth_eq_iff_index_eq distinct_hex_digits length_hex_digits lt)
  then have "unat b = unat c" by (metis div_mult_mod_eq)
  then show "b = c" by (simp add: word_eq_iff_unsigned [where ?'a = nat])
qed simp

lemma hex_encode_inject [simp]: "hex_encode bs = hex_encode cs \<longleftrightarrow> bs = cs"
proof
  show "hex_encode bs = hex_encode cs \<Longrightarrow> bs = cs"
  proof (induction bs arbitrary: cs)
    case Nil
    then show ?case by (cases cs) (simp_all add: hex_encode_def hex_byte_def)
  next
    case (Cons b bs)
    then obtain c cs' where cs: "cs = c # cs'"
      by (cases cs) (simp_all add: hex_encode_def hex_byte_def)
    with Cons.prems have "hex_byte b @ hex_encode bs = hex_byte c @ hex_encode cs'"
      by (simp add: hex_encode_def)
    then have "hex_byte b = hex_byte c" "hex_encode bs = hex_encode cs'"
      by (simp_all add: hex_byte_def)
    with Cons.IH cs show ?case by (simp add: hex_byte_inject)
  qed
qed simp

lemma length_hex_encode [simp]: "length (hex_encode bs) = 2 * length bs"
  by (induction bs) (simp_all add: hex_encode_def hex_byte_def)

section \<open>Base64\<close>

definition url_alphabet :: string where
  "url_alphabet = ''ABCDEFGHIJKLMNOPQRSTUVWXYZabcdefghijklmnopqrstuvwxyz0123456789-_''"

definition std_alphabet :: string where
  "std_alphabet = ''ABCDEFGHIJKLMNOPQRSTUVWXYZabcdefghijklmnopqrstuvwxyz0123456789+/''"

text \<open>
  Three bytes become four characters; a short tail becomes two or three, filled up with
  \<^verbatim>\<open>=\<close> in the padded encoding.
\<close>

fun b64_encode :: "string \<Rightarrow> string \<Rightarrow> bytes \<Rightarrow> string" where
  "b64_encode al pad [] = []"
| "b64_encode al pad [a] =
     [al ! (unat a div 4), al ! (unat a mod 4 * 16)] @ pad @ pad"
| "b64_encode al pad [a, b] =
     [al ! (unat a div 4), al ! (unat a mod 4 * 16 + unat b div 16),
      al ! (unat b mod 16 * 4)] @ pad"
| "b64_encode al pad (a # b # c # bs) =
     [al ! (unat a div 4), al ! (unat a mod 4 * 16 + unat b div 16),
      al ! (unat b mod 16 * 4 + unat c div 64), al ! (unat c mod 64)] @ b64_encode al pad bs"

definition b64_value :: "string \<Rightarrow> char \<Rightarrow> nat option" where
  "b64_value al c =
     (let i = length (takeWhile (\<lambda>x. x \<noteq> c) al) in if i < length al then Some i else None)"

text \<open>
  Go's decoder in its default, non-strict mode: line breaks are skipped, the bits of the
  last character that no byte needs are ignored, and a lone trailing character, a
  character outside the alphabet or misplaced padding is a \<^verbatim>\<open>CorruptInputError\<close>
  (\<open>None\<close>). The \<open>quads\<close> are the values of the characters; padding is handled by the two
  wrappers below.
\<close>

definition b64_hi :: "nat \<Rightarrow> nat \<Rightarrow> byte" where
  "b64_hi a b = word_of_nat (a * 4 + b div 16)"

definition b64_mid :: "nat \<Rightarrow> nat \<Rightarrow> byte" where
  "b64_mid b c = word_of_nat (b mod 16 * 16 + c div 4)"

definition b64_lo :: "nat \<Rightarrow> nat \<Rightarrow> byte" where
  "b64_lo c d = word_of_nat (c mod 4 * 64 + d)"

fun b64_quads :: "nat list \<Rightarrow> bytes option" where
  "b64_quads [] = Some []"
| "b64_quads [a] = None"
| "b64_quads [a, b] = Some [b64_hi a b]"
| "b64_quads [a, b, c] = Some [b64_hi a b, b64_mid b c]"
| "b64_quads (a # b # c # d # vs) =
     map_option (\<lambda>bs. b64_hi a b # b64_mid b c # b64_lo c d # bs) (b64_quads vs)"

fun b64_values :: "string \<Rightarrow> string \<Rightarrow> nat list option" where
  "b64_values al [] = Some []"
| "b64_values al (c # cs) =
     (case b64_value al c of None \<Rightarrow> None
      | Some v \<Rightarrow> map_option (\<lambda>vs. v # vs) (b64_values al cs))"

definition skip_breaks :: "string \<Rightarrow> string" where
  "skip_breaks s = filter (\<lambda>c. c \<noteq> CHR 0x0A \<and> c \<noteq> CHR 0x0D) s"

definition raw_url_encode :: "bytes \<Rightarrow> string" where
  "raw_url_encode = b64_encode url_alphabet []"

definition raw_url_decode :: "string \<Rightarrow> bytes option" where
  "raw_url_decode s =
     (case b64_values url_alphabet (skip_breaks s) of None \<Rightarrow> None | Some vs \<Rightarrow> b64_quads vs)"

definition std_encode :: "bytes \<Rightarrow> string" where
  "std_encode = b64_encode std_alphabet ''=''"

definition std_unpad :: "string \<Rightarrow> string option" where
  "std_unpad s =
     (let body = takeWhile (\<lambda>c. c \<noteq> CHR ''='') s; tail = dropWhile (\<lambda>c. c \<noteq> CHR ''='') s
      in if length s mod 4 \<noteq> 0 then None
         else if tail = [] \<or> tail = ''='' \<or> tail = ''=='' then Some body else None)"

definition std_decode :: "string \<Rightarrow> bytes option" where
  "std_decode s =
     (case std_unpad (skip_breaks s) of None \<Rightarrow> None
      | Some body \<Rightarrow> (case b64_values std_alphabet body of None \<Rightarrow> None | Some vs \<Rightarrow> b64_quads vs))"

text \<open>The values of an encoding, six bits at a time, are what the decoder recombines.\<close>

fun b64_sextets :: "bytes \<Rightarrow> nat list" where
  "b64_sextets [] = []"
| "b64_sextets [a] = [unat a div 4, unat a mod 4 * 16]"
| "b64_sextets [a, b] = [unat a div 4, unat a mod 4 * 16 + unat b div 16, unat b mod 16 * 4]"
| "b64_sextets (a # b # c # bs) =
     [unat a div 4, unat a mod 4 * 16 + unat b div 16, unat b mod 16 * 4 + unat c div 64,
      unat c mod 64] @ b64_sextets bs"

lemma b64_hi_join:
  assumes "r < 16"
  shows "b64_hi (unat a div 4) (unat a mod 4 * 16 + r) = a"
proof -
  have "(unat a mod 4 * 16 + r) div 16 = unat a mod 4"
    using assms by simp
  then show ?thesis by (simp add: b64_hi_def)
qed

lemma b64_mid_join:
  assumes "r < 4"
  shows "b64_mid (x * 16 + unat b div 16) (unat b mod 16 * 4 + r) = b"
proof -
  have "unat b div 16 < 16" using unat_byte_bound [of b] by (simp add: less_mult_imp_div_less)
  then have "(x * 16 + unat b div 16) mod 16 = unat b div 16"
    by (simp add: mod_mult_self3)
  moreover have "(unat b mod 16 * 4 + r) div 4 = unat b mod 16"
    using assms by simp
  ultimately show ?thesis by (simp add: b64_mid_def)
qed

lemma b64_lo_join: "b64_lo (x * 4 + unat c div 64) (unat c mod 64) = c"
proof -
  have "unat c div 64 < 4" using unat_byte_bound [of c] by (simp add: less_mult_imp_div_less)
  then have "(x * 4 + unat c div 64) mod 4 = unat c div 64"
    by (simp add: mod_mult_self3)
  then show ?thesis by (simp add: b64_lo_def)
qed

lemma byte_div_bounds:
  "unat (b :: byte) div 16 < 16" "unat b div 64 < 4" "unat b div 4 < 64"
  using unat_byte_bound [of b] by (simp_all add: less_mult_imp_div_less)

lemmas b64_join = b64_hi_join b64_hi_join [of 0, simplified] b64_mid_join
  b64_mid_join [of 0, simplified] b64_lo_join byte_div_bounds

lemma b64_quads_sextets: "b64_quads (b64_sextets bs) = Some bs"
  by (induction bs rule: b64_sextets.induct) (simp_all add: b64_join)

lemma b64_sextets_bound: "v \<in> set (b64_sextets bs) \<Longrightarrow> v < 64"
proof (induction bs rule: b64_sextets.induct)
  case (3 a b)
  have "unat a mod 4 * 16 + unat b div 16 < 64" "unat b mod 16 * 4 < 64"
    using byte_div_bounds [of b] mod_less_divisor [of 4 "unat a"]
      mod_less_divisor [of 16 "unat b"] by linarith+
  with "3" byte_div_bounds [of a] show ?case by auto
next
  case (4 a b c bs)
  have "unat a mod 4 * 16 + unat b div 16 < 64" "unat b mod 16 * 4 + unat c div 64 < 64"
    using byte_div_bounds [of b] byte_div_bounds [of c]
      mod_less_divisor [of 4 "unat a"] mod_less_divisor [of 16 "unat b"] by linarith+
  with "4" byte_div_bounds [of a] show ?case by auto
next
  case (2 a)
  have "unat a mod 4 * 16 < 64" using mod_less_divisor [of 4 "unat a"] by linarith
  with "2" byte_div_bounds [of a] show ?case by auto
qed simp

lemma b64_encode_sextets: "b64_encode al [] bs = map (\<lambda>v. al ! v) (b64_sextets bs)"
  by (induction bs rule: b64_sextets.induct) simp_all

definition pad_of :: "bytes \<Rightarrow> string" where
  "pad_of bs = (if length bs mod 3 = 1 then ''=='' else if length bs mod 3 = 2 then ''='' else [])"

lemma b64_encode_pad: "b64_encode al ''='' bs = b64_encode al [] bs @ pad_of bs"
  by (induction bs rule: b64_sextets.induct) (simp_all add: pad_of_def)

lemma length_b64_encode_pad: "length (b64_encode al ''='' bs) mod 4 = 0"
  by (induction bs rule: b64_sextets.induct) simp_all

lemma b64_value_nth:
  assumes "distinct al" and "i < length al"
  shows "b64_value al (al ! i) = Some i"
proof -
  have "takeWhile (\<lambda>x. x \<noteq> al ! i) al = take i al"
    by (rule takeWhile_eq_take_P_nth) (use assms in \<open>auto simp: nth_eq_iff_index_eq\<close>)
  with assms show ?thesis by (simp add: b64_value_def)
qed

lemma b64_values_map:
  "distinct al \<Longrightarrow> (\<And>v. v \<in> set vs \<Longrightarrow> v < length al) \<Longrightarrow>
     b64_values al (map (\<lambda>v. al ! v) vs) = Some vs"
  by (induction vs) (simp_all add: b64_value_nth)

lemma alphabet_facts:
  "distinct url_alphabet" "distinct std_alphabet"
  "length url_alphabet = 64" "length std_alphabet = 64"
  by (simp_all add: url_alphabet_def std_alphabet_def)

lemma b64_encode_chars:
  "length al = 64 \<Longrightarrow> c \<in> set (b64_encode al [] bs) \<Longrightarrow> c \<in> set al"
  using b64_sextets_bound [of _ bs] by (auto simp: b64_encode_sextets)

lemma alphabet_plain:
  "CHR 0x0A \<notin> set url_alphabet" "CHR 0x0D \<notin> set url_alphabet"
  "CHR 0x0A \<notin> set std_alphabet" "CHR 0x0D \<notin> set std_alphabet" "CHR ''='' \<notin> set std_alphabet"
  by (simp_all add: url_alphabet_def std_alphabet_def)

lemma skip_breaks_id:
  "(\<And>c. c \<in> set s \<Longrightarrow> c \<noteq> CHR 0x0A \<and> c \<noteq> CHR 0x0D) \<Longrightarrow> skip_breaks s = s"
  by (simp add: skip_breaks_def filter_id_conv)

lemma skip_breaks_encode:
  "skip_breaks (b64_encode url_alphabet [] bs) = b64_encode url_alphabet [] bs"
  "skip_breaks (b64_encode std_alphabet [] bs @ pad_of bs) = b64_encode std_alphabet [] bs @ pad_of bs"
  using b64_encode_chars [of url_alphabet _ bs] b64_encode_chars [of std_alphabet _ bs]
  by (intro skip_breaks_id; auto simp: alphabet_facts alphabet_plain pad_of_def split: if_splits;
      metis alphabet_plain)+

lemma b64_decode_encode:
  assumes "distinct al" and "length al = 64"
  shows "b64_values al (b64_encode al [] bs) = Some (b64_sextets bs)"
  unfolding b64_encode_sextets
  by (rule b64_values_map [OF assms(1)]) (use assms(2) b64_sextets_bound [of _ bs] in simp)

lemma raw_url_roundtrip: "raw_url_decode (raw_url_encode bs) = Some bs"
  by (simp add: raw_url_decode_def raw_url_encode_def skip_breaks_encode b64_decode_encode
      alphabet_facts b64_quads_sextets)

lemma std_unpad_encode:
  "std_unpad (b64_encode std_alphabet [] bs @ pad_of bs) = Some (b64_encode std_alphabet [] bs)"
proof -
  have plain: "c \<noteq> CHR ''=''" if "c \<in> set (b64_encode std_alphabet [] bs)" for c
    using b64_encode_chars [OF _ that] alphabet_facts alphabet_plain by auto
  have "length (b64_encode std_alphabet [] bs @ pad_of bs) mod 4 = 0"
    using length_b64_encode_pad [of std_alphabet bs] by (simp add: b64_encode_pad)
  moreover have "takeWhile (\<lambda>c. c \<noteq> CHR ''='') (b64_encode std_alphabet [] bs @ pad_of bs)
      = b64_encode std_alphabet [] bs"
    using plain by (simp add: takeWhile_append pad_of_def)
  moreover have "dropWhile (\<lambda>c. c \<noteq> CHR ''='') (b64_encode std_alphabet [] bs @ pad_of bs)
      = pad_of bs"
    using plain by (simp add: dropWhile_append pad_of_def)
  ultimately show ?thesis by (simp add: std_unpad_def pad_of_def Let_def del: length_append)
qed

lemma std_roundtrip: "std_decode (std_encode bs) = Some bs"
  by (simp add: std_decode_def std_encode_def b64_encode_pad skip_breaks_encode std_unpad_encode
      b64_decode_encode alphabet_facts b64_quads_sextets)

interpretation raw_url: byte_codec raw_url_encode raw_url_decode
  by unfold_locales (rule raw_url_roundtrip)

interpretation std64: byte_codec std_encode std_decode
  by unfold_locales (rule std_roundtrip)

section \<open>Decimal text\<close>

text \<open>\<open>dec_int\<close> is \<^verbatim>\<open>strconv.Itoa\<close>.\<close>

definition digit_char :: "nat \<Rightarrow> char" where
  "digit_char d = ''0123456789'' ! (d mod 10)"

fun dec_nat :: "nat \<Rightarrow> string" where
  "dec_nat n = (if n < 10 then [digit_char n] else dec_nat (n div 10) @ [digit_char n])"

declare dec_nat.simps [simp del]

definition dec_int :: "int \<Rightarrow> string" where
  "dec_int i = (if i < 0 then ''-'' @ dec_nat (nat (- i)) else dec_nat (nat i))"

lemma digit_char_in: "digit_char d \<in> set ''0123456789''"
proof -
  have "digit_char d \<in> set ''0123456789''" if "d mod 10 < 10"
    unfolding digit_char_def using that by (intro nth_mem) simp
  then show ?thesis by simp
qed

lemma dec_nat_not_Nil [simp]: "dec_nat n \<noteq> []"
  by (subst dec_nat.simps) simp

lemma digit_char_inject: "digit_char a = digit_char b \<Longrightarrow> a mod 10 = b mod 10"
proof -
  have "distinct ''0123456789''" by simp
  moreover have "a mod 10 < length ''0123456789''" "b mod 10 < length ''0123456789''" by simp_all
  ultimately show "digit_char a = digit_char b \<Longrightarrow> ?thesis"
    unfolding digit_char_def by (simp only: nth_eq_iff_index_eq)
qed

lemma dec_nat_inject: "dec_nat m = dec_nat n \<Longrightarrow> m = n"
proof (induction m arbitrary: n rule: less_induct)
  case (less m)
  show ?case
  proof (cases "m < 10 \<or> n < 10")
    case True
    with less.prems show ?thesis
      using digit_char_inject [of m n]
      by (auto simp: dec_nat.simps [of m] dec_nat.simps [of n] dec_nat_not_Nil [symmetric]
          split: if_splits)
  next
    case False
    with less.prems have "dec_nat (m div 10) = dec_nat (n div 10)" "digit_char m = digit_char n"
      by (simp_all add: dec_nat.simps [of m] dec_nat.simps [of n])
    with False less.IH [of "m div 10" "n div 10"] digit_char_inject [of m n]
    have "m div 10 = n div 10" "m mod 10 = n mod 10" by simp_all
    then show ?thesis by (metis div_mult_mod_eq)
  qed
qed

lemma dec_nat_digits: "c \<in> set (dec_nat n) \<Longrightarrow> c \<in> set ''0123456789''"
  by (induction n rule: dec_nat.induct)
    (metis dec_nat.simps Un_iff digit_char_in set_append empty_set list.set(2) insert_iff empty_iff)

end
