(* ===== verification/Go_Json.thy ===== *)
theory Go_Json
  imports Go_Text
begin

text \<open>
  \<^verbatim>\<open>encoding/json\<close>'s encoder, as far as the repository drives it: the value a Go expression
  marshals to (\<open>goval\<close>), the string escaping with HTML escaping on and UTF-8 sanitising, and
  the compact text \<^verbatim>\<open>json.Marshal\<close> writes. The main fact is that the text determines the
  value (\<open>render_inject\<close>), for values whose strings are valid UTF-8.
\<close>

section \<open>UTF-8\<close>

text \<open>
  The table of \<^verbatim>\<open>unicode/utf8\<close>: for a lead byte that is not ASCII, the ranges the following
  bytes must lie in, or \<open>None\<close> for a byte that starts no encoding.
\<close>

definition lead_ranges :: "nat \<Rightarrow> (nat \<times> nat) list option" where
  "lead_ranges b =
     (if b < 0xC2 then None
      else if b < 0xE0 then Some [(0x80, 0xBF)]
      else if b = 0xE0 then Some [(0xA0, 0xBF), (0x80, 0xBF)]
      else if b = 0xED then Some [(0x80, 0x9F), (0x80, 0xBF)]
      else if b < 0xF0 then Some [(0x80, 0xBF), (0x80, 0xBF)]
      else if b = 0xF0 then Some [(0x90, 0xBF), (0x80, 0xBF), (0x80, 0xBF)]
      else if b < 0xF4 then Some [(0x80, 0xBF), (0x80, 0xBF), (0x80, 0xBF)]
      else if b = 0xF4 then Some [(0x80, 0x8F), (0x80, 0xBF), (0x80, 0xBF)]
      else None)"

fun in_ranges :: "(nat \<times> nat) list \<Rightarrow> string \<Rightarrow> bool" where
  "in_ranges [] cs \<longleftrightarrow> True"
| "in_ranges (r # rs) [] \<longleftrightarrow> False"
| "in_ranges (r # rs) (c # cs) \<longleftrightarrow> fst r \<le> of_char c \<and> of_char c \<le> snd r \<and> in_ranges rs cs"

text \<open>The width of the rune a string starts with (\<^verbatim>\<open>DecodeRuneInString\<close>), if it is well formed.\<close>

fun rune_width :: "string \<Rightarrow> nat option" where
  "rune_width [] = None"
| "rune_width (c # cs) =
     (if of_char c < (128 :: nat) then Some 1
      else case lead_ranges (of_char c) of None \<Rightarrow> None
           | Some rs \<Rightarrow> if in_ranges rs cs then Some (Suc (length rs)) else None)"

function utf8_valid :: "string \<Rightarrow> bool" where
  "utf8_valid [] \<longleftrightarrow> True"
| "utf8_valid (c # cs) \<longleftrightarrow>
     (case rune_width (c # cs) of None \<Rightarrow> False | Some n \<Rightarrow> utf8_valid (drop (n - 1) cs))"
  by pat_completeness auto
termination by (relation "measure length") auto

section \<open>Strings\<close>

definition json_ascii :: "char \<Rightarrow> string" where
  "json_ascii c =
     (if c = CHR 0x22 \<or> c = CHR 0x5C then [CHR 0x5C, c]
      else if c = CHR 0x08 then [CHR 0x5C, CHR ''b'']
      else if c = CHR 0x0C then [CHR 0x5C, CHR ''f'']
      else if c = CHR 0x0A then [CHR 0x5C, CHR ''n'']
      else if c = CHR 0x0D then [CHR 0x5C, CHR ''r'']
      else if c = CHR 0x09 then [CHR 0x5C, CHR ''t'']
      else if of_char c < (32 :: nat) \<or> c = CHR ''<'' \<or> c = CHR ''>'' \<or> c = CHR ''&''
      then [CHR 0x5C, CHR ''u'', CHR ''0'', CHR ''0''] @ hex_byte (word_of_nat (of_char c))
      else [c])"

definition json_rune :: "string \<Rightarrow> string" where
  "json_rune r =
     (if r = [CHR 0xE2, CHR 0x80, CHR 0xA8] then [CHR 0x5C, CHR ''u'', CHR ''2'', CHR ''0'', CHR ''2'', CHR ''8'']
      else if r = [CHR 0xE2, CHR 0x80, CHR 0xA9] then [CHR 0x5C, CHR ''u'', CHR ''2'', CHR ''0'', CHR ''2'', CHR ''9'']
      else case r of [c] \<Rightarrow> json_ascii c | _ \<Rightarrow> r)"

text \<open>A byte that starts no valid rune is written as the escape of U+FFFD, and skipped alone.\<close>

function json_escape :: "string \<Rightarrow> string" where
  "json_escape [] = []"
| "json_escape (c # cs) =
     (case rune_width (c # cs) of
        None \<Rightarrow> [CHR 0x5C, CHR ''u'', CHR ''f'', CHR ''f'', CHR ''f'', CHR ''d''] @ json_escape cs
      | Some n \<Rightarrow> json_rune (take n (c # cs)) @ json_escape (drop (n - 1) cs))"
  by pat_completeness auto
termination by (relation "measure length") auto

definition json_string :: "string \<Rightarrow> string" where
  "json_string s = [CHR 0x22] @ json_escape s @ [CHR 0x22]"

text \<open>
  \<^verbatim>\<open>strconv.Quote\<close>, the \<^verbatim>\<open>%q\<close> of the error messages: the same walk over the runes, with
  Go's own escapes. \<^verbatim>\<open>unicode.IsPrint\<close> is taken to hold of every rune beyond ASCII; no
  theorem depends on it.
\<close>

definition quote_ascii :: "char \<Rightarrow> string" where
  "quote_ascii c =
     (if c = CHR 0x22 \<or> c = CHR 0x5C then [CHR 0x5C, c]
      else if c = CHR 0x07 then [CHR 0x5C, CHR ''a'']
      else if c = CHR 0x08 then [CHR 0x5C, CHR ''b'']
      else if c = CHR 0x0C then [CHR 0x5C, CHR ''f'']
      else if c = CHR 0x0A then [CHR 0x5C, CHR ''n'']
      else if c = CHR 0x0D then [CHR 0x5C, CHR ''r'']
      else if c = CHR 0x09 then [CHR 0x5C, CHR ''t'']
      else if c = CHR 0x0B then [CHR 0x5C, CHR ''v'']
      else if of_char c < (32 :: nat) \<or> c = CHR 0x7F
      then [CHR 0x5C, CHR ''x''] @ hex_byte (word_of_nat (of_char c))
      else [c])"

function quote_runes :: "string \<Rightarrow> string" where
  "quote_runes [] = []"
| "quote_runes (c # cs) =
     (case rune_width (c # cs) of
        None \<Rightarrow> [CHR 0x5C, CHR ''x''] @ hex_byte (word_of_nat (of_char c)) @ quote_runes cs
      | Some n \<Rightarrow> (if n = 1 then quote_ascii c else take n (c # cs)) @ quote_runes (drop (n - 1) cs))"
  by pat_completeness auto
termination by (relation "measure length") auto

definition go_quote :: "string \<Rightarrow> string" where
  "go_quote s = [CHR 0x22] @ quote_runes s @ [CHR 0x22]"

subsection \<open>The escaped text determines a valid string\<close>

definition is_rune :: "string \<Rightarrow> bool" where
  "is_rune r \<longleftrightarrow> rune_width r = Some (length r)"

lemma in_ranges_take: "in_ranges rs cs \<Longrightarrow> in_ranges rs (take (length rs) cs) \<and> length rs \<le> length cs"
  by (induction rs cs rule: in_ranges.induct) auto

lemma rune_take: "rune_width s = Some n \<Longrightarrow> is_rune (take n s) \<and> 0 < n \<and> n \<le> length s"
  by (cases s)
    (auto simp: is_rune_def min_absorb2 dest: in_ranges_take split: if_splits option.splits)

lemma rune_cases:
  assumes "is_rune r"
  obtains (ascii) c where "r = [c]" "of_char c < (128 :: nat)"
  | (multi) c cs where "r = c # cs" "cs \<noteq> []" "128 \<le> (of_char c :: nat)"
proof (cases r)
  case Nil
  with assms show ?thesis by (simp add: is_rune_def)
next
  case (Cons c cs)
  show ?thesis
  proof (cases "of_char c < (128 :: nat)")
    case True
    with assms Cons show ?thesis by (intro ascii) (auto simp: is_rune_def)
  next
    case False
    with assms Cons show ?thesis
      by (intro multi) (auto simp: is_rune_def lead_ranges_def split: option.splits if_splits)
  qed
qed

lemma rune_prefix:
  assumes "is_rune r" "is_rune r'" "r @ a = r' @ b"
  shows "r = r' \<and> a = b"
proof -
  obtain c cs c' cs' where cons: "r = c # cs" "r' = c' # cs'"
    using assms(1,2) by (cases r; cases r') (auto simp: is_rune_def)
  with assms(3) have "c = c'" by simp
  with assms(1,2) cons have "length r = length r'"
    by (auto simp: is_rune_def split: if_splits option.splits)
  with assms(3) show ?thesis by simp
qed

lemma json_ascii_prefix: "json_ascii c @ a = json_ascii d @ b \<Longrightarrow> c = d \<and> a = b"
proof -
  assume eq: "json_ascii c @ a = json_ascii d @ b"
  have "c = d" if "hex_byte (word_of_nat (of_char c)) = hex_byte (word_of_nat (of_char d))"
  proof -
    from that have "word_of_nat (of_char c) = (word_of_nat (of_char d) :: byte)"
      by (simp only: hex_byte_inject)
    then have "unat (word_of_nat (of_char c) :: byte) = unat (word_of_nat (of_char d) :: byte)"
      by (rule arg_cong)
    then show "c = d" by (simp only: of_char_byte of_char_eq_iff)
  qed
  with eq show ?thesis
    by (auto simp: json_ascii_def hex_byte_def split: if_splits)
qed

lemma json_ascii_head: "\<exists>h t. json_ascii c = h # t \<and> (h = CHR 0x5C \<or> (t = [] \<and> h = c)) \<and> h \<noteq> CHR 0x22"
  by (auto simp: json_ascii_def)

lemma json_rune_multi:
  assumes "128 \<le> (of_char c :: nat)" "cs \<noteq> []"
  shows "json_rune (c # cs) = c # cs \<or>
    (\<exists>d. (c # cs, d) \<in> {([CHR 0xE2, CHR 0x80, CHR 0xA8], CHR ''8''), ([CHR 0xE2, CHR 0x80, CHR 0xA9], CHR ''9'')}
       \<and> json_rune (c # cs) = [CHR 0x5C, CHR ''u'', CHR ''2'', CHR ''0'', CHR ''2'', d])"
  using assms by (cases cs) (auto simp: json_rune_def)

lemma json_rune_ascii: "json_rune [c] = json_ascii c"
  by (simp add: json_rune_def)

lemma json_ascii_not_multi:
  assumes "of_char c < (128 :: nat)" "128 \<le> (of_char d :: nat)" "ds \<noteq> []"
  shows "json_ascii c @ a \<noteq> json_rune (d # ds) @ b"
proof
  assume eq: "json_ascii c @ a = json_rune (d # ds) @ b"
  from json_rune_multi [OF assms(2,3)] show False
  proof (elim disjE exE conjE)
    assume "json_rune (d # ds) = d # ds"
    with eq json_ascii_head [of c] have "d = CHR 0x5C \<or> d = c" by auto
    with assms(1,2) show False by auto
  next
    fix e assume "json_rune (d # ds) = [CHR 0x5C, CHR ''u'', CHR ''2'', CHR ''0'', CHR ''2'', e]"
    with eq assms(1) show False
      by (auto simp: json_ascii_def split: if_splits)
  qed
qed

lemma json_rune_prefix:
  assumes "is_rune r" "is_rune r'" "json_rune r @ a = json_rune r' @ b"
  shows "r = r' \<and> a = b"
  using assms(1)
proof (cases r rule: rune_cases)
  case (ascii c)
  note r = this
  show ?thesis using assms(2)
  proof (cases r' rule: rune_cases)
    case (ascii d)
    with r assms(3) json_ascii_prefix [of c a d b] show ?thesis
      by (simp add: json_rune_ascii)
  next
    case (multi d ds)
    with r assms(3) json_ascii_not_multi [of c d ds a b] show ?thesis
      by (simp add: json_rune_ascii)
  qed
next
  case (multi c cs)
  note r = this
  show ?thesis using assms(2)
  proof (cases r' rule: rune_cases)
    case (ascii d)
    with r assms(3) json_ascii_not_multi [of d c cs b a] show ?thesis
      by (simp add: json_rune_ascii)
  next
    case (multi d ds)
    with r assms(3) json_rune_multi [of c cs] json_rune_multi [of d ds]
      rune_prefix [OF assms(1,2), of a b]
    show ?thesis by auto
  qed
qed

lemma json_rune_no_quote:
  assumes "is_rune r"
  shows "json_rune r @ a \<noteq> CHR 0x22 # b"
  using assms
proof (cases r rule: rune_cases)
  case (ascii c)
  then show ?thesis using json_ascii_head [of c] by (auto simp: json_rune_ascii)
next
  case (multi c cs)
  then show ?thesis using json_rune_multi [of c cs] by auto
qed

lemma json_escape_step:
  assumes "utf8_valid s" "s \<noteq> []"
  obtains r s' where "s = r @ s'" "is_rune r" "utf8_valid s'"
    "json_escape s = json_rune r @ json_escape s'" "length s' < length s"
proof -
  obtain c cs where s: "s = c # cs" using assms(2) by (cases s) auto
  with assms(1) obtain n where n: "rune_width s = Some n" "utf8_valid (drop (n - 1) cs)"
    by (auto simp del: rune_width.simps split: option.splits)
  from rune_take [OF n(1)] have "is_rune (take n s)" "0 < n" "n \<le> length s" by auto
  moreover from \<open>0 < n\<close> s have "drop n s = drop (n - 1) cs" by (cases n) auto
  moreover have "json_escape s = json_rune (take n s) @ json_escape (drop (n - 1) cs)"
    using n(1) by (simp add: s del: rune_width.simps)
  ultimately have facts: "is_rune (take n s)" "utf8_valid (drop n s)"
    "json_escape s = json_rune (take n s) @ json_escape (drop n s)" "length (drop n s) < length s"
    using n(2) s by simp_all
  have "s = take n s @ drop n s" by simp
  then show ?thesis using facts by (rule that)
qed

lemma json_escape_inject:
  assumes "utf8_valid s" "utf8_valid t"
    "json_escape s @ CHR 0x22 # a = json_escape t @ CHR 0x22 # b"
  shows "s = t \<and> a = b"
  using assms
proof (induction "length s" arbitrary: s t rule: less_induct)
  case less
  show ?case
  proof (cases "s = [] \<or> t = []")
    case True
    then show ?thesis
      using less.prems json_escape_step [of s] json_escape_step [of t] json_rune_no_quote
      by (metis append.assoc append_Nil json_escape.simps(1) list.inject)
  next
    case False
    obtain r s' where s: "s = r @ s'" "is_rune r" "utf8_valid s'"
      "json_escape s = json_rune r @ json_escape s'" "length s' < length s"
      using json_escape_step less.prems(1) False by metis
    obtain r' t' where t: "t = r' @ t'" "is_rune r'" "utf8_valid t'"
      "json_escape t = json_rune r' @ json_escape t'"
      using json_escape_step less.prems(2) False by metis
    from less.prems(3) s(4) t(4)
    have "r = r' \<and> json_escape s' @ CHR 0x22 # a = json_escape t' @ CHR 0x22 # b"
      using json_rune_prefix [OF s(2) t(2)] by simp
    with less.hyps [OF s(5) s(3) t(3)] s(1) t(1) show ?thesis by simp
  qed
qed

lemma json_string_inject:
  "utf8_valid s \<Longrightarrow> utf8_valid t \<Longrightarrow> json_string s @ a = json_string t @ b \<Longrightarrow> s = t \<and> a = b"
  using json_escape_inject [of s t a b] by (simp add: json_string_def)

subsection \<open>Strings that have been through JSON\<close>

text \<open>A string that has been through JSON: bytes that start no rune have become U+FFFD.\<close>

function sanitize :: "string \<Rightarrow> string" where
  "sanitize [] = []"
| "sanitize (c # cs) =
     (case rune_width (c # cs) of
        None \<Rightarrow> [CHR 0xEF, CHR 0xBF, CHR 0xBD] @ sanitize cs
      | Some n \<Rightarrow> take n (c # cs) @ sanitize (drop (n - 1) cs))"
  by pat_completeness auto
termination by (relation "measure length") auto

lemma sanitize_valid: "utf8_valid s \<Longrightarrow> sanitize s = s"
proof (induction s rule: sanitize.induct)
  case (2 c cs)
  then obtain n where n: "rune_width (c # cs) = Some n" "utf8_valid (drop (n - 1) cs)"
    by (auto simp del: rune_width.simps split: option.splits)
  moreover have "take n (c # cs) @ drop (n - 1) cs = c # cs"
    using rune_take [OF n(1)] by (cases n) simp_all
  ultimately show ?case using 2 by (simp del: rune_width.simps)
qed simp

section \<open>Values and their text\<close>

text \<open>
  What \<^verbatim>\<open>json.Marshal\<close> makes of a Go value: \<open>VNum\<close> holds the number's text, \<open>VObj\<close> the
  members in the order they are written (a struct's field order, a map's key order), and
  \<open>VFail\<close> is a value whose \<^verbatim>\<open>MarshalJSON\<close> returns an error.
\<close>

datatype goval =
    VNull
  | VBool bool
  | VNum string
  | VStr string
  | VArr "goval list"
  | VObj "(string \<times> goval) list"
  | VFail err

text \<open>The first \<^verbatim>\<open>MarshalJSON\<close> error met while writing a value, if there is one.\<close>

fun first_fail :: "goval \<Rightarrow> err option"
  and first_fail_list :: "goval list \<Rightarrow> err option"
  and first_fail_members :: "(string \<times> goval) list \<Rightarrow> err option" where
  "first_fail (VArr vs) = first_fail_list vs"
| "first_fail (VObj kvs) = first_fail_members kvs"
| "first_fail (VFail e) = Some e"
| "first_fail _ = None"
| "first_fail_list [] = None"
| "first_fail_list (v # vs) =
     (case first_fail v of Some e \<Rightarrow> Some e | None \<Rightarrow> first_fail_list vs)"
| "first_fail_members [] = None"
| "first_fail_members ((k, v) # kvs) =
     (case first_fail v of Some e \<Rightarrow> Some e | None \<Rightarrow> first_fail_members kvs)"

text \<open>
  The compact text. The rest of an array or object after its first element starts with a
  comma or is the closing bracket.
\<close>

fun render :: "goval \<Rightarrow> string"
  and render_rest :: "goval list \<Rightarrow> string"
  and render_members :: "(string \<times> goval) list \<Rightarrow> string" where
  "render VNull = ''null''"
| "render (VBool b) = (if b then ''true'' else ''false'')"
| "render (VNum n) = n"
| "render (VStr s) = json_string s"
| "render (VArr []) = ''[]''"
| "render (VArr (v # vs)) = ''['' @ render v @ render_rest vs"
| "render (VObj []) = ''{}''"
| "render (VObj ((k, v) # kvs)) = ''{'' @ json_string k @ '':'' @ render v @ render_members kvs"
| "render (VFail e) = []"
| "render_rest [] = '']''"
| "render_rest (v # vs) = '','' @ render v @ render_rest vs"
| "render_members [] = ''}''"
| "render_members ((k, v) # kvs) = '','' @ json_string k @ '':'' @ render v @ render_members kvs"

definition marshal :: "goval \<Rightarrow> bytes res" where
  "marshal v = (case first_fail v of Some e \<Rightarrow> Inl e | None \<Rightarrow> Inr (bytes_of (render v)))"

subsection \<open>The text determines the value\<close>

definition num_char :: "char \<Rightarrow> bool" where
  "num_char c \<longleftrightarrow> c \<in> set ''0123456789+-.eE''"

fun wf_val :: "goval \<Rightarrow> bool" where
  "wf_val VNull \<longleftrightarrow> True"
| "wf_val (VBool b) \<longleftrightarrow> True"
| "wf_val (VNum n) \<longleftrightarrow> n \<noteq> [] \<and> list_all num_char n"
| "wf_val (VStr s) \<longleftrightarrow> utf8_valid s"
| "wf_val (VArr vs) \<longleftrightarrow> (\<forall>v \<in> set vs. wf_val v)"
| "wf_val (VObj kvs) \<longleftrightarrow> (\<forall>kv \<in> set kvs. utf8_valid (fst kv) \<and> wf_val (snd kv))"
| "wf_val (VFail e) \<longleftrightarrow> False"

lemma not_num_char:
  "\<not> num_char (CHR ''n'')" "\<not> num_char (CHR ''t'')" "\<not> num_char (CHR ''f'')"
  "\<not> num_char (CHR 0x22)" "\<not> num_char (CHR ''['')" "\<not> num_char (CHR ''{'')"
  "\<not> num_char (CHR '']'')" "\<not> num_char (CHR ''}'')" "\<not> num_char (CHR '','')"
  by (simp_all add: num_char_def)

text \<open>What can follow a value inside a larger text.\<close>

definition delim :: "string \<Rightarrow> bool" where
  "delim x \<longleftrightarrow> x = [] \<or> hd x = CHR '','' \<or> hd x = CHR '']'' \<or> hd x = CHR ''}''"

lemma delim_not_num: "delim x \<Longrightarrow> takeWhile num_char x = []"
  by (cases x) (auto simp: delim_def num_char_def)

lemma num_prefix:
  assumes "list_all num_char n" "list_all num_char m" "delim x" "delim y" "n @ x = m @ y"
  shows "n = m \<and> x = y"
proof -
  have "takeWhile num_char (n @ x) = n" "takeWhile num_char (m @ y) = m"
    using assms(1-4) by (simp_all add: takeWhile_append2 list_all_iff delim_not_num)
  with assms(5) show ?thesis by simp
qed

text \<open>The first character tells the kinds of values apart.\<close>

definition opener :: "goval \<Rightarrow> char \<Rightarrow> bool" where
  "opener v c \<longleftrightarrow> (case v of
      VNull \<Rightarrow> c = CHR ''n''
    | VBool b \<Rightarrow> c = (if b then CHR ''t'' else CHR ''f'')
    | VNum _ \<Rightarrow> num_char c
    | VStr _ \<Rightarrow> c = CHR 0x22
    | VArr _ \<Rightarrow> c = CHR ''[''
    | VObj _ \<Rightarrow> c = CHR ''{''
    | VFail _ \<Rightarrow> False)"

lemma render_opener: "wf_val v \<Longrightarrow> \<exists>c t. render v = c # t \<and> opener v c"
proof (cases v)
  case (VNum n)
  assume "wf_val v"
  with VNum show ?thesis by (cases n) (simp_all add: opener_def)
next
  case (VArr vs)
  then show ?thesis by (cases vs) (simp_all add: opener_def)
next
  case (VObj kvs)
  then show ?thesis by (cases kvs rule: render_members.cases) (simp_all add: opener_def)
qed (simp_all add: opener_def json_string_def)

fun kind :: "goval \<Rightarrow> nat" where
  "kind VNull = 0"
| "kind (VBool b) = (if b then 1 else 2)"
| "kind (VNum _) = 3"
| "kind (VStr _) = 4"
| "kind (VArr _) = 5"
| "kind (VObj _) = 6"
| "kind (VFail _) = 7"

definition kind_of_char :: "char \<Rightarrow> nat" where
  "kind_of_char c =
     (if c = CHR ''n'' then 0 else if c = CHR ''t'' then 1 else if c = CHR ''f'' then 2
      else if num_char c then 3 else if c = CHR 0x22 then 4 else if c = CHR ''['' then 5
      else if c = CHR ''{'' then 6 else 7)"

lemma opener_kind: "opener v c \<Longrightarrow> kind_of_char c = kind v"
proof (cases v)
  case (VNum n)
  assume "opener v c"
  with VNum have "num_char c" by (simp add: opener_def)
  then show ?thesis using VNum not_num_char by (auto simp: kind_of_char_def)
qed (auto simp: opener_def kind_of_char_def not_num_char split: if_splits)

lemma same_kind:
  assumes "wf_val v" "wf_val w" "render v @ x = render w @ y"
  shows "kind w = kind v"
proof -
  obtain c t where c: "render v = c # t" "opener v c" using render_opener [OF assms(1)] by blast
  obtain d u where d: "render w = d # u" "opener w d" using render_opener [OF assms(2)] by blast
  have "c = d" using c(1) d(1) assms(3) by simp
  with opener_kind [OF c(2)] opener_kind [OF d(2)] show ?thesis by simp
qed

lemma kind_simps:
  "kind w = 0 \<longleftrightarrow> w = VNull"
  "kind w = Suc 0 \<longleftrightarrow> w = VBool True"
  "kind w = 2 \<longleftrightarrow> w = VBool False"
  "kind w = 3 \<longleftrightarrow> (\<exists>n. w = VNum n)"
  "kind w = 4 \<longleftrightarrow> (\<exists>s. w = VStr s)"
  "kind w = 5 \<longleftrightarrow> (\<exists>vs. w = VArr vs)"
  "kind w = 6 \<longleftrightarrow> (\<exists>kvs. w = VObj kvs)"
  by (cases w; simp)+

lemma render_closes:
  assumes "wf_val v"
  shows "render v @ x \<noteq> CHR '']'' # y"
proof
  assume eq: "render v @ x = CHR '']'' # y"
  obtain c t where c: "render v = c # t" "opener v c" using render_opener [OF assms] by blast
  with eq have "opener v (CHR '']'')" by simp
  from opener_kind [OF this] assms show False
    by (cases v) (simp_all add: kind_of_char_def not_num_char split: if_splits)
qed

lemma delim_simps [simp]:
  "delim (CHR '','' # x)" "delim (CHR '']'' # x)" "delim (CHR ''}'' # x)"
  by (simp_all add: delim_def)

lemma delim_rest [simp]: "delim (render_rest vs @ x)" "delim (render_members kvs @ x)"
  by (cases vs; simp) (cases kvs rule: render_members.cases; simp)

lemma render_prefix:
  "wf_val v \<Longrightarrow> wf_val w \<Longrightarrow> delim x \<Longrightarrow> delim y \<Longrightarrow> render v @ x = render w @ y \<Longrightarrow>
     v = w \<and> x = y"
  and render_rest_prefix:
  "\<forall>v \<in> set vs. wf_val v \<Longrightarrow> \<forall>w \<in> set ws. wf_val w \<Longrightarrow>
     render_rest vs @ x = render_rest ws @ y \<Longrightarrow> vs = ws \<and> x = y"
  and render_members_prefix:
  "wf_val (VObj kvs) \<Longrightarrow> wf_val (VObj kws) \<Longrightarrow>
     render_members kvs @ x = render_members kws @ y \<Longrightarrow> kvs = kws \<and> x = y"
proof (induction v and vs and kvs arbitrary: w x y and ws x y and kws x y
    rule: render_render_rest_render_members.induct)
  case 1
  then show ?case using same_kind [of VNull w x y] by (simp add: kind_simps)
next
  case (2 b)
  then show ?case using same_kind [of "VBool b" w x y] by (auto simp: kind_simps split: if_splits)
next
  case (3 n)
  then obtain m where "w = VNum m" using same_kind [of "VNum n" w x y] by (auto simp: kind_simps)
  with "3" num_prefix [of n m x y] show ?case by simp
next
  case (4 s)
  then obtain t where "w = VStr t" using same_kind [of "VStr s" w x y] by (auto simp: kind_simps)
  with "4" json_string_inject [of s t x y] show ?case by simp
next
  case 5
  then obtain ws where w: "w = VArr ws" using same_kind [of "VArr []" w x y] by (auto simp: kind_simps)
  with "5" show ?case
    using render_closes [of "hd ws" _ x] by (cases ws) (simp_all add: eq_commute)
next
  case (6 v vs)
  from "6.prems" obtain ws where w: "w = VArr ws"
    using same_kind [of "VArr (v # vs)" w x y] by (auto simp: kind_simps)
  have "ws \<noteq> []"
    using render_closes [of v "render_rest vs @ x" y] "6.prems" w by auto
  then obtain u us where ws: "w = VArr (u # us)" using w by (cases ws) auto
  have vu: "v = u \<and> render_rest vs @ x = render_rest us @ y"
    by (rule "6.IH"(1)) (use "6.prems" ws in simp_all)
  have "vs = us \<and> x = y"
    by (rule "6.IH"(2)) (use "6.prems"(1,2) ws conjunct2 [OF vu] in simp_all)
  with vu ws show ?case by simp
next
  case 7
  then obtain kws where w: "w = VObj kws"
    using same_kind [of "VObj []" w x y] by (auto simp: kind_simps)
  with "7" show ?case by (cases kws rule: render_members.cases) (simp_all add: json_string_def)
next
  case (8 k v kvs)
  from "8.prems" obtain kws where w: "w = VObj kws"
    using same_kind [of "VObj ((k, v) # kvs)" w x y] by (auto simp: kind_simps)
  with "8.prems" obtain l u kus where ws: "w = VObj ((l, u) # kus)"
    by (cases kws rule: render_members.cases) (simp_all add: json_string_def)
  have key: "k = l \<and> CHR '':'' # render v @ render_members kvs @ x = CHR '':'' # render u @ render_members kus @ y"
    by (rule json_string_inject) (use "8.prems" ws in simp_all)
  have vu: "v = u \<and> render_members kvs @ x = render_members kus @ y"
    by (rule "8.IH"(1)) (use "8.prems"(1,2) ws conjunct2 [OF key] in simp_all)
  have "kvs = kus \<and> x = y"
    by (rule "8.IH"(2)) (use "8.prems"(1,2) ws conjunct2 [OF vu] in simp_all)
  with key vu ws show ?case by simp
next
  case (9 e)
  then show ?case by simp
next
  case 10
  then show ?case by (cases ws) simp_all
next
  case (11 v vs)
  from "11.prems" obtain u us where ws: "ws = u # us" by (cases ws) simp_all
  have vu: "v = u \<and> render_rest vs @ x = render_rest us @ y"
    by (rule "11.IH"(1)) (use "11.prems" ws in simp_all)
  have "vs = us \<and> x = y"
    by (rule "11.IH"(2)) (use "11.prems"(1,2) ws conjunct2 [OF vu] in simp_all)
  with vu ws show ?case by simp
next
  case 12
  then show ?case by (cases kws rule: render_members.cases) simp_all
next
  case (13 k v kvs)
  from "13.prems" obtain l u kus where ws: "kws = (l, u) # kus"
    by (cases kws rule: render_members.cases) simp_all
  have key: "k = l \<and> CHR '':'' # render v @ render_members kvs @ x = CHR '':'' # render u @ render_members kus @ y"
    by (rule json_string_inject) (use "13.prems" ws in simp_all)
  have vu: "v = u \<and> render_members kvs @ x = render_members kus @ y"
    by (rule "13.IH"(1)) (use "13.prems"(1,2) ws conjunct2 [OF key] in simp_all)
  have "kvs = kus \<and> x = y"
    by (rule "13.IH"(2)) (use "13.prems"(1,2) ws conjunct2 [OF vu] in simp_all)
  with key vu ws show ?case by simp
qed

lemma render_inject: "wf_val v \<Longrightarrow> wf_val w \<Longrightarrow> render v = render w \<longleftrightarrow> v = w"
  using render_prefix [of v w "[]" "[]"] by (auto simp: delim_def)

lemma first_fail_wf:
  "wf_val v \<Longrightarrow> first_fail v = None"
  and first_fail_list_wf: "\<forall>v \<in> set vs. wf_val v \<Longrightarrow> first_fail_list vs = None"
  and first_fail_members_wf: "wf_val (VObj kvs) \<Longrightarrow> first_fail_members kvs = None"
  by (induction v and vs and kvs rule: first_fail_first_fail_list_first_fail_members.induct)
    auto

lemma marshal_wf: "wf_val v \<Longrightarrow> marshal v = Inr (bytes_of (render v))"
  by (simp add: marshal_def first_fail_wf)

lemma marshal_inject: "wf_val v \<Longrightarrow> wf_val w \<Longrightarrow> marshal v = marshal w \<longleftrightarrow> v = w"
  by (simp add: marshal_wf render_inject)

section \<open>Values of the types the code marshals\<close>

definition vbytes :: "gobytes \<Rightarrow> goval" where
  \<comment> \<open>a \<^verbatim>\<open>[]byte\<close>: null when nil, else its padded base64 text\<close>
  "vbytes g = (case g of None \<Rightarrow> VNull | Some b \<Rightarrow> VStr (std_encode b))"

definition vmap :: "('a \<Rightarrow> goval) \<Rightarrow> (string, 'a) fmap \<Rightarrow> goval" where
  \<comment> \<open>a \<^verbatim>\<open>map[string]T\<close>: its members in key order\<close>
  "vmap f m = VObj (map (\<lambda>(k, v). (k, f v)) (entries m))"

definition vlist :: "('a \<Rightarrow> goval) \<Rightarrow> 'a list \<Rightarrow> goval" where
  "vlist f xs = VArr (map f xs)"

end
