(* ===== verification/Primitives.thy ===== *)
theory Primitives
  imports Go_Json
begin

text \<open>
  The primitives the repository calls and does not implement, as one record every
  definition that needs them takes as an argument: SHA-256, AES and AES-GCM, Ed25519 and
  X25519 of \<^verbatim>\<open>crypto/*\<close>, and \<^verbatim>\<open>jcs.Transform\<close> of \<^verbatim>\<open>github.com/gowebpki/jcs\<close>. Nothing is
  assumed of them in a definition. The laws some theorems rely on are the documented ones
  below (decryption inverts encryption, a signature made verifies, key agreement
  commutes); collision resistance is never assumed: the theorems that would need it
  exhibit the colliding inputs instead.
\<close>

record prims =
  sha256 :: "bytes \<Rightarrow> bytes"
  jcs_transform :: "bytes \<Rightarrow> string + bytes"
  aes_encrypt :: "bytes \<Rightarrow> bytes \<Rightarrow> bytes"
  aes_decrypt :: "bytes \<Rightarrow> bytes \<Rightarrow> bytes"
  gcm_seal :: "bytes \<Rightarrow> bytes \<Rightarrow> bytes \<Rightarrow> bytes \<Rightarrow> bytes"
  gcm_open :: "bytes \<Rightarrow> bytes \<Rightarrow> bytes \<Rightarrow> bytes \<Rightarrow> bytes option"
  ed25519_sign :: "bytes \<Rightarrow> bytes \<Rightarrow> bytes"
  ed25519_verify :: "bytes \<Rightarrow> bytes \<Rightarrow> bytes \<Rightarrow> bool"
  x25519_public :: "bytes \<Rightarrow> bytes"
  x25519_ecdh :: "bytes \<Rightarrow> bytes \<Rightarrow> bytes option"

text \<open>AES-256-GCM (\<^verbatim>\<open>crypto/cipher\<close>): opening inverts sealing, and the tag is 16 bytes.\<close>

definition gcm_ok :: "prims \<Rightarrow> bool" where
  "gcm_ok P \<longleftrightarrow>
     (\<forall>k n p a. length k = 32 \<longrightarrow> length n = 12 \<longrightarrow>
        gcm_open P k n (gcm_seal P k n p a) a = Some p
        \<and> length (gcm_seal P k n p a) = length p + 16)"

text \<open>The AES block cipher (\<^verbatim>\<open>crypto/aes\<close>): a permutation of 16-byte blocks for every key.\<close>

definition aes_ok :: "prims \<Rightarrow> bool" where
  "aes_ok P \<longleftrightarrow>
     (\<forall>k b. length b = 16 \<longrightarrow>
        length (aes_encrypt P k b) = 16 \<and> length (aes_decrypt P k b) = 16
        \<and> aes_decrypt P k (aes_encrypt P k b) = b \<and> aes_encrypt P k (aes_decrypt P k b) = b)"

text \<open>Ed25519 (\<^verbatim>\<open>crypto/ed25519\<close>): the key pair \<open>priv\<close>, \<open>pub\<close> signs and verifies.\<close>

definition ed25519_pair :: "prims \<Rightarrow> bytes \<Rightarrow> bytes \<Rightarrow> bool" where
  "ed25519_pair P priv pub \<longleftrightarrow>
     length pub = 32 \<and>
     (\<forall>m. length (ed25519_sign P priv m) = 64 \<and> ed25519_verify P pub m (ed25519_sign P priv m))"

text \<open>X25519 (\<^verbatim>\<open>crypto/ecdh\<close>): both sides of an agreement that succeeds get the same secret.\<close>

definition ecdh_ok :: "prims \<Rightarrow> bool" where
  "ecdh_ok P \<longleftrightarrow>
     (\<forall>a. length (x25519_public P a) = 32) \<and>
     (\<forall>a b. length a = 32 \<longrightarrow> length b = 32 \<longrightarrow>
        x25519_ecdh P a (x25519_public P b) = x25519_ecdh P b (x25519_public P a))"

text \<open>SHA-256 has 32 bytes of output.\<close>

definition sha256_ok :: "prims \<Rightarrow> bool" where
  "sha256_ok P \<longleftrightarrow> (\<forall>b. length (sha256 P b) = 32)"

section \<open>A concrete instance\<close>

text \<open>
  A small executable instance of the record for the witnesses, with no cryptographic
  strength: canonicalization is the identity on text, the hash is a
  one-byte checksum repeated, encryption appends a tag computed from key, nonce and associated data, and key
  agreement is a bytewise sum. It satisfies every law above.
\<close>

definition fold_bytes :: "nat \<Rightarrow> bytes \<Rightarrow> bytes" where
  "fold_bytes n bs = replicate n (foldr (\<lambda>b acc. acc * 31 + b) bs 7)"

definition demo_tag :: "bytes \<Rightarrow> bytes \<Rightarrow> bytes \<Rightarrow> bytes" where
  "demo_tag k n a = fold_bytes 16 (k @ n @ a)"

definition demo_prims :: prims where
  "demo_prims =
     \<lparr> sha256 = fold_bytes 32,
       jcs_transform = Inr,
       aes_encrypt = (\<lambda>k b. map (\<lambda>x. x + 1) b),
       aes_decrypt = (\<lambda>k b. map (\<lambda>x. x - 1) b),
       gcm_seal = (\<lambda>k n p a. p @ demo_tag k n a),
       gcm_open = (\<lambda>k n c a.
         (let m = length c - 16 in
          if 16 \<le> length c \<and> drop m c = demo_tag k n a then Some (take m c) else None)),
       ed25519_sign = (\<lambda>priv m. fold_bytes 64 m),
       ed25519_verify = (\<lambda>pub m s. s = fold_bytes 64 m),
       x25519_public = (\<lambda>a. map (\<lambda>x. x + 9) (take 32 (a @ replicate 32 0))),
       x25519_ecdh = (\<lambda>a p. Some (map2 (\<lambda>x y. x + y) a p)) \<rparr>"

lemma length_fold_bytes [simp]: "length (fold_bytes n b) = n"
  by (simp add: fold_bytes_def)

lemma demo_gcm_ok: "gcm_ok demo_prims"
  by (simp add: gcm_ok_def demo_prims_def demo_tag_def)

lemma demo_aes_ok: "aes_ok demo_prims"
  by (simp add: aes_ok_def demo_prims_def comp_def)

lemma demo_ed25519_pair: "length pub = 32 \<Longrightarrow> ed25519_pair demo_prims priv pub"
  by (simp add: ed25519_pair_def demo_prims_def)

lemma demo_ecdh_ok: "ecdh_ok demo_prims"
proof -
  have "map2 (\<lambda>x y. x + y) a (map (\<lambda>x. x + 9) b) = map2 (\<lambda>x y. x + y) b (map (\<lambda>x. x + (9 :: byte)) a)"
    if "length a = length b" for a b :: bytes
    using that by (induction a b rule: list_induct2) (simp_all add: ac_simps)
  then show ?thesis by (auto simp: ecdh_ok_def demo_prims_def min_def)
qed

lemma demo_sha256_ok: "sha256_ok demo_prims"
  by (simp add: sha256_ok_def demo_prims_def)

end
