(* ===== verification/Canonical.thy ===== *)
theory Canonical
  imports Primitives
begin

text \<open>
  \<^verbatim>\<open>pkg/chainbind/canonical.go\<close>: canonical JSON and the tagged hash. The lemmas reduce equality of canonical
  forms and of hashes to equality of the values, or to an explicit collision.
\<close>

section \<open>JCS and H\<close>

definition JCS :: "prims \<Rightarrow> goval \<Rightarrow> bytes res" where
  "JCS P v =
     (case marshal v of
        Inl e \<Rightarrow> Inl (errorf ''chainbind: jcs marshal: '' e)
      | Inr raw \<Rightarrow>
          (case jcs_transform P raw of
             Inl t \<Rightarrow> Inl (errorf ''chainbind: jcs transform: '' (LibErr t))
           | Inr canon \<Rightarrow> Inr canon))"

definition H :: "prims \<Rightarrow> bytes \<Rightarrow> string" where
  "H P b = ''sha256:'' @ hex_encode (sha256 P b)"

text \<open>
  Two different texts that canonicalize alike, two different inputs with one SHA-256, and
  two different values that are confused by either step of hashing a value.
\<close>

definition jcs_collision :: "prims \<Rightarrow> goval \<Rightarrow> goval \<Rightarrow> bool" where
  "jcs_collision P v w \<longleftrightarrow> v \<noteq> w \<and> (\<exists>c. JCS P v = Inr c \<and> JCS P w = Inr c)"

definition sha_collision :: "prims \<Rightarrow> bytes \<Rightarrow> bytes \<Rightarrow> bool" where
  "sha_collision P a b \<longleftrightarrow> a \<noteq> b \<and> sha256 P a = sha256 P b"

definition digest_collision :: "prims \<Rightarrow> goval \<Rightarrow> goval \<Rightarrow> bool" where
  "digest_collision P v w \<longleftrightarrow>
     jcs_collision P v w \<or>
     (\<exists>a b. JCS P v = Inr a \<and> JCS P w = Inr b \<and> sha_collision P a b)"

lemma H_inject: "H P a = H P b \<Longrightarrow> a = b \<or> sha_collision P a b"
  by (auto simp: H_def sha_collision_def)

lemma H_prefix: "take 7 (H P b) = ''sha256:''"
  by (simp add: H_def)

lemma JCS_inject: "JCS P v = Inr c \<Longrightarrow> JCS P w = Inr c \<Longrightarrow> v = w \<or> jcs_collision P v w"
  by (auto simp: jcs_collision_def)

lemma digest_inject:
  assumes "JCS P v = Inr a" "JCS P w = Inr b" "H P a = H P b"
  shows "v = w \<or> digest_collision P v w"
proof (cases "a = b")
  case True
  with assms show ?thesis by (auto simp: digest_collision_def jcs_collision_def)
next
  case False
  with assms H_inject [OF assms(3)] show ?thesis by (auto simp: digest_collision_def)
qed

text \<open>
  On values with valid UTF-8 strings a collision of canonical forms is a collision of
  \<^verbatim>\<open>jcs.Transform\<close> itself, on two different JSON texts.
\<close>

lemma jcs_collision_texts:
  assumes "wf_val v" "wf_val w" "jcs_collision P v w"
  shows "bytes_of (render v) \<noteq> bytes_of (render w) \<and>
    jcs_transform P (bytes_of (render v)) = jcs_transform P (bytes_of (render w))"
  using assms by (auto simp: jcs_collision_def JCS_def marshal_wf render_inject split: sum.splits)

lemma JCS_demo: "wf_val v \<Longrightarrow> JCS demo_prims v = Inr (bytes_of (render v))"
  by (simp add: JCS_def marshal_wf demo_prims_def)

text \<open>The canonical form determines a value that is text.\<close>

theorem canonical_form_determines:
  assumes "wf_val v" "wf_val w" "JCS P v = Inr c" "JCS P w = Inr c"
  shows "v = w \<or> (bytes_of (render v) \<noteq> bytes_of (render w) \<and>
    jcs_transform P (bytes_of (render v)) = jcs_transform P (bytes_of (render w)))"
  using JCS_inject [OF assms(3,4)] jcs_collision_texts [OF assms(1,2)] by blast

end
