(* ===== verification/Package_Format.thy ===== *)
theory Package_Format
  imports Canonical
begin

text \<open>
  \<^verbatim>\<open>pkg/chainbind/package.go\<close>: the sealed wire format. One record per Go struct, its JSON
  value with the struct tags as member names (\<open>*_val\<close>), and the two custom encoders:
  \<open>Bindings\<close> flattens its core fields and the profile's extra ones into one object and
  refuses a collision, \<open>Manifest\<close> always writes its disclosures as an array.
\<close>

section \<open>Timestamps\<close>

text \<open>
  \<^verbatim>\<open>time.Time\<close> as its civil fields and its zone offset in seconds, and the text its
  \<^verbatim>\<open>MarshalJSON\<close> writes (RFC 3339 with the fraction's trailing zeros dropped), which fails
  for a year that is not four digits or a zone of 24 hours and more.
\<close>

record gotime =
  tm_year :: int
  tm_month :: nat
  tm_day :: nat
  tm_hour :: nat
  tm_minute :: nat
  tm_second :: nat
  tm_nano :: nat
  tm_offset :: int

primrec fixed_dec :: "nat \<Rightarrow> nat \<Rightarrow> string" where
  "fixed_dec 0 n = []"
| "fixed_dec (Suc w) n = fixed_dec w (n div 10) @ [digit_char n]"

definition fraction_text :: "nat \<Rightarrow> string" where
  "fraction_text ns =
     (if ns = 0 then []
      else ''.'' @ rev (dropWhile (\<lambda>c. c = CHR ''0'') (rev (fixed_dec 9 ns))))"

definition zone_text :: "int \<Rightarrow> string" where
  "zone_text off =
     (if off = 0 then ''Z''
      else let z = nat (\<bar>off\<bar> div 60) in
        (if off \<le> -60 then ''-'' else ''+'') @ fixed_dec 2 (z div 60) @ '':'' @ fixed_dec 2 (z mod 60))"

definition time_text :: "gotime \<Rightarrow> string" where
  "time_text t =
     fixed_dec 4 (nat (tm_year t)) @ ''-'' @ fixed_dec 2 (tm_month t) @ ''-'' @ fixed_dec 2 (tm_day t)
     @ ''T'' @ fixed_dec 2 (tm_hour t) @ '':'' @ fixed_dec 2 (tm_minute t) @ '':''
     @ fixed_dec 2 (tm_second t) @ fraction_text (tm_nano t) @ zone_text (tm_offset t)"

definition time_val :: "gotime \<Rightarrow> goval" where
  "time_val t =
     (if tm_year t < 0 \<or> 9999 < tm_year t
      then VFail (LibErr ''json: error calling MarshalJSON for type time.Time: Time.MarshalJSON: year outside of range [0,9999]'')
      else if 24 * 3600 \<le> \<bar>tm_offset t\<bar>
      then VFail (LibErr ''json: error calling MarshalJSON for type time.Time: Time.MarshalJSON: timezone hour outside of range [0,23]'')
      else VStr (time_text t))"

section \<open>The structs\<close>

record issuer =
  iss_iss :: string
  iss_kid :: string

record intent =
  in_intent_ref :: string
  in_authority :: string
  in_constraints_hash :: string

record key_confirmation =
  kc_kid :: string
  kc_jkt :: string
  kc_method :: string

text \<open>A nil \<^verbatim>\<open>CNF\<close> map (\<open>None\<close>) is written as null, an empty one as an empty object.\<close>

type_synonym cnf = "(string, key_confirmation) fmap option"

record bindings =
  bd_segments_root :: string
  bd_intent_commitment :: string
  bd_extra :: "(string, string) fmap"

record aad_context =
  ac_package_id :: string
  ac_tenant_id :: string
  ac_environment :: string

record segment =
  sg_audience :: string
  sg_kid :: string
  sg_alg :: string
  sg_wrap_alg :: string
  sg_plain_hash :: string
  sg_cipher_hash :: string

record manifest =
  mf_schema :: string
  mf_hash_alg :: string
  mf_canonicalization :: string
  mf_segment_order :: "string list"
  mf_aad_context :: aad_context
  mf_segments :: "(string, segment) fmap"
  mf_disclosures :: "goval list"

record epk =
  ep_kty :: string
  ep_crv :: string
  ep_x :: string

record sealed_segment =
  ss_epk :: epk
  ss_dek_wrapped :: string
  ss_nonce :: string
  ss_ciphertext :: string
  ss_tag :: string

record signature =
  sn_alg :: string
  sn_kid :: string
  sn_signed_fields :: "string list"
  sn_value :: string

record package =
  pk_spec_version :: string
  pk_profile :: string
  pk_package_id :: string
  pk_issued_at :: gotime
  pk_issuer :: issuer
  pk_intent :: intent
  pk_cnf :: cnf
  pk_bindings :: bindings
  pk_manifest :: manifest
  pk_segments :: "(string, sealed_segment) fmap"
  pk_signature :: signature

definition SupportedSpecVersion :: string where
  "SupportedSpecVersion = ''1.0.0''"

definition CheckSpecVersion :: "string \<Rightarrow> unit res" where
  "CheckSpecVersion v =
     (if v \<noteq> SupportedSpecVersion
      then Inl (Wrapped '''' (Sentinel ErrUnsupportedSpecVersion) ('': '' @ go_quote v))
      else Inr ())"

section \<open>The JSON value of each struct\<close>

definition issuer_val :: "issuer \<Rightarrow> goval" where
  "issuer_val i = VObj [(''iss'', VStr (iss_iss i)), (''kid'', VStr (iss_kid i))]"

definition intent_val :: "intent \<Rightarrow> goval" where
  "intent_val i = VObj [(''intent_ref'', VStr (in_intent_ref i)),
     (''authority'', VStr (in_authority i)), (''constraints_hash'', VStr (in_constraints_hash i))]"

definition key_confirmation_val :: "key_confirmation \<Rightarrow> goval" where
  "key_confirmation_val k =
     VObj [(''kid'', VStr (kc_kid k)), (''jkt'', VStr (kc_jkt k)), (''method'', VStr (kc_method k))]"

definition cnf_val :: "cnf \<Rightarrow> goval" where
  "cnf_val c = (case c of None \<Rightarrow> VNull | Some m \<Rightarrow> vmap key_confirmation_val m)"

definition aad_context_val :: "aad_context \<Rightarrow> goval" where
  "aad_context_val c = VObj [(''package_id'', VStr (ac_package_id c)),
     (''tenant_id'', VStr (ac_tenant_id c)), (''environment'', VStr (ac_environment c))]"

definition segment_val :: "segment \<Rightarrow> goval" where
  "segment_val s = VObj [(''audience'', VStr (sg_audience s)), (''kid'', VStr (sg_kid s)),
     (''alg'', VStr (sg_alg s)), (''wrap_alg'', VStr (sg_wrap_alg s)),
     (''plain_hash'', VStr (sg_plain_hash s)), (''cipher_hash'', VStr (sg_cipher_hash s))]"

text \<open>\<^verbatim>\<open>Manifest.MarshalJSON\<close>: nil disclosures become the empty array.\<close>

definition manifest_val :: "manifest \<Rightarrow> goval" where
  "manifest_val m = VObj [(''schema'', VStr (mf_schema m)), (''hash_alg'', VStr (mf_hash_alg m)),
     (''canonicalization'', VStr (mf_canonicalization m)),
     (''segment_order'', vlist VStr (mf_segment_order m)),
     (''aad_context'', aad_context_val (mf_aad_context m)),
     (''segments'', vmap segment_val (mf_segments m)),
     (''disclosures'', VArr (mf_disclosures m))]"

subsection \<open>Bindings\<close>

definition bindingsFieldSegmentsRoot :: string where
  "bindingsFieldSegmentsRoot = ''segments_root''"

definition bindingsFieldIntentCommitment :: string where
  "bindingsFieldIntentCommitment = ''intent_commitment''"

definition bindings_MarshalJSON :: "bindings \<Rightarrow> (string, string) fmap res" where
  "bindings_MarshalJSON b =
     (if fmlookup (bd_extra b) bindingsFieldSegmentsRoot \<noteq> None
      then Inl (Wrapped '''' (Sentinel ErrBindingCollision) ('': '' @ go_quote bindingsFieldSegmentsRoot))
      else if fmlookup (bd_extra b) bindingsFieldIntentCommitment \<noteq> None
      then Inl (Wrapped '''' (Sentinel ErrBindingCollision) ('': '' @ go_quote bindingsFieldIntentCommitment))
      else Inr (fmupd bindingsFieldIntentCommitment (bd_intent_commitment b)
                 (fmupd bindingsFieldSegmentsRoot (bd_segments_root b) (bd_extra b))))"

definition bindings_val :: "bindings \<Rightarrow> goval" where
  "bindings_val b =
     (case bindings_MarshalJSON b of
        Inl e \<Rightarrow> VFail (errorf ''json: error calling MarshalJSON for type chainbind.Bindings: '' e)
      | Inr m \<Rightarrow> vmap VStr m)"

text \<open>
  \<^verbatim>\<open>json.Unmarshal\<close> of an object into a \<^verbatim>\<open>map[string]string\<close>: a later duplicate wins, a
  null member is the empty string, anything else that is not a string is a type error.
\<close>

fun decode_members :: "(string \<times> goval) list \<Rightarrow> (string, string) fmap option" where
  "decode_members [] = Some fmempty"
| "decode_members ((k, v) # kvs) =
     (case decode_members kvs of None \<Rightarrow> None
      | Some m \<Rightarrow>
          (case v of
             VStr s \<Rightarrow> Some (if fmlookup m k = None then fmupd k s m else m)
           | VNull \<Rightarrow> Some (if fmlookup m k = None then fmupd k [] m else m)
           | _ \<Rightarrow> None))"

definition decode_str_map :: "goval \<Rightarrow> (string, string) fmap res" where
  "decode_str_map v =
     (case v of
        VNull \<Rightarrow> Inr fmempty
      | VObj kvs \<Rightarrow>
          (case decode_members kvs of Some m \<Rightarrow> Inr m
           | None \<Rightarrow> Inl (LibErr ''json: cannot unmarshal value into Go value of type string''))
      | _ \<Rightarrow> Inl (LibErr ''json: cannot unmarshal value into Go value of type map[string]string''))"

definition lookup_or_empty :: "(string, string) fmap \<Rightarrow> string \<Rightarrow> string" where
  \<comment> \<open>Go's \<^verbatim>\<open>m[k]\<close> on a map of strings\<close>
  "lookup_or_empty m k = (case fmlookup m k of None \<Rightarrow> [] | Some v \<Rightarrow> v)"

definition bindings_UnmarshalJSON :: "goval \<Rightarrow> bindings res" where
  "bindings_UnmarshalJSON v =
     (case decode_str_map v of
        Inl e \<Rightarrow> Inl (errorf ''chainbind: unmarshal bindings: '' e)
      | Inr m \<Rightarrow> Inr \<lparr> bd_segments_root = lookup_or_empty m bindingsFieldSegmentsRoot,
                       bd_intent_commitment = lookup_or_empty m bindingsFieldIntentCommitment,
                       bd_extra = fmdrop bindingsFieldIntentCommitment
                                    (fmdrop bindingsFieldSegmentsRoot m) \<rparr>)"

section \<open>Laws of the encoders\<close>

lemma vmap_inject:
  assumes "\<And>x y. f x = f y \<Longrightarrow> x = y" and "vmap f m = vmap f n"
  shows "m = n"
proof -
  have "map (\<lambda>(k, v). (k, f v)) (entries m) = map (\<lambda>(k, v). (k, f v)) (entries n)"
    using assms(2) by (simp add: vmap_def)
  moreover have "inj (\<lambda>(k :: string, v). (k, f v))"
    using assms(1) by (auto intro!: injI)
  ultimately have "entries m = entries n"
    using inj_map_eq_map by blast
  then show ?thesis by simp
qed

lemma vlist_inject:
  assumes "\<And>x y. f x = f y \<Longrightarrow> x = y" and "vlist f xs = vlist f ys"
  shows "xs = ys"
  using assms inj_map_eq_map [of f xs ys] by (auto simp: vlist_def inj_def)

named_theorems val_defs

lemmas [val_defs] = issuer_val_def intent_val_def key_confirmation_val_def aad_context_val_def
  segment_val_def manifest_val_def

lemma val_injects [simp]:
  "issuer_val i = issuer_val i' \<longleftrightarrow> i = i'"
  "intent_val n = intent_val n' \<longleftrightarrow> n = n'"
  "key_confirmation_val k = key_confirmation_val k' \<longleftrightarrow> k = k'"
  "aad_context_val c = aad_context_val c' \<longleftrightarrow> c = c'"
  "segment_val s = segment_val s' \<longleftrightarrow> s = s'"
  by (auto simp: val_defs)

lemma vmap_val_injects [simp]:
  "vmap segment_val ms = vmap segment_val ms' \<longleftrightarrow> ms = ms'"
  "vmap key_confirmation_val ks = vmap key_confirmation_val ks' \<longleftrightarrow> ks = ks'"
  "vmap VStr ss = vmap VStr ss' \<longleftrightarrow> ss = ss'"
  "vlist VStr xs = vlist VStr xs' \<longleftrightarrow> xs = xs'"
  using vmap_inject [of segment_val ms ms'] vmap_inject [of key_confirmation_val ks ks']
    vmap_inject [of VStr ss ss'] vlist_inject [of VStr xs xs'] by auto

lemma manifest_val_inject [simp]: "manifest_val m = manifest_val m' \<longleftrightarrow> m = m'"
  by (auto simp: manifest_val_def)

lemma cnf_val_inject [simp]: "cnf_val c = cnf_val c' \<longleftrightarrow> c = c'"
proof -
  have "VNull \<noteq> vmap key_confirmation_val m" for m by (simp add: vmap_def)
  then show ?thesis by (cases c; cases c') (auto simp: cnf_val_def eq_commute [of VNull])
qed

lemma bindingsFields_neq [simp]:
  "bindingsFieldSegmentsRoot \<noteq> bindingsFieldIntentCommitment"
  "bindingsFieldIntentCommitment \<noteq> bindingsFieldSegmentsRoot"
  by (simp_all add: bindingsFieldSegmentsRoot_def bindingsFieldIntentCommitment_def)

definition no_collision :: "bindings \<Rightarrow> bool" where
  "no_collision b \<longleftrightarrow> fmlookup (bd_extra b) bindingsFieldSegmentsRoot = None
     \<and> fmlookup (bd_extra b) bindingsFieldIntentCommitment = None"

lemma bindings_MarshalJSON_ok:
  "bindings_MarshalJSON b = Inr m \<longleftrightarrow>
     no_collision b \<and>
     m = fmupd bindingsFieldIntentCommitment (bd_intent_commitment b)
           (fmupd bindingsFieldSegmentsRoot (bd_segments_root b) (bd_extra b))"
  by (auto simp: bindings_MarshalJSON_def no_collision_def)

lemma bindings_MarshalJSON_collision:
  "\<not> no_collision b \<Longrightarrow>
     \<exists>e. bindings_MarshalJSON b = Inl e \<and> err_is e ErrBindingCollision"
  by (auto simp: bindings_MarshalJSON_def no_collision_def)

lemma bindings_unflatten:
  assumes "no_collision b"
    and "m = fmupd bindingsFieldIntentCommitment (bd_intent_commitment b)
           (fmupd bindingsFieldSegmentsRoot (bd_segments_root b) (bd_extra b))"
  shows "lookup_or_empty m bindingsFieldSegmentsRoot = bd_segments_root b"
    and "lookup_or_empty m bindingsFieldIntentCommitment = bd_intent_commitment b"
    and "fmdrop bindingsFieldIntentCommitment (fmdrop bindingsFieldSegmentsRoot m) = bd_extra b"
proof -
  show "fmdrop bindingsFieldIntentCommitment (fmdrop bindingsFieldSegmentsRoot m) = bd_extra b"
    by (rule fmap_ext) (use assms in \<open>auto simp: no_collision_def\<close>)
qed (simp_all add: assms lookup_or_empty_def)

lemma bindings_MarshalJSON_inject:
  assumes "bindings_MarshalJSON b = Inr m" "bindings_MarshalJSON b' = Inr m"
  shows "b = b'"
proof -
  have "no_collision b" "no_collision b'" using assms by (simp_all add: bindings_MarshalJSON_ok)
  moreover have "m = fmupd bindingsFieldIntentCommitment (bd_intent_commitment b)
      (fmupd bindingsFieldSegmentsRoot (bd_segments_root b) (bd_extra b))"
    "m = fmupd bindingsFieldIntentCommitment (bd_intent_commitment b')
      (fmupd bindingsFieldSegmentsRoot (bd_segments_root b') (bd_extra b'))"
    using assms by (simp_all add: bindings_MarshalJSON_ok)
  ultimately show ?thesis
    using bindings_unflatten [of b m] bindings_unflatten [of b' m] by simp
qed

lemma bindings_val_inject:
  assumes "no_collision b" "no_collision b'" "bindings_val b = bindings_val b'"
  shows "b = b'"
proof -
  obtain m where m: "bindings_MarshalJSON b = Inr m"
    using assms(1) bindings_MarshalJSON_ok by blast
  obtain m' where m': "bindings_MarshalJSON b' = Inr m'"
    using assms(2) bindings_MarshalJSON_ok by blast
  from assms(3) m m' have "m = m'" by (simp add: bindings_val_def)
  with m m' show ?thesis using bindings_MarshalJSON_inject by blast
qed

lemma decode_members_strings:
  "distinct (map fst kvs) \<Longrightarrow>
     \<exists>m. decode_members (map (\<lambda>(k, v). (k, VStr v)) kvs) = Some m \<and> fmlookup m = map_of kvs"
proof (induction kvs)
  case (Cons kv kvs)
  obtain k v where kv: "kv = (k, v)" by (cases kv)
  from Cons obtain m where m: "decode_members (map (\<lambda>(k, v). (k, VStr v)) kvs) = Some m"
    "fmlookup m = map_of kvs" by auto
  moreover have "map_of kvs k = None" using Cons.prems kv by (simp add: map_of_eq_None_iff)
  ultimately show ?case by (simp add: kv fun_eq_iff)
qed (simp add: fun_eq_iff)

lemma distinct_fst_entries [simp]: "distinct (map fst (entries m))"
  by (simp add: fst_entries sorted_list_of_fset.rep_eq)

lemma decode_str_map_vmap: "decode_str_map (vmap VStr m) = Inr m"
proof -
  obtain m' where m': "decode_members (map (\<lambda>(k, v). (k, VStr v)) (entries m)) = Some m'"
    "fmlookup m' = map_of (entries m)"
    using decode_members_strings [of "entries m"] by auto
  then have "m' = m" by (simp add: fmap_ext)
  with m' show ?thesis by (simp add: decode_str_map_def vmap_def)
qed

lemma bindings_roundtrip:
  "bindings_MarshalJSON b = Inr m \<Longrightarrow> bindings_UnmarshalJSON (vmap VStr m) = Inr b"
  by (simp add: bindings_UnmarshalJSON_def decode_str_map_vmap bindings_MarshalJSON_ok
      bindings_unflatten)

lemma bindings_Unmarshal_clean:
  "bindings_UnmarshalJSON v = Inr b \<Longrightarrow> no_collision b"
  by (auto simp: bindings_UnmarshalJSON_def no_collision_def split: sum.splits)

section \<open>Strings that survive\<close>

text \<open>Plain ASCII text is valid UTF-8; so are the values built from valid strings.\<close>

definition ascii :: "string \<Rightarrow> bool" where
  "ascii s \<longleftrightarrow> list_all (\<lambda>c. of_char c < (128 :: nat)) s"

lemma ascii_utf8: "ascii s \<Longrightarrow> utf8_valid s"
  by (induction s) (simp_all add: ascii_def)

lemma ascii_append [simp]: "ascii (s @ t) \<longleftrightarrow> ascii s \<and> ascii t"
  by (simp add: ascii_def)

lemma ascii_Cons [simp]: "ascii (c # t) \<longleftrightarrow> of_char c < (128 :: nat) \<and> ascii t"
  by (simp add: ascii_def)

lemma ascii_Nil [simp]: "ascii []"
  by (simp add: ascii_def)

lemma ascii_subset: "set s \<subseteq> set t \<Longrightarrow> ascii t \<Longrightarrow> ascii s"
  by (auto simp: ascii_def list_all_iff)

lemma ascii_fixed_dec [simp]: "ascii (fixed_dec w n)"
proof (induction w arbitrary: n)
  case (Suc w)
  have "ascii [digit_char n]"
    by (rule ascii_subset [of _ "''0123456789''"]) (use digit_char_in in \<open>auto simp: ascii_def\<close>)
  with Suc show ?case by simp
qed simp

lemma ascii_time_text [simp]: "ascii (time_text t)"
proof -
  have "ascii (rev (dropWhile P (rev (fixed_dec 9 n))))" for P n
    by (rule ascii_subset [of _ "fixed_dec 9 n"]) (auto dest: set_dropWhileD)
  then show ?thesis
    by (simp add: time_text_def fraction_text_def zone_text_def Let_def)
qed

lemma ascii_hex_encode [simp]: "ascii (hex_encode b)"
proof -
  have "ascii (hex_byte x)" for x
  proof (rule ascii_subset [of _ hex_digits])
    show "set (hex_byte x) \<subseteq> set hex_digits"
      using byte_div_bounds [of x] by (auto simp: hex_byte_def length_hex_digits)
  qed (simp add: hex_digits_def)
  then show ?thesis by (induction b) (simp_all add: hex_encode_def)
qed

lemma ascii_H [simp]: "ascii (H P b)"
  by (simp add: H_def)

lemma utf8_H [simp]: "utf8_valid (H P b)"
  by (simp add: ascii_utf8)

lemma wf_vmap:
  "(\<And>k v. fmlookup m k = Some v \<Longrightarrow> utf8_valid k \<and> wf_val (f v)) \<Longrightarrow> wf_val (vmap f m)"
proof -
  assume val: "\<And>k v. fmlookup m k = Some v \<Longrightarrow> utf8_valid k \<and> wf_val (f v)"
  have "fmlookup m k = Some v" if "(k, v) \<in> set (entries m)" for k v
    using that map_of_is_SomeI [of "entries m" k v] by simp
  then have "utf8_valid k \<and> wf_val (f v)" if "(k, v) \<in> set (entries m)" for k v
    using that val by blast
  then show ?thesis by (fastforce simp: vmap_def)
qed


text \<open>Bindings survive their flattened form exactly when no profile binding takes a core name.\<close>

lemma bindings_json_roundtrip:
  "(bindings_UnmarshalJSON (bindings_val b) = Inr b \<longleftrightarrow> no_collision b) \<and>
   (no_collision b \<or> (\<exists>e. bindings_MarshalJSON b = Inl e \<and> err_is e ErrBindingCollision))"
proof (cases "bindings_MarshalJSON b")
  case (Inl e)
  then have "\<not> no_collision b" using bindings_MarshalJSON_ok [of b] by auto
  with Inl bindings_MarshalJSON_collision [of b] show ?thesis
    by (simp add: bindings_val_def bindings_UnmarshalJSON_def decode_str_map_def)
next
  case (Inr m)
  then have "no_collision b" by (simp add: bindings_MarshalJSON_ok)
  with Inr bindings_roundtrip [OF Inr] show ?thesis by (simp add: bindings_val_def)
qed

end
