(* ===== verification/Segment_Crypto.thy ===== *)
theory Segment_Crypto
  imports Package_Format
begin

text \<open>
  \<^verbatim>\<open>pkg/chainbind/aad.go\<close> and \<^verbatim>\<open>crypto.go\<close>: the additional authenticated data of a segment,
  fresh data-encryption keys, and AES-256-GCM with one opaque failure.
\<close>

section \<open>Additional authenticated data\<close>

definition aad_input_val :: "aad_context \<Rightarrow> string \<Rightarrow> string \<Rightarrow> goval" where
  "aad_input_val ctx seg specVersion =
     VObj [(''package_id'', VStr (ac_package_id ctx)), (''segment'', VStr seg),
           (''spec_version'', VStr specVersion), (''tenant_id'', VStr (ac_tenant_id ctx)),
           (''environment'', VStr (ac_environment ctx))]"

definition AAD :: "prims \<Rightarrow> aad_context \<Rightarrow> string \<Rightarrow> string \<Rightarrow> bytes res" where
  "AAD P ctx seg specVersion =
     (case JCS P (aad_input_val ctx seg specVersion) of
        Inl e \<Rightarrow> Inl (errorf ''chainbind: aad: '' e)
      | Inr canon \<Rightarrow> Inr canon)"

lemma aad_input_inject:
  "aad_input_val ctx a v = aad_input_val ctx' a' v' \<longleftrightarrow> ctx = ctx' \<and> a = a' \<and> v = v'"
  by (auto simp: aad_input_val_def)

lemma AAD_inject:
  assumes "AAD P ctx a v = Inr d" "AAD P ctx' a' v' = Inr d"
  shows "(ctx = ctx' \<and> a = a' \<and> v = v')
    \<or> jcs_collision P (aad_input_val ctx a v) (aad_input_val ctx' a' v')"
proof -
  have "JCS P (aad_input_val ctx a v) = Inr d" "JCS P (aad_input_val ctx' a' v') = Inr d"
    using assms by (simp_all add: AAD_def split: sum.splits)
  from JCS_inject [OF this] show ?thesis by (simp add: aad_input_inject)
qed

section \<open>Keys and AES-256-GCM\<close>

definition dekSize :: nat where
  "dekSize = 32"

definition nonceSize :: nat where
  "nonceSize = 12"

text \<open>\<^verbatim>\<open>aes.NewCipher\<close> accepts the three AES key sizes.\<close>

definition aes_NewCipher :: "bytes \<Rightarrow> bytes res" where
  "aes_NewCipher key =
     (if length key = 16 \<or> length key = 24 \<or> length key = 32 then Inr key
      else Inl (LibErr ''crypto/aes: invalid key size''))"

text \<open>The AEAD is its key: \<^verbatim>\<open>cipher.NewGCM\<close> over a 128-bit block cipher does not fail.\<close>

definition newGCM :: "bytes \<Rightarrow> bytes res" where
  "newGCM dek =
     (if length dek \<noteq> dekSize then Inl (Sentinel ErrDecryptionFailed)
      else case aes_NewCipher dek of
             Inl e \<Rightarrow> Inl (Sentinel ErrDecryptionFailed)
           | Inr block \<Rightarrow> Inr block)"

definition NewDEK :: "world \<Rightarrow> bytes res \<times> world" where
  "NewDEK w =
     (case rand_read dekSize w of
        (Inl e, w') \<Rightarrow> (Inl (errorf ''chainbind: generate dek: '' e), w')
      | (Inr dek, w') \<Rightarrow> (Inr dek, w'))"

definition Encrypt :: "prims \<Rightarrow> bytes \<Rightarrow> bytes \<Rightarrow> bytes \<Rightarrow> world \<Rightarrow> (bytes \<times> bytes) res \<times> world" where
  "Encrypt P dek plaintext aad w =
     (case newGCM dek of
        Inl e \<Rightarrow> (Inl e, w)
      | Inr gcm \<Rightarrow>
          (case rand_read nonceSize w of
             (Inl e, w') \<Rightarrow> (Inl (errorf ''chainbind: generate nonce: '' e), w')
           | (Inr nonce, w') \<Rightarrow>
               (Inr (gcm_seal P gcm nonce plaintext aad, nonce), emit (EvEncrypt gcm nonce aad) w')))"

text \<open>
  \<^verbatim>\<open>gcm.Open(nil, \<dots>)\<close> appends the plaintext to a nil slice: an empty plaintext comes back
  as nil.
\<close>

definition append_nil :: "bytes \<Rightarrow> gobytes" where
  "append_nil b = (if b = [] then None else Some b)"

definition Decrypt :: "prims \<Rightarrow> bytes \<Rightarrow> bytes \<Rightarrow> bytes \<Rightarrow> bytes \<Rightarrow> gobytes res" where
  "Decrypt P dek nonce ciphertext aad =
     (case newGCM dek of
        Inl e \<Rightarrow> Inl e
      | Inr gcm \<Rightarrow>
          if length nonce \<noteq> nonceSize then Inl (Sentinel ErrDecryptionFailed)
          else case gcm_open P gcm nonce ciphertext aad of
                 None \<Rightarrow> Inl (Sentinel ErrDecryptionFailed)
               | Some plaintext \<Rightarrow> Inr (append_nil plaintext))"

definition zero :: "bytes \<Rightarrow> bytes" where
  "zero b = replicate (length b) 0"

lemma newGCM_cases: "newGCM dek = (if length dek = 32 then Inr dek else Inl (Sentinel ErrDecryptionFailed))"
  by (simp add: newGCM_def aes_NewCipher_def dekSize_def)

lemma raw_append_nil [simp]: "raw_bytes (append_nil b) = b"
  by (simp add: append_nil_def)

text \<open>Every failure to decrypt is the one sentinel.\<close>

lemma Decrypt_error: "Decrypt P dek nonce ct aad = Inl e \<Longrightarrow> e = Sentinel ErrDecryptionFailed"
  by (auto simp: Decrypt_def newGCM_cases split: if_splits option.splits)

lemma Decrypt_Inr:
  "Decrypt P dek nonce ct aad = Inr g \<longleftrightarrow>
     length dek = 32 \<and> length nonce = 12 \<and>
     (\<exists>p. gcm_open P dek nonce ct aad = Some p \<and> g = append_nil p)"
  by (auto simp: Decrypt_def newGCM_cases nonceSize_def split: option.splits)

lemma Encrypt_Inr:
  "Encrypt P dek pt aad w = (Inr (ct, nonce), w') \<Longrightarrow>
     length dek = 32 \<and> length nonce = 12 \<and> ct = gcm_seal P dek nonce pt aad
     \<and> advances w w' [EvRand nonce, EvEncrypt dek nonce aad]"
proof -
  assume enc: "Encrypt P dek pt aad w = (Inr (ct, nonce), w')"
  then have len: "length dek = 32"
    by (auto simp: Encrypt_def newGCM_cases split: if_splits)
  with enc obtain v where v: "rand_read nonceSize w = (Inr nonce, v)"
    "w' = emit (EvEncrypt dek nonce aad) v" "ct = gcm_seal P dek nonce pt aad"
    by (auto simp: Encrypt_def newGCM_cases split: prod.splits sum.splits)
  with advances_rand [OF v(1)] len show ?thesis
    using advances_emit [of w v "[EvRand nonce]" "EvEncrypt dek nonce aad"]
    by (simp add: nonceSize_def)
qed

lemma Encrypt_Decrypt:
  assumes "gcm_ok P" "Encrypt P dek pt aad w = (Inr (ct, nonce), w')"
  shows "Decrypt P dek nonce ct aad = Inr (append_nil pt)"
  using Encrypt_Inr [OF assms(2)] assms(1) by (auto simp: Decrypt_Inr gcm_ok_def)

lemma NewDEK_Inr: "NewDEK w = (Inr dek, w') \<Longrightarrow> length dek = 32 \<and> advances w w' [EvRand dek]"
  using advances_rand [of dekSize w dek w']
  by (auto simp: NewDEK_def dekSize_def split: prod.splits sum.splits)

text \<open>What was encrypted decrypts, under a key and a nonce of the right size.\<close>

theorem encrypt_then_decrypt:
  assumes "gcm_ok P" "Encrypt P dek pt aad w = (Inr (ct, nonce), w')"
  shows "Decrypt P dek nonce ct aad = Inr (append_nil pt) \<and> length dek = 32 \<and> length nonce = 12 \<and>
    advances w w' [EvRand nonce, EvEncrypt dek nonce aad]"
  using Encrypt_Decrypt [OF assms] Encrypt_Inr [OF assms(2)] by blast

end
