(* ===== verification/Bindings_Engine.thy ===== *)
theory Bindings_Engine
  imports Segment_Crypto
begin

text \<open>
  \<^verbatim>\<open>pkg/chainbind/bindings.go\<close>: the two core commitments, \<open>SegmentsRoot\<close> over the ordered
  plaintext hashes and \<open>IntentCommitment\<close> over the authorization and the root, and the
  engine that computes a profile's own bindings. Each commitment is shown to determine its
  inputs up to an explicit collision.
\<close>

section \<open>segments_root\<close>

definition segment_root_entry_val :: "string \<times> string \<Rightarrow> goval" where
  "segment_root_entry_val e = VObj [(''audience'', VStr (fst e)), (''plain_hash'', VStr (snd e))]"

text \<open>
  The first loop: collect one entry per audience of the order, refusing a repeated audience
  and one without a hash. \<open>seen\<close> are the audiences met so far.
\<close>

fun root_entries :: "(string, string) fmap \<Rightarrow> string list \<Rightarrow> string list \<Rightarrow> (string \<times> string) list res" where
  "root_entries plainHash seen [] = Inr []"
| "root_entries plainHash seen (a # as) =
     (if a \<in> set seen
      then Inl (Wrapped '''' (Sentinel ErrMalformedPackage)
                  ('': audience '' @ go_quote a @ '' listed twice in segment_order''))
      else case fmlookup plainHash a of
             None \<Rightarrow> Inl (Wrapped '''' (Sentinel ErrMalformedPackage)
                            ('': missing plain_hash for audience '' @ go_quote a))
           | Some ph \<Rightarrow>
               (case root_entries plainHash (a # seen) as of
                  Inl e \<Rightarrow> Inl e
                | Inr es \<Rightarrow> Inr ((a, ph) # es)))"

text \<open>
  The second loop refuses a hash whose audience is not in the order. Go ranges over the map
  in an unspecified order, which only decides the audience the message names; the model
  takes the first in key order.
\<close>

definition SegmentsRoot :: "prims \<Rightarrow> string list \<Rightarrow> (string, string) fmap \<Rightarrow> string res" where
  "SegmentsRoot P segmentOrder plainHash =
     (case root_entries plainHash [] segmentOrder of
        Inl e \<Rightarrow> Inl e
      | Inr es \<Rightarrow>
          (case filter (\<lambda>a. a \<notin> set segmentOrder) (map fst (entries plainHash)) of
             a # _ \<Rightarrow> Inl (Wrapped '''' (Sentinel ErrMalformedPackage)
               ('': audience '' @ go_quote a @ '' has a plain_hash but is absent from segment_order''))
           | [] \<Rightarrow>
               (case JCS P (vlist segment_root_entry_val es) of
                  Inl e \<Rightarrow> Inl (errorf ''chainbind: segments root: '' e)
                | Inr canon \<Rightarrow> Inr (H P canon))))"

text \<open>The list the root hashes, as a function of its inputs.\<close>

definition root_val :: "string list \<Rightarrow> (string, string) fmap \<Rightarrow> goval" where
  "root_val segmentOrder plainHash =
     vlist segment_root_entry_val (map (\<lambda>a. (a, lookup_or_empty plainHash a)) segmentOrder)"

lemma root_entries_complete:
  "distinct as \<Longrightarrow> set as \<inter> set seen = {} \<Longrightarrow> set as \<subseteq> fset (fmdom ph) \<Longrightarrow>
     root_entries ph seen as = Inr (map (\<lambda>a. (a, lookup_or_empty ph a)) as)"
  by (induction as arbitrary: seen) (auto simp: fmdom_iff lookup_or_empty_def)

lemma root_entries_sound:
  "root_entries ph seen as = Inr es \<Longrightarrow>
     distinct as \<and> set as \<inter> set seen = {} \<and> set as \<subseteq> fset (fmdom ph)"
  by (induction as arbitrary: seen es)
    (fastforce simp: fmdom_iff split: if_splits option.splits sum.splits)+

lemma root_entries_Inr:
  "root_entries ph seen as = Inr es \<longleftrightarrow>
     distinct as \<and> set as \<inter> set seen = {} \<and> set as \<subseteq> fset (fmdom ph) \<and>
     es = map (\<lambda>a. (a, lookup_or_empty ph a)) as"
  using root_entries_complete [of as seen ph] root_entries_sound [of ph seen as es] by auto

lemma root_entries_Inl: "root_entries ph seen as = Inl e \<Longrightarrow> err_is e ErrMalformedPackage"
  by (induction as arbitrary: seen) (auto split: if_splits option.splits sum.splits)

lemma filter_outside:
  "filter (\<lambda>a. a \<notin> set order) (map fst (entries m)) = [] \<longleftrightarrow> fset (fmdom m) \<subseteq> set order"
proof -
  have "filter (\<lambda>a. a \<notin> set order) (map fst (entries m)) = [] \<longleftrightarrow>
    (\<forall>a \<in> fst ` set (entries m). a \<in> set order)"
    by (auto simp: filter_empty_conv)
  then show ?thesis by auto
qed

lemma SegmentsRoot_Inr:
  "SegmentsRoot P order ph = Inr r \<longleftrightarrow>
     distinct order \<and> set order = fset (fmdom ph) \<and>
     (\<exists>c. JCS P (root_val order ph) = Inr c \<and> r = H P c)"
proof (cases "root_entries ph [] order")
  case (Inl e)
  then have "\<not> (distinct order \<and> set order \<subseteq> fset (fmdom ph))"
    using root_entries_Inr [of ph "[]" order] by auto
  with Inl show ?thesis by (auto simp: SegmentsRoot_def)
next
  case (Inr es)
  then have es: "distinct order" "set order \<subseteq> fset (fmdom ph)"
    "es = map (\<lambda>a. (a, lookup_or_empty ph a)) order"
    by (auto simp: root_entries_Inr)
  show ?thesis
  proof (cases "filter (\<lambda>a. a \<notin> set order) (map fst (entries ph))")
    case Nil
    with es have "set order = fset (fmdom ph)" using filter_outside [of order ph] by auto
    with Nil es Inr show ?thesis
      by (auto simp: SegmentsRoot_def root_val_def split: sum.splits)
  next
    case (Cons a as)
    then have "set order \<noteq> fset (fmdom ph)" using filter_outside [of order ph] by auto
    with Cons Inr show ?thesis by (auto simp: SegmentsRoot_def)
  qed
qed

text \<open>
  Input that does not describe the same audiences on both sides is malformed; that is the
  only error besides a failing canonicalization.
\<close>

lemma SegmentsRoot_malformed:
  assumes "\<not> (distinct order \<and> set order = fset (fmdom ph))"
  shows "\<exists>e. SegmentsRoot P order ph = Inl e \<and> err_is e ErrMalformedPackage"
proof (cases "root_entries ph [] order")
  case (Inl e)
  with root_entries_Inl [OF this] show ?thesis by (simp add: SegmentsRoot_def)
next
  case (Inr es)
  then have "distinct order" "set order \<subseteq> fset (fmdom ph)" by (auto simp: root_entries_Inr)
  with assms have "filter (\<lambda>a. a \<notin> set order) (map fst (entries ph)) \<noteq> []"
    by (auto simp only: filter_outside)
  with Inr show ?thesis by (auto simp: SegmentsRoot_def split: list.splits)
qed

lemma segment_root_entry_inject [simp]:
  "segment_root_entry_val e = segment_root_entry_val e' \<longleftrightarrow> e = e'"
  by (auto simp: segment_root_entry_val_def prod_eq_iff)

lemma lookup_eq_on_dom:
  assumes "fset (fmdom m) = fset (fmdom n)"
    and "\<And>k. k \<in> fset (fmdom m) \<Longrightarrow> lookup_or_empty m k = lookup_or_empty n k"
  shows "m = n"
proof (rule fmap_ext)
  fix k
  show "fmlookup m k = fmlookup n k"
  proof (cases "k \<in> fset (fmdom m)")
    case True
    with assms have "fmlookup m k \<noteq> None" "fmlookup n k \<noteq> None" by (auto simp: fmdom_iff)
    with assms(2) [OF True] show ?thesis by (auto simp: lookup_or_empty_def)
  next
    case False
    with assms(1) have "k \<notin> fset (fmdom n)" by simp
    with False show ?thesis unfolding fmdom_iff by simp
  qed
qed

lemma SegmentsRoot_inject:
  assumes "SegmentsRoot P order ph = Inr r" "SegmentsRoot P order' ph' = Inr r"
  shows "(order = order' \<and> ph = ph') \<or> digest_collision P (root_val order ph) (root_val order' ph')"
proof -
  from assms obtain c c' where
    c: "set order = fset (fmdom ph)" "JCS P (root_val order ph) = Inr c" "r = H P c" and
    c': "set order' = fset (fmdom ph')" "JCS P (root_val order' ph') = Inr c'" "r = H P c'"
    by (auto simp: SegmentsRoot_Inr)
  have "order = order' \<and> ph = ph'" if "root_val order ph = root_val order' ph'"
  proof -
    from that have eq: "map (\<lambda>a. (a, lookup_or_empty ph a)) order =
        map (\<lambda>a. (a, lookup_or_empty ph' a)) order'"
      unfolding root_val_def by (rule vlist_inject [rotated]) simp
    then have "map fst (map (\<lambda>a. (a, lookup_or_empty ph a)) order) =
        map fst (map (\<lambda>a. (a, lookup_or_empty ph' a)) order')"
      by (rule arg_cong)
    then have "order = order'" by (simp add: comp_def)
    moreover from eq this have "\<forall>a \<in> set order. lookup_or_empty ph a = lookup_or_empty ph' a"
      by simp
    moreover have "ph = ph'"
      by (rule lookup_eq_on_dom) (use c(1) c'(1) calculation in auto)
    ultimately show ?thesis by simp
  qed
  moreover have "root_val order ph = root_val order' ph'
      \<or> digest_collision P (root_val order ph) (root_val order' ph')"
    using c(3) c'(3) by (intro digest_inject [OF c(2) c'(2)]) simp
  ultimately show ?thesis by blast
qed

section \<open>intent_commitment\<close>

definition intent_commitment_val :: "string \<Rightarrow> string \<Rightarrow> string \<Rightarrow> goval" where
  "intent_commitment_val intentRef constraintsHash segmentsRoot =
     VObj [(''intent_ref'', VStr intentRef), (''constraints_hash'', VStr constraintsHash),
           (''segments_root'', VStr segmentsRoot)]"

definition IntentCommitment :: "prims \<Rightarrow> string \<Rightarrow> string \<Rightarrow> string \<Rightarrow> string res" where
  "IntentCommitment P intentRef constraintsHash segmentsRoot =
     (case JCS P (intent_commitment_val intentRef constraintsHash segmentsRoot) of
        Inl e \<Rightarrow> Inl (errorf ''chainbind: intent commitment: '' e)
      | Inr canon \<Rightarrow> Inr (''ctx:'' @ H P canon))"

lemma IntentCommitment_inject:
  assumes "IntentCommitment P r c s = Inr x" "IntentCommitment P r' c' s' = Inr x"
  shows "(r = r' \<and> c = c' \<and> s = s')
    \<or> digest_collision P (intent_commitment_val r c s) (intent_commitment_val r' c' s')"
proof -
  from assms obtain d d' where
    "JCS P (intent_commitment_val r c s) = Inr d" "JCS P (intent_commitment_val r' c' s') = Inr d'"
    "H P d = H P d'"
    by (auto simp: IntentCommitment_def split: sum.splits)
  from digest_inject [OF this] show ?thesis by (simp add: intent_commitment_val_def)
qed

lemma IntentCommitment_prefix:
  "IntentCommitment P r c s = Inr x \<Longrightarrow> take 11 x = ''ctx:sha256:''"
  by (auto simp: IntentCommitment_def H_def split: sum.splits)

section \<open>Profile bindings\<close>

record binding_context =
  bc_plain_hash :: "(string, string) fmap"
  bc_intent_ref :: string
  bc_constraints_hash :: string
  bc_segments_root :: string

record binding_spec =
  bs_name :: string
  bs_compute :: "binding_context \<Rightarrow> string res"

fun compute_loop :: "binding_context \<Rightarrow> binding_spec list \<Rightarrow> (string, string) fmap \<Rightarrow> (string, string) fmap res" where
  "compute_loop ctx [] out = Inr out"
| "compute_loop ctx (spec # specs) out =
     (case bs_compute spec ctx of
        Inl e \<Rightarrow> Inl (errorf (''chainbind: compute binding '' @ go_quote (bs_name spec) @ '': '') e)
      | Inr v \<Rightarrow> compute_loop ctx specs (fmupd (bs_name spec) v out))"

definition ComputeBindings :: "binding_context \<Rightarrow> binding_spec list \<Rightarrow> (string, string) fmap res" where
  "ComputeBindings ctx specs =
     (if specs = [] then Inr fmempty else compute_loop ctx specs fmempty)"

lemma ComputeBindings_loop: "ComputeBindings ctx specs = compute_loop ctx specs fmempty"
  by (simp add: ComputeBindings_def)

lemma compute_loop_lookup:
  assumes "compute_loop ctx specs out = Inr m" "distinct (map bs_name specs)"
  shows "fmlookup m n =
    (case find (\<lambda>s. bs_name s = n) specs of
       None \<Rightarrow> fmlookup out n | Some s \<Rightarrow> Some (projr (bs_compute s ctx)))"
  using assms
proof (induction specs arbitrary: out)
  case (Cons s ss)
  from Cons.prems obtain v where v: "bs_compute s ctx = Inr v"
    "compute_loop ctx ss (fmupd (bs_name s) v out) = Inr m"
    by (auto split: sum.splits)
  have "find (\<lambda>s'. bs_name s' = bs_name s) ss = None"
    using Cons.prems(2) by (force simp: find_None_iff intro: image_eqI [OF sym])
  with Cons.IH [OF v(2)] Cons.prems(2) v(1) show ?case by (auto split: option.splits)
qed simp

lemma compute_loop_ok:
  "(\<exists>m. compute_loop ctx specs out = Inr m) \<longleftrightarrow>
     (\<forall>s \<in> set specs. \<exists>v. bs_compute s ctx = Inr v)"
  by (induction specs arbitrary: out) (auto split: sum.splits)

lemma ComputeBindings_spec:
  assumes "ComputeBindings ctx specs = Inr m" "distinct (map bs_name specs)" "s \<in> set specs"
  shows "bs_compute s ctx = Inr (lookup_or_empty m (bs_name s))"
proof -
  have "find (\<lambda>s'. bs_name s' = bs_name s) specs = Some s"
    using assms(2,3) by (induction specs) (auto simp: rev_image_eqI)
  moreover obtain v where "bs_compute s ctx = Inr v"
    using assms compute_loop_ok [of ctx specs fmempty] by (auto simp: ComputeBindings_loop)
  ultimately show ?thesis
    using compute_loop_lookup [of ctx specs fmempty m "bs_name s"] assms(1,2)
    by (simp add: ComputeBindings_loop lookup_or_empty_def)
qed

lemma ComputeBindings_other:
  assumes "ComputeBindings ctx specs = Inr m" "n \<notin> bs_name ` set specs"
  shows "fmlookup m n = None"
proof -
  have "fmlookup m n = fmlookup out n" if "compute_loop ctx specs out = Inr m" for out
    using that assms(2) by (induction specs arbitrary: out) (auto split: sum.splits)
  with assms(1) show ?thesis by (auto simp: ComputeBindings_loop)
qed

text \<open>The root exists exactly for an order that lists the hashed audiences once each.\<close>

theorem segments_root_domain:
  "if distinct order \<and> set order = fset (fmdom ph)
   then (\<forall>r. SegmentsRoot P order ph = Inr r \<longleftrightarrow> (\<exists>c. JCS P (root_val order ph) = Inr c \<and> r = H P c))
   else (\<exists>e. SegmentsRoot P order ph = Inl e \<and> err_is e ErrMalformedPackage)"
  using SegmentsRoot_Inr [of P order ph] SegmentsRoot_malformed [of order ph P] by simp

end
