(* ===== verification/Signing_View.thy ===== *)
theory Signing_View
  imports Bindings_Engine
begin

text \<open>
  \<^verbatim>\<open>pkg/chainbind/signview.go\<close>: the canonical view the issuer signs, its reconstruction from
  the names a package lists, and the encoding of the signature value. The view is shown to
  depend on the set of names only, and to determine all nine signed fields.
\<close>

definition RequiredSignedFields :: "string list" where
  "RequiredSignedFields =
     [''spec_version'', ''profile'', ''package_id'', ''issued_at'',
      ''issuer'', ''intent'', ''cnf'', ''bindings'', ''manifest'']"

definition signingViewFields :: "package \<Rightarrow> (string, goval) fmap" where
  "signingViewFields p =
     fmap_of_list
       [(''spec_version'', VStr (pk_spec_version p)),
        (''profile'', VStr (pk_profile p)),
        (''package_id'', VStr (pk_package_id p)),
        (''issued_at'', time_val (pk_issued_at p)),
        (''issuer'', issuer_val (pk_issuer p)),
        (''intent'', intent_val (pk_intent p)),
        (''cnf'', cnf_val (pk_cnf p)),
        (''bindings'', bindings_val (pk_bindings p)),
        (''manifest'', manifest_val (pk_manifest p))]"

text \<open>A name the map does not have reads as a nil value.\<close>

fun select_loop :: "(string, goval) fmap \<Rightarrow> string list \<Rightarrow> (string, goval) fmap \<Rightarrow> (string, goval) fmap" where
  "select_loop flds [] out = out"
| "select_loop flds (n # ns) out =
     select_loop flds ns
       (fmupd n (case fmlookup flds n of None \<Rightarrow> VNull | Some v \<Rightarrow> v) out)"

definition selectFields :: "(string, goval) fmap \<Rightarrow> string list \<Rightarrow> (string, goval) fmap" where
  "selectFields flds names = select_loop flds names fmempty"

definition BuildSigningView :: "prims \<Rightarrow> package \<Rightarrow> bytes res" where
  "BuildSigningView P p =
     (case JCS P (vmap (\<lambda>v. v) (selectFields (signingViewFields p) RequiredSignedFields)) of
        Inl e \<Rightarrow> Inl (errorf ''chainbind: signing view: '' e)
      | Inr canon \<Rightarrow> Inr canon)"

fun check_names :: "string list \<Rightarrow> string list \<Rightarrow> unit res" where
  "check_names seen [] = Inr ()"
| "check_names seen (n # ns) =
     (if n \<notin> set RequiredSignedFields
      then Inl (Wrapped '''' (Sentinel ErrMalformedPackage)
                  ('': signed_fields contains unrecognised name '' @ go_quote n))
      else if n \<in> set seen
      then Inl (Wrapped '''' (Sentinel ErrMalformedPackage)
                  ('': signed_fields lists '' @ go_quote n @ '' more than once''))
      else check_names (n # seen) ns)"

definition checkSignedFields :: "string list \<Rightarrow> unit res" where
  "checkSignedFields names =
     (if length names \<noteq> length RequiredSignedFields
      then Inl (Wrapped '''' (Sentinel ErrMalformedPackage)
                  ('': signed_fields has '' @ dec_nat (length names) @ '' names, want ''
                     @ dec_nat (length RequiredSignedFields)))
      else check_names [] names)"

definition ReconstructSigningView :: "prims \<Rightarrow> package \<Rightarrow> bytes res" where
  "ReconstructSigningView P p =
     (case checkSignedFields (sn_signed_fields (pk_signature p)) of
        Inl e \<Rightarrow> Inl e
      | Inr _ \<Rightarrow>
          (case JCS P (vmap (\<lambda>v. v)
                   (selectFields (signingViewFields p) (sn_signed_fields (pk_signature p)))) of
             Inl e \<Rightarrow> Inl (errorf ''chainbind: signing view: '' e)
           | Inr canon \<Rightarrow> Inr canon))"

definition EncodeSignatureValue :: "bytes \<Rightarrow> string" where
  "EncodeSignatureValue sig = raw_url_encode sig"

definition DecodeSignatureValue :: "string \<Rightarrow> bytes res" where
  "DecodeSignatureValue s =
     (case raw_url_decode s of
        None \<Rightarrow> Inl (errorf ''chainbind: decode signature value: '' (LibErr ''illegal base64 data''))
      | Some sig \<Rightarrow> Inr sig)"

section \<open>Which names a view may list\<close>

lemma check_names_Inr:
  "check_names seen ns = Inr () \<longleftrightarrow>
     distinct ns \<and> set ns \<subseteq> set RequiredSignedFields \<and> set ns \<inter> set seen = {}"
  by (induction ns arbitrary: seen) auto

lemma check_names_Inl: "check_names seen ns = Inl e \<Longrightarrow> err_is e ErrMalformedPackage"
  by (induction ns arbitrary: seen) (auto split: if_splits)

lemma distinct_required: "distinct RequiredSignedFields" and length_required: "length RequiredSignedFields = 9"
  by (simp_all add: RequiredSignedFields_def)

lemma checkSignedFields_Inr:
  "checkSignedFields ns = Inr () \<longleftrightarrow> distinct ns \<and> set ns = set RequiredSignedFields"
proof
  assume "checkSignedFields ns = Inr ()"
  then have ns: "length ns = length RequiredSignedFields" "distinct ns"
    "set ns \<subseteq> set RequiredSignedFields"
    by (auto simp: checkSignedFields_def check_names_Inr split: if_splits)
  then have "card (set ns) = card (set RequiredSignedFields)"
    by (simp add: distinct_card distinct_required)
  with ns show "distinct ns \<and> set ns = set RequiredSignedFields"
    by (simp add: card_subset_eq)
next
  assume ns: "distinct ns \<and> set ns = set RequiredSignedFields"
  then have "length ns = length RequiredSignedFields"
    by (metis distinct_card distinct_required)
  with ns show "checkSignedFields ns = Inr ()"
    by (simp add: checkSignedFields_def check_names_Inr)
qed

lemma checkSignedFields_Inl: "checkSignedFields ns = Inl e \<Longrightarrow> err_is e ErrMalformedPackage"
  using check_names_Inl by (auto simp: checkSignedFields_def split: if_splits)

lemma checkSignedFields_required: "checkSignedFields RequiredSignedFields = Inr ()"
  by (simp add: checkSignedFields_Inr distinct_required)

section \<open>The selection\<close>

lemma select_loop_lookup:
  "fmlookup (select_loop flds ns out) k =
     (if k \<in> set ns then Some (case fmlookup flds k of None \<Rightarrow> VNull | Some v \<Rightarrow> v)
      else fmlookup out k)"
  by (induction ns arbitrary: out) auto

lemma selectFields_lookup:
  "fmlookup (selectFields flds ns) k =
     (if k \<in> set ns then Some (case fmlookup flds k of None \<Rightarrow> VNull | Some v \<Rightarrow> v) else None)"
  by (simp add: selectFields_def select_loop_lookup)

lemma selectFields_set: "set ns = set ms \<Longrightarrow> selectFields flds ns = selectFields flds ms"
  by (rule fmap_ext) (simp add: selectFields_lookup)

text \<open>The order the names are listed in is irrelevant to the reconstructed bytes.\<close>

lemma Reconstruct_Build:
  assumes "checkSignedFields (sn_signed_fields (pk_signature p)) = Inr ()"
  shows "ReconstructSigningView P p = BuildSigningView P p"
proof -
  have "set (sn_signed_fields (pk_signature p)) = set RequiredSignedFields"
    using assms by (simp add: checkSignedFields_Inr)
  from selectFields_set [OF this] assms show ?thesis
    by (simp add: ReconstructSigningView_def BuildSigningView_def)
qed

definition view_val :: "package \<Rightarrow> goval" where
  "view_val p = vmap (\<lambda>v. v) (selectFields (signingViewFields p) RequiredSignedFields)"

lemma BuildSigningView_Inr: "BuildSigningView P p = Inr c \<longleftrightarrow> JCS P (view_val p) = Inr c"
  by (auto simp: BuildSigningView_def view_val_def split: sum.splits)

lemma signingViewFields_lookup [simp]:
  "fmlookup (signingViewFields p) ''spec_version'' = Some (VStr (pk_spec_version p))"
  "fmlookup (signingViewFields p) ''profile'' = Some (VStr (pk_profile p))"
  "fmlookup (signingViewFields p) ''package_id'' = Some (VStr (pk_package_id p))"
  "fmlookup (signingViewFields p) ''issued_at'' = Some (time_val (pk_issued_at p))"
  "fmlookup (signingViewFields p) ''issuer'' = Some (issuer_val (pk_issuer p))"
  "fmlookup (signingViewFields p) ''intent'' = Some (intent_val (pk_intent p))"
  "fmlookup (signingViewFields p) ''cnf'' = Some (cnf_val (pk_cnf p))"
  "fmlookup (signingViewFields p) ''bindings'' = Some (bindings_val (pk_bindings p))"
  "fmlookup (signingViewFields p) ''manifest'' = Some (manifest_val (pk_manifest p))"
  by (simp_all add: signingViewFields_def)

lemma view_val_fields:
  assumes "view_val p = view_val q" "n \<in> set RequiredSignedFields"
  shows "fmlookup (signingViewFields p) n = fmlookup (signingViewFields q) n"
proof -
  have "selectFields (signingViewFields p) RequiredSignedFields
      = selectFields (signingViewFields q) RequiredSignedFields"
    using assms(1) unfolding view_val_def by (rule vmap_inject [rotated])
  then have "fmlookup (selectFields (signingViewFields p) RequiredSignedFields) n
      = fmlookup (selectFields (signingViewFields q) RequiredSignedFields) n" by simp
  with assms(2) show ?thesis
    by (auto simp: selectFields_lookup RequiredSignedFields_def)
qed

text \<open>
  What the signature covers: two packages agree on everything the nine fields say. The
  timestamp is compared by the text it is written as.
\<close>

definition same_signed_content :: "package \<Rightarrow> package \<Rightarrow> bool" where
  "same_signed_content p q \<longleftrightarrow>
     pk_spec_version p = pk_spec_version q \<and> pk_profile p = pk_profile q \<and>
     pk_package_id p = pk_package_id q \<and> time_text (pk_issued_at p) = time_text (pk_issued_at q) \<and>
     pk_issuer p = pk_issuer q \<and> pk_intent p = pk_intent q \<and> pk_cnf p = pk_cnf q \<and>
     pk_bindings p = pk_bindings q \<and> pk_manifest p = pk_manifest q"

text \<open>A view that marshals has no failing member: no binding collision, a writable time.\<close>

lemma first_fail_members_mem:
  "first_fail_members kvs = None \<Longrightarrow> (k, v) \<in> set kvs \<Longrightarrow> first_fail v = None"
  by (induction kvs) (auto split: option.splits)

lemma view_val_no_fail:
  assumes "JCS P (view_val p) = Inr c" "n \<in> set RequiredSignedFields"
    "fmlookup (signingViewFields p) n = Some v"
  shows "first_fail v = None"
proof -
  have "first_fail (view_val p) = None"
    using assms(1) by (auto simp: JCS_def marshal_def split: sum.splits option.splits)
  moreover have "(n, v) \<in> set (entries (selectFields (signingViewFields p) RequiredSignedFields))"
    using assms(2,3) by (intro map_of_SomeD) (simp add: selectFields_lookup)
  ultimately show ?thesis
    using first_fail_members_mem [of "entries (selectFields (signingViewFields p) RequiredSignedFields)" n v]
    by (simp add: view_val_def vmap_def)
qed

lemma view_val_ok:
  assumes "JCS P (view_val p) = Inr c"
  shows "no_collision (pk_bindings p)" "time_val (pk_issued_at p) = VStr (time_text (pk_issued_at p))"
proof -
  have "first_fail (bindings_val (pk_bindings p)) = None"
    by (rule view_val_no_fail [OF assms, of "''bindings''"]) (simp_all add: RequiredSignedFields_def)
  then show "no_collision (pk_bindings p)"
    by (cases "bindings_MarshalJSON (pk_bindings p)")
      (simp_all add: bindings_val_def bindings_MarshalJSON_ok)
  have "first_fail (time_val (pk_issued_at p)) = None"
    by (rule view_val_no_fail [OF assms, of "''issued_at''"]) (simp_all add: RequiredSignedFields_def)
  then show "time_val (pk_issued_at p) = VStr (time_text (pk_issued_at p))"
    by (auto simp: time_val_def split: if_splits)
qed

lemma view_val_inject:
  assumes "JCS P (view_val p) = Inr c" "JCS P (view_val q) = Inr d" "view_val p = view_val q"
  shows "same_signed_content p q"
proof -
  note flds = view_val_fields [OF assms(3)]
  have eqs: "VStr (pk_spec_version p) = VStr (pk_spec_version q)"
    "VStr (pk_profile p) = VStr (pk_profile q)"
    "VStr (pk_package_id p) = VStr (pk_package_id q)"
    "time_val (pk_issued_at p) = time_val (pk_issued_at q)"
    "issuer_val (pk_issuer p) = issuer_val (pk_issuer q)"
    "intent_val (pk_intent p) = intent_val (pk_intent q)"
    "cnf_val (pk_cnf p) = cnf_val (pk_cnf q)"
    "bindings_val (pk_bindings p) = bindings_val (pk_bindings q)"
    "manifest_val (pk_manifest p) = manifest_val (pk_manifest q)"
    using flds [of "''spec_version''"] flds [of "''profile''"] flds [of "''package_id''"]
      flds [of "''issued_at''"] flds [of "''issuer''"] flds [of "''intent''"]
      flds [of "''cnf''"] flds [of "''bindings''"] flds [of "''manifest''"]
    by (simp_all add: RequiredSignedFields_def)
  then show ?thesis
    using view_val_ok [OF assms(1)] view_val_ok [OF assms(2)] bindings_val_inject
    by (auto simp: same_signed_content_def)
qed

lemma BuildSigningView_inject:
  assumes "BuildSigningView P p = Inr c" "BuildSigningView P q = Inr c"
  shows "same_signed_content p q \<or> jcs_collision P (view_val p) (view_val q)"
  using assms view_val_inject JCS_inject by (metis BuildSigningView_Inr)

lemma signature_value_roundtrip: "DecodeSignatureValue (EncodeSignatureValue sig) = Inr sig"
  by (simp add: DecodeSignatureValue_def EncodeSignatureValue_def raw_url_roundtrip)

end
