(* ===== verification/Ports.thy ===== *)
theory Ports
  imports Signing_View
begin

text \<open>
  \<^verbatim>\<open>pkg/chainbind/ports.go\<close>: the interfaces the core calls through, each a record of its
  operations, and the contract of each as a locale. A port that needs entropy threads the
  world; the answers of the others are functions of their arguments. A context is not an
  argument: a cancelled one is an operation that answers with an error.
\<close>

record signer =
  signer_Kid :: "string res"
  signer_Sign :: "bytes \<Rightarrow> bytes res"

record key_wrapper =
  kw_Wrap :: "bytes \<Rightarrow> bytes \<Rightarrow> world \<Rightarrow> (bytes \<times> bytes) res \<times> world"
  kw_Unwrap :: "bytes \<Rightarrow> bytes \<Rightarrow> bytes \<Rightarrow> bytes res"
  kw_Thumbprint :: "bytes \<Rightarrow> string res"
  kw_PublicKey :: "bytes \<Rightarrow> bytes res"

record intent_decision =
  id_Allowed :: bool
  id_Reason :: string

record intent_verifier =
  iv_Check :: "string \<Rightarrow> goval \<Rightarrow> intent_decision res"
  iv_ConstraintsHash :: "string \<Rightarrow> string res"

section \<open>The contracts\<close>

text \<open>
  A signer for the public key \<open>pub\<close>: what it signs is an Ed25519 signature that verifies
  under that key. \<open>ok s P pub\<close> is the provider's own condition on its state.
\<close>

locale signing_port =
  fixes signer_of :: "prims \<Rightarrow> 's \<Rightarrow> signer"
    and ok :: "prims \<Rightarrow> 's \<Rightarrow> bytes \<Rightarrow> bool"
  assumes sign_verifies:
    "ok P s pub \<Longrightarrow> signer_Sign (signer_of P s) m = Inr sig \<Longrightarrow>
       length pub = 32 \<and> length sig = 64 \<and> ed25519_verify P pub m sig"

text \<open>
  A key wrapper: wrapping only draws entropy and records it, and a key wrapped to the
  public half of \<open>priv\<close> unwraps under \<open>priv\<close>. \<open>ok P\<close> are the laws the provider needs of the
  primitives.
\<close>

locale wrapping_port =
  fixes wrapper_of :: "prims \<Rightarrow> key_wrapper"
    and ok :: "prims \<Rightarrow> bool"
  assumes wrap_advances:
    "kw_Wrap (wrapper_of P) pub dek w = (r, w') \<Longrightarrow>
       \<exists>es. advances w w' es \<and> (\<forall>e \<in> set es. \<exists>b. e = EvRand b)"
    and wrap_unwrap:
    "ok P \<Longrightarrow> kw_PublicKey (wrapper_of P) priv = Inr pub \<Longrightarrow> length dek = 32 \<Longrightarrow>
       kw_Wrap (wrapper_of P) pub dek w = (Inr (wrapped, epk), w') \<Longrightarrow>
       kw_Unwrap (wrapper_of P) priv epk wrapped = Inr dek"

text \<open>
  An intent authority over a state that may change: the hash of an authorization reference
  is settled by the reference. \<open>step\<close> is what the authority's state may do between calls.
\<close>

locale authority_port =
  fixes authority_of :: "prims \<Rightarrow> 's \<Rightarrow> intent_verifier"
    and step :: "'s \<Rightarrow> 's \<Rightarrow> bool"
  assumes hash_immutable:
    "step s t \<Longrightarrow> iv_ConstraintsHash (authority_of P t) ref = iv_ConstraintsHash (authority_of P s) ref"
begin

lemma hash_immutable_steps:
  "step\<^sup>*\<^sup>* s t \<Longrightarrow>
     iv_ConstraintsHash (authority_of P t) ref = iv_ConstraintsHash (authority_of P s) ref"
  by (induction rule: rtranclp_induct) (simp_all add: hash_immutable)

end

text \<open>
  A profile: whatever payload it splits it also projects, and a split has a segment, possibly a
  nil one, for every audience of its \<open>order\<close> and for no other.
\<close>

locale profile_port =
  fixes splits :: "'p \<Rightarrow> (string, gobytes) fmap res"
    and projects :: "'p \<Rightarrow> 'j res"
    and order :: "string list"
  assumes split_dom: "splits p = Inr segs \<Longrightarrow> fset (fmdom segs) = set order"
    and split_project: "splits p = Inr segs \<Longrightarrow> \<exists>j. projects p = Inr j"
begin

lemma split_lookup: "splits p = Inr segs \<Longrightarrow> fmlookup segs a \<noteq> None \<longleftrightarrow> a \<in> set order"
  using split_dom by (metis fmdom_notD fmdom_notI)

end

end
