(* ===== verification/Seal.thy ===== *)
theory Seal
  imports Ports
begin

text \<open>
  \<^verbatim>\<open>pkg/chainbind/seal.go\<close>: sealing a request into a signed package. Every call threads the
  world, so the lemmas can speak of what is drawn, encrypted, wrapped, zeroed and signed,
  and in which order.
\<close>

definition gcmTagSize :: nat where
  "gcmTagSize = 16"

definition packageIDBytes :: nat where
  "packageIDBytes = 16"

definition segmentAlg :: string where
  "segmentAlg = ''AES-256-GCM''"

definition segmentWrapAlg :: string where
  "segmentWrapAlg = ''ECDH-ES+A256KW''"

definition signatureAlg :: string where
  "signatureAlg = ''EdDSA''"

definition manifestSchema :: string where
  "manifestSchema = ''chainbind-package/v1''"

definition manifestHashAlg :: string where
  "manifestHashAlg = ''SHA-256''"

definition manifestCanonicalization :: string where
  "manifestCanonicalization = ''RFC8785''"

record audience =
  au_Name :: string
  au_PublicKey :: bytes
  au_Kid :: string

record seal_request =
  sr_Segments :: "(string, gobytes) fmap"
  sr_SegmentOrder :: "string list"
  sr_Audiences :: "audience list"
  sr_IntentRef :: string
  sr_Authority :: string
  sr_Projection :: goval
  sr_Issuer :: string
  sr_IssuedAt :: gotime
  sr_TenantID :: string
  sr_Environment :: string
  sr_Profile :: string
  sr_BindingSpecs :: "binding_spec list"

fun check_audiences :: "(string, gobytes) fmap \<Rightarrow> string list \<Rightarrow> audience list \<Rightarrow> unit res" where
  "check_audiences segs seen [] = Inr ()"
| "check_audiences segs seen (aud # auds) =
     (if au_Name aud \<in> set seen
      then Inl (Wrapped '''' (Sentinel ErrDuplicateAudience) ('': '' @ go_quote (au_Name aud)))
      else if fmlookup segs (au_Name aud) = None
      then Inl (Wrapped '''' (Sentinel ErrSegmentMissing) ('': '' @ go_quote (au_Name aud)))
      else check_audiences segs (au_Name aud # seen) auds)"

definition checkAudiences :: "seal_request \<Rightarrow> unit res" where
  "checkAudiences req = check_audiences (sr_Segments req) [] (sr_Audiences req)"

definition newPackageID :: "world \<Rightarrow> string res \<times> world" where
  "newPackageID w =
     (case rand_read packageIDBytes w of
        (Inl e, w') \<Rightarrow> (Inl (errorf ''generate package_id: '' e), w')
      | (Inr buf, w') \<Rightarrow> (Inr (''pkg_'' @ hex_encode buf), w'))"

text \<open>\<open>sealSegment\<close> after its data key exists; the deferred zeroing is in the caller.\<close>

definition seal_segment_with ::
  "prims \<Rightarrow> key_wrapper \<Rightarrow> aad_context \<Rightarrow> audience \<Rightarrow> gobytes \<Rightarrow> bytes \<Rightarrow> world \<Rightarrow>
     (segment \<times> sealed_segment \<times> string) res \<times> world" where
  "seal_segment_with P w aadCtx aud plaintext dek s =
     (case AAD P aadCtx (au_Name aud) SupportedSpecVersion of
        Inl e \<Rightarrow> (Inl e, s)
      | Inr aad \<Rightarrow>
     (case Encrypt P dek (raw_bytes plaintext) aad s of
        (Inl e, s) \<Rightarrow> (Inl e, s)
      | (Inr (combined, nonce), s) \<Rightarrow>
      if length combined < gcmTagSize then (Inl (Sentinel ErrDecryptionFailed), s)
      else
        let cipherHash = H P combined;
            ciphertext = take (length combined - gcmTagSize) combined;
            tag = drop (length combined - gcmTagSize) combined
        in
     (case JCS P (vbytes plaintext) of
        Inl e \<Rightarrow> (Inl e, s)
      | Inr canonPlain \<Rightarrow>
        let plainHash = H P canonPlain in
     (case kw_Wrap w (au_PublicKey aud) dek s of
        (Inl e, s) \<Rightarrow> (Inl e, s)
      | (Inr (wrapped, epk), s) \<Rightarrow>
          (Inr (\<lparr> sg_audience = au_Name aud, sg_kid = au_Kid aud, sg_alg = segmentAlg,
                  sg_wrap_alg = segmentWrapAlg, sg_plain_hash = plainHash,
                  sg_cipher_hash = cipherHash \<rparr>,
                \<lparr> ss_epk = \<lparr> ep_kty = ''OKP'', ep_crv = ''X25519'', ep_x = raw_url_encode epk \<rparr>,
                  ss_dek_wrapped = raw_url_encode wrapped, ss_nonce = raw_url_encode nonce,
                  ss_ciphertext = raw_url_encode ciphertext, ss_tag = raw_url_encode tag \<rparr>,
                plainHash),
           emit (EvWrap (au_PublicKey aud) dek) s)))))"

definition sealSegment ::
  "prims \<Rightarrow> key_wrapper \<Rightarrow> aad_context \<Rightarrow> audience \<Rightarrow> gobytes \<Rightarrow> world \<Rightarrow>
     (segment \<times> sealed_segment \<times> string) res \<times> world" where
  "sealSegment P w aadCtx aud plaintext s =
     (case NewDEK s of
        (Inl e, s) \<Rightarrow> (Inl e, s)
      | (Inr dek, s) \<Rightarrow>
          (case seal_segment_with P w aadCtx aud plaintext dek s of
             (r, s) \<Rightarrow> (r, emit (EvZero dek) s)))"

text \<open>The four maps the loop over the audiences fills.\<close>

record seal_acc =
  sa_plainHash :: "(string, string) fmap"
  sa_manifestSegments :: "(string, segment) fmap"
  sa_sealedSegments :: "(string, sealed_segment) fmap"
  sa_cnf :: "(string, key_confirmation) fmap"

definition seal_acc0 :: seal_acc where
  "seal_acc0 = \<lparr> sa_plainHash = fmempty, sa_manifestSegments = fmempty,
                 sa_sealedSegments = fmempty, sa_cnf = fmempty \<rparr>"

definition add_sealed ::
  "audience \<Rightarrow> segment \<Rightarrow> sealed_segment \<Rightarrow> string \<Rightarrow> string \<Rightarrow> seal_acc \<Rightarrow> seal_acc" where
  "add_sealed aud seg sealed ph jkt acc =
     \<lparr> sa_plainHash = fmupd (au_Name aud) ph (sa_plainHash acc),
       sa_manifestSegments = fmupd (au_Name aud) seg (sa_manifestSegments acc),
       sa_sealedSegments = fmupd (au_Name aud) sealed (sa_sealedSegments acc),
       sa_cnf = fmupd (au_Name aud)
                  \<lparr> kc_kid = au_Kid aud, kc_jkt = jkt, kc_method = ''jwk-thumbprint'' \<rparr>
                  (sa_cnf acc) \<rparr>"

definition segment_plaintext :: "(string, gobytes) fmap \<Rightarrow> string \<Rightarrow> gobytes" where
  \<comment> \<open>\<^verbatim>\<open>req.Segments[name]\<close>\<close>
  "segment_plaintext segs name = (case fmlookup segs name of None \<Rightarrow> None | Some g \<Rightarrow> g)"

fun seal_loop ::
  "prims \<Rightarrow> key_wrapper \<Rightarrow> aad_context \<Rightarrow> (string, gobytes) fmap \<Rightarrow> audience list \<Rightarrow> seal_acc \<Rightarrow>
     world \<Rightarrow> seal_acc res \<times> world" where
  "seal_loop P w aadCtx segs [] acc s = (Inr acc, s)"
| "seal_loop P w aadCtx segs (aud # auds) acc s =
     (case sealSegment P w aadCtx aud (segment_plaintext segs (au_Name aud)) s of
        (Inl e, s) \<Rightarrow>
          (Inl (errorf (''chainbind: seal: audience '' @ go_quote (au_Name aud) @ '': '') e), s)
      | (Inr (seg, sealed, ph), s) \<Rightarrow>
          (case kw_Thumbprint w (au_PublicKey aud) of
             Inl e \<Rightarrow>
               (Inl (errorf (''chainbind: seal: audience '' @ go_quote (au_Name aud) @ '': '') e),
                emit (EvThumbprint (au_PublicKey aud)) s)
           | Inr jkt \<Rightarrow>
               seal_loop P w aadCtx segs auds (add_sealed aud seg sealed ph jkt acc)
                 (emit (EvThumbprint (au_PublicKey aud)) s)))"

definition signPackage :: "prims \<Rightarrow> signer \<Rightarrow> package \<Rightarrow> world \<Rightarrow> package res \<times> world" where
  "signPackage P si p w =
     (let w = emit EvKid w in
      case signer_Kid si of
        Inl e \<Rightarrow> (Inl (errorf ''sign: '' e), w)
      | Inr kid \<Rightarrow>
          let p = p\<lparr>pk_issuer := (pk_issuer p)\<lparr>iss_kid := kid\<rparr>\<rparr> in
          (case BuildSigningView P p of
             Inl e \<Rightarrow> (Inl e, w)
           | Inr view \<Rightarrow>
               let w = emit (EvSign view) w in
               (case signer_Sign si view of
                  Inl e \<Rightarrow> (Inl (errorf ''sign: '' e), w)
                | Inr sig \<Rightarrow>
                    (Inr (p\<lparr>pk_signature :=
                        \<lparr> sn_alg = signatureAlg, sn_kid = kid,
                          sn_signed_fields = RequiredSignedFields,
                          sn_value = EncodeSignatureValue sig \<rparr>\<rparr>), w))))"

definition signature0 :: signature where
  "signature0 = \<lparr> sn_alg = [], sn_kid = [], sn_signed_fields = [], sn_value = [] \<rparr>"

text \<open>The package before it is signed.\<close>

definition unsigned_package ::
  "seal_request \<Rightarrow> string \<Rightarrow> aad_context \<Rightarrow> string \<Rightarrow> seal_acc \<Rightarrow> string \<Rightarrow> string \<Rightarrow>
     (string, string) fmap \<Rightarrow> package" where
  "unsigned_package req packageID aadCtx constraintsHash acc segmentsRoot intentCommitment extra =
     \<lparr> pk_spec_version = SupportedSpecVersion,
       pk_profile = sr_Profile req,
       pk_package_id = packageID,
       pk_issued_at = sr_IssuedAt req,
       pk_issuer = \<lparr> iss_iss = sr_Issuer req, iss_kid = [] \<rparr>,
       pk_intent = \<lparr> in_intent_ref = sr_IntentRef req, in_authority = sr_Authority req,
                     in_constraints_hash = constraintsHash \<rparr>,
       pk_cnf = Some (sa_cnf acc),
       pk_bindings = \<lparr> bd_segments_root = segmentsRoot,
                       bd_intent_commitment = intentCommitment, bd_extra = extra \<rparr>,
       pk_manifest = \<lparr> mf_schema = manifestSchema, mf_hash_alg = manifestHashAlg,
                       mf_canonicalization = manifestCanonicalization,
                       mf_segment_order = sr_SegmentOrder req, mf_aad_context = aadCtx,
                       mf_segments = sa_manifestSegments acc, mf_disclosures = [] \<rparr>,
       pk_segments = sa_sealedSegments acc,
       pk_signature = signature0 \<rparr>"

text \<open>Seal once the authority has allowed the request and given its constraints hash.\<close>

definition seal_authorized ::
  "prims \<Rightarrow> seal_request \<Rightarrow> signer \<Rightarrow> key_wrapper \<Rightarrow> string \<Rightarrow> world \<Rightarrow> package res \<times> world" where
  "seal_authorized P req si w constraintsHash s =
     (case newPackageID s of
        (Inl e, s) \<Rightarrow> (Inl (errorf ''chainbind: seal: '' e), s)
      | (Inr packageID, s) \<Rightarrow>
        let aadCtx = \<lparr> ac_package_id = packageID, ac_tenant_id = sr_TenantID req,
                       ac_environment = sr_Environment req \<rparr> in
     (case seal_loop P w aadCtx (sr_Segments req) (sr_Audiences req) seal_acc0 s of
        (Inl e, s) \<Rightarrow> (Inl e, s)
      | (Inr acc, s) \<Rightarrow>
     (case SegmentsRoot P (sr_SegmentOrder req) (sa_plainHash acc) of
        Inl e \<Rightarrow> (Inl (errorf ''chainbind: seal: '' e), s)
      | Inr segmentsRoot \<Rightarrow>
     (case IntentCommitment P (sr_IntentRef req) constraintsHash segmentsRoot of
        Inl e \<Rightarrow> (Inl (errorf ''chainbind: seal: '' e), s)
      | Inr intentCommitment \<Rightarrow>
     (case ComputeBindings \<lparr> bc_plain_hash = sa_plainHash acc, bc_intent_ref = sr_IntentRef req,
                             bc_constraints_hash = constraintsHash,
                             bc_segments_root = segmentsRoot \<rparr> (sr_BindingSpecs req) of
        Inl e \<Rightarrow> (Inl (errorf ''chainbind: seal: '' e), s)
      | Inr extra \<Rightarrow>
     (case signPackage P si
             (unsigned_package req packageID aadCtx constraintsHash acc segmentsRoot
                intentCommitment extra) s of
        (Inl e, s) \<Rightarrow> (Inl (errorf ''chainbind: seal: '' e), s)
      | (Inr p, s) \<Rightarrow> (Inr p, s)))))))"

definition Seal ::
  "prims \<Rightarrow> seal_request \<Rightarrow> signer \<Rightarrow> key_wrapper \<Rightarrow> intent_verifier \<Rightarrow> world \<Rightarrow> package res \<times> world" where
  "Seal P req si w iv s =
     (if sr_Audiences req = [] then (Inl (Sentinel ErrNoAudiences), s)
      else
     (case checkAudiences req of
        Inl e \<Rightarrow> (Inl e, s)
      | Inr _ \<Rightarrow>
        let s = emit (EvCheck (sr_IntentRef req)) s in
     (case iv_Check iv (sr_IntentRef req) (sr_Projection req) of
        Inl e \<Rightarrow> (Inl (errorf ''chainbind: seal: intent authority unreachable: '' e), s)
      | Inr decision \<Rightarrow>
      if \<not> id_Allowed decision
      then (Inl (Wrapped ''chainbind: seal: '' (Sentinel ErrIntentDenied)
                   ('': '' @ id_Reason decision)), s)
      else
        let s = emit (EvConstraintsHash (sr_IntentRef req)) s in
     (case iv_ConstraintsHash iv (sr_IntentRef req) of
        Inl e \<Rightarrow> (Inl (errorf ''chainbind: seal: intent authority unreachable: '' e), s)
      | Inr constraintsHash \<Rightarrow> seal_authorized P req si w constraintsHash s))))"

section \<open>What a sealed segment is\<close>

text \<open>
  The relation a successful \<open>sealSegment\<close> establishes between its inputs and its three
  results, with the key, nonce and wrapped key it drew.
\<close>

definition segment_sealed ::
  "prims \<Rightarrow> key_wrapper \<Rightarrow> aad_context \<Rightarrow> audience \<Rightarrow> gobytes \<Rightarrow>
     segment \<Rightarrow> sealed_segment \<Rightarrow> string \<Rightarrow> bool" where
  "segment_sealed P w aadCtx aud g seg sealed ph \<longleftrightarrow>
     (\<exists>dek nonce aad combined canon wrapped epk s s'.
        length dek = 32 \<and> length nonce = 12 \<and>
        AAD P aadCtx (au_Name aud) SupportedSpecVersion = Inr aad \<and>
        combined = gcm_seal P dek nonce (raw_bytes g) aad \<and> 16 \<le> length combined \<and>
        JCS P (vbytes g) = Inr canon \<and> ph = H P canon \<and>
        kw_Wrap w (au_PublicKey aud) dek s = (Inr (wrapped, epk), s') \<and>
        seg = \<lparr> sg_audience = au_Name aud, sg_kid = au_Kid aud, sg_alg = segmentAlg,
                sg_wrap_alg = segmentWrapAlg, sg_plain_hash = ph,
                sg_cipher_hash = H P combined \<rparr> \<and>
        sealed = \<lparr> ss_epk = \<lparr> ep_kty = ''OKP'', ep_crv = ''X25519'', ep_x = raw_url_encode epk \<rparr>,
                   ss_dek_wrapped = raw_url_encode wrapped, ss_nonce = raw_url_encode nonce,
                   ss_ciphertext = raw_url_encode (take (length combined - 16) combined),
                   ss_tag = raw_url_encode (drop (length combined - 16) combined) \<rparr>)"

lemma seal_segment_with_Inr:
  assumes "seal_segment_with P w aadCtx aud g dek s = (Inr (seg, sealed, ph), s')" "length dek = 32"
  shows "segment_sealed P w aadCtx aud g seg sealed ph"
proof -
  from assms(1) obtain aad combined nonce s1 canon wrapped epk s2 where
    d: "AAD P aadCtx (au_Name aud) SupportedSpecVersion = Inr aad"
    "Encrypt P dek (raw_bytes g) aad s = (Inr (combined, nonce), s1)"
    "\<not> length combined < gcmTagSize" "JCS P (vbytes g) = Inr canon"
    "kw_Wrap w (au_PublicKey aud) dek s1 = (Inr (wrapped, epk), s2)"
    by (auto simp: seal_segment_with_def Let_def split: sum.splits prod.splits if_splits)
  from d(2) have e: "length nonce = 12" "combined = gcm_seal P dek nonce (raw_bytes g) aad"
    using Encrypt_Inr by blast+
  from assms d have
    "seg = \<lparr> sg_audience = au_Name aud, sg_kid = au_Kid aud, sg_alg = segmentAlg,
             sg_wrap_alg = segmentWrapAlg, sg_plain_hash = ph, sg_cipher_hash = H P combined \<rparr>"
    "sealed = \<lparr> ss_epk = \<lparr> ep_kty = ''OKP'', ep_crv = ''X25519'', ep_x = raw_url_encode epk \<rparr>,
       ss_dek_wrapped = raw_url_encode wrapped, ss_nonce = raw_url_encode nonce,
       ss_ciphertext = raw_url_encode (take (length combined - 16) combined),
       ss_tag = raw_url_encode (drop (length combined - 16) combined) \<rparr>" "ph = H P canon"
    by (auto simp: seal_segment_with_def gcmTagSize_def Let_def)
  with d e assms(2) show ?thesis
    unfolding segment_sealed_def gcmTagSize_def by (metis not_le)
qed

lemma sealSegment_Inr:
  assumes "sealSegment P w aadCtx aud g s = (Inr (seg, sealed, ph), s')"
  shows "segment_sealed P w aadCtx aud g seg sealed ph"
proof -
  from assms obtain dek s1 s2 where
    "NewDEK s = (Inr dek, s1)" "seal_segment_with P w aadCtx aud g dek s1 = (Inr (seg, sealed, ph), s2)"
    by (auto simp: sealSegment_def split: sum.splits prod.splits)
  then show ?thesis using NewDEK_Inr seal_segment_with_Inr by blast
qed

text \<open>What the loop leaves in its maps about one audience.\<close>

definition audience_sealed ::
  "prims \<Rightarrow> key_wrapper \<Rightarrow> aad_context \<Rightarrow> (string, gobytes) fmap \<Rightarrow> seal_acc \<Rightarrow> audience \<Rightarrow> bool" where
  "audience_sealed P w aadCtx segs acc aud \<longleftrightarrow>
     (\<exists>seg sealed ph jkt.
        segment_sealed P w aadCtx aud (segment_plaintext segs (au_Name aud)) seg sealed ph \<and>
        kw_Thumbprint w (au_PublicKey aud) = Inr jkt \<and>
        fmlookup (sa_plainHash acc) (au_Name aud) = Some ph \<and>
        fmlookup (sa_manifestSegments acc) (au_Name aud) = Some seg \<and>
        fmlookup (sa_sealedSegments acc) (au_Name aud) = Some sealed \<and>
        fmlookup (sa_cnf acc) (au_Name aud) =
          Some \<lparr> kc_kid = au_Kid aud, kc_jkt = jkt, kc_method = ''jwk-thumbprint'' \<rparr>)"

definition same_keys :: "seal_acc \<Rightarrow> string set \<Rightarrow> bool" where
  "same_keys acc A \<longleftrightarrow>
     fset (fmdom (sa_plainHash acc)) = A \<and> fset (fmdom (sa_manifestSegments acc)) = A \<and>
     fset (fmdom (sa_sealedSegments acc)) = A \<and> fset (fmdom (sa_cnf acc)) = A"

lemma seal_loop_step:
  assumes "seal_loop P w aadCtx segs (aud # auds) acc s = (Inr acc', s')"
  obtains seg sealed ph jkt s1 where
    "sealSegment P w aadCtx aud (segment_plaintext segs (au_Name aud)) s = (Inr (seg, sealed, ph), s1)"
    "kw_Thumbprint w (au_PublicKey aud) = Inr jkt"
    "seal_loop P w aadCtx segs auds (add_sealed aud seg sealed ph jkt acc)
       (emit (EvThumbprint (au_PublicKey aud)) s1) = (Inr acc', s')"
  using assms by (auto split: prod.splits sum.splits)

lemma seal_loop_keeps:
  assumes "seal_loop P w aadCtx segs auds acc s = (Inr acc', s')"
    and "n \<notin> au_Name ` set auds"
  shows "fmlookup (sa_plainHash acc') n = fmlookup (sa_plainHash acc) n \<and>
    fmlookup (sa_manifestSegments acc') n = fmlookup (sa_manifestSegments acc) n \<and>
    fmlookup (sa_sealedSegments acc') n = fmlookup (sa_sealedSegments acc) n \<and>
    fmlookup (sa_cnf acc') n = fmlookup (sa_cnf acc) n"
  using assms
proof (induction auds arbitrary: acc s)
  case (Cons aud auds)
  from Cons.prems(1) obtain seg sealed ph jkt s1 where
    "seal_loop P w aadCtx segs auds (add_sealed aud seg sealed ph jkt acc)
       (emit (EvThumbprint (au_PublicKey aud)) s1) = (Inr acc', s')"
    by (rule seal_loop_step)
  from Cons.IH [OF this] Cons.prems(2) show ?case by (auto simp: add_sealed_def)
qed simp

lemma seal_loop_audiences:
  assumes "seal_loop P w aadCtx segs auds acc s = (Inr acc', s')"
    and "distinct (map au_Name auds)" and "aud \<in> set auds"
  shows "audience_sealed P w aadCtx segs acc' aud"
  using assms
proof (induction auds arbitrary: acc s)
  case (Cons a auds)
  from Cons.prems(1) obtain seg sealed ph jkt s1 where
    a: "sealSegment P w aadCtx a (segment_plaintext segs (au_Name a)) s = (Inr (seg, sealed, ph), s1)"
    "kw_Thumbprint w (au_PublicKey a) = Inr jkt" and
    rest: "seal_loop P w aadCtx segs auds (add_sealed a seg sealed ph jkt acc)
       (emit (EvThumbprint (au_PublicKey a)) s1) = (Inr acc', s')"
    by (rule seal_loop_step)
  show ?case
  proof (cases "aud = a")
    case True
    have "au_Name a \<notin> au_Name ` set auds" using Cons.prems(2) by simp
    from seal_loop_keeps [OF rest this] sealSegment_Inr [OF a(1)] a(2) True show ?thesis
      unfolding audience_sealed_def add_sealed_def by auto
  next
    case False
    with Cons.prems(2,3) Cons.IH [OF rest] show ?thesis by simp
  qed
qed simp

lemma seal_loop_keys:
  assumes "seal_loop P w aadCtx segs auds acc s = (Inr acc', s')" and "same_keys acc A"
  shows "same_keys acc' (A \<union> au_Name ` set auds)"
  using assms
proof (induction auds arbitrary: acc s A)
  case (Cons aud auds)
  from Cons.prems(1) obtain seg sealed ph jkt s1 where
    rest: "seal_loop P w aadCtx segs auds (add_sealed aud seg sealed ph jkt acc)
       (emit (EvThumbprint (au_PublicKey aud)) s1) = (Inr acc', s')"
    by (rule seal_loop_step)
  have "same_keys (add_sealed aud seg sealed ph jkt acc) (insert (au_Name aud) A)"
    using Cons.prems(2) by (simp add: same_keys_def add_sealed_def)
  from Cons.IH [OF rest this] show ?case by simp
qed simp

lemma same_keys0: "same_keys seal_acc0 {}"
  by (simp add: same_keys_def seal_acc0_def)

lemma check_audiences_Inr:
  "check_audiences segs seen auds = Inr () \<longleftrightarrow>
     distinct (map au_Name auds) \<and> set seen \<inter> au_Name ` set auds = {} \<and>
     (\<forall>aud \<in> set auds. fmlookup segs (au_Name aud) \<noteq> None)"
  by (induction auds arbitrary: seen) auto

lemma checkAudiences_Inr:
  "checkAudiences req = Inr () \<longleftrightarrow>
     distinct (map au_Name (sr_Audiences req)) \<and>
     (\<forall>aud \<in> set (sr_Audiences req). fmlookup (sr_Segments req) (au_Name aud) \<noteq> None)"
  by (simp add: checkAudiences_def check_audiences_Inr)

text \<open>A request whose segments a profile split passes when it names audiences of the profile, each once.\<close>

context profile_port
begin

lemma audiences_checked:
  assumes "splits p = Inr (sr_Segments req)" "distinct (map au_Name (sr_Audiences req))"
    "au_Name ` set (sr_Audiences req) \<subseteq> set order"
  shows "checkAudiences req = Inr ()"
  using assms split_lookup [OF assms(1)] by (auto simp: checkAudiences_Inr)

end

section \<open>What a sealed package is\<close>

text \<open>
  The relation a successful \<open>Seal\<close> establishes: which checks passed, what the bindings are
  computed from, and what was signed.
\<close>

definition package_sealed ::
  "prims \<Rightarrow> seal_request \<Rightarrow> signer \<Rightarrow> key_wrapper \<Rightarrow> intent_verifier \<Rightarrow> package \<Rightarrow> bool" where
  "package_sealed P req si w iv p \<longleftrightarrow>
     (\<exists>decision constraintsHash idBytes acc root commitment extra kid view sig aadCtx u.
        sr_Audiences req \<noteq> [] \<and> checkAudiences req = Inr () \<and>
        iv_Check iv (sr_IntentRef req) (sr_Projection req) = Inr decision \<and> id_Allowed decision \<and>
        iv_ConstraintsHash iv (sr_IntentRef req) = Inr constraintsHash \<and>
        length idBytes = 16 \<and>
        aadCtx = \<lparr> ac_package_id = ''pkg_'' @ hex_encode idBytes, ac_tenant_id = sr_TenantID req,
                   ac_environment = sr_Environment req \<rparr> \<and>
        same_keys acc (au_Name ` set (sr_Audiences req)) \<and>
        (\<forall>aud \<in> set (sr_Audiences req). audience_sealed P w aadCtx (sr_Segments req) acc aud) \<and>
        SegmentsRoot P (sr_SegmentOrder req) (sa_plainHash acc) = Inr root \<and>
        IntentCommitment P (sr_IntentRef req) constraintsHash root = Inr commitment \<and>
        ComputeBindings \<lparr> bc_plain_hash = sa_plainHash acc, bc_intent_ref = sr_IntentRef req,
                          bc_constraints_hash = constraintsHash, bc_segments_root = root \<rparr>
          (sr_BindingSpecs req) = Inr extra \<and>
        u = unsigned_package req (''pkg_'' @ hex_encode idBytes) aadCtx constraintsHash acc root
              commitment extra \<and>
        signer_Kid si = Inr kid \<and>
        BuildSigningView P (u\<lparr>pk_issuer := \<lparr> iss_iss = sr_Issuer req, iss_kid = kid \<rparr>\<rparr>) = Inr view \<and>
        signer_Sign si view = Inr sig \<and>
        p = u\<lparr>pk_issuer := \<lparr> iss_iss = sr_Issuer req, iss_kid = kid \<rparr>,
              pk_signature := \<lparr> sn_alg = signatureAlg, sn_kid = kid,
                               sn_signed_fields = RequiredSignedFields,
                               sn_value = EncodeSignatureValue sig \<rparr>\<rparr>)"

lemma newPackageID_Inr:
  "newPackageID s = (Inr pid, s') \<Longrightarrow>
     \<exists>b. length b = 16 \<and> pid = ''pkg_'' @ hex_encode b \<and> advances s s' [EvRand b]"
  using advances_rand [of packageIDBytes s _ s']
  by (fastforce simp: newPackageID_def packageIDBytes_def split: prod.splits sum.splits)

lemma signPackage_Inr:
  assumes "signPackage P si u s = (Inr p, s')"
  obtains kid view sig where "signer_Kid si = Inr kid"
    "BuildSigningView P (u\<lparr>pk_issuer := (pk_issuer u)\<lparr>iss_kid := kid\<rparr>\<rparr>) = Inr view"
    "signer_Sign si view = Inr sig"
    "p = u\<lparr>pk_issuer := (pk_issuer u)\<lparr>iss_kid := kid\<rparr>,
           pk_signature := \<lparr> sn_alg = signatureAlg, sn_kid = kid,
                            sn_signed_fields = RequiredSignedFields,
                            sn_value = EncodeSignatureValue sig \<rparr>\<rparr>"
    "s' = emit (EvSign view) (emit EvKid s)"
  using assms by (auto simp: signPackage_def Let_def split: sum.splits)

lemma Seal_authorized:
  assumes "Seal P req si w iv s = (Inr p, s')"
  obtains decision ch where "sr_Audiences req \<noteq> []" "checkAudiences req = Inr ()"
    "iv_Check iv (sr_IntentRef req) (sr_Projection req) = Inr decision" "id_Allowed decision"
    "iv_ConstraintsHash iv (sr_IntentRef req) = Inr ch"
    "seal_authorized P req si w ch
       (emit (EvConstraintsHash (sr_IntentRef req)) (emit (EvCheck (sr_IntentRef req)) s)) = (Inr p, s')"
  using assms by (auto simp: Seal_def Let_def split: sum.splits if_splits)

lemma seal_authorized_Inr:
  assumes "seal_authorized P req si w ch s = (Inr p, s')"
  obtains pid s1 acc s2 root commitment extra where
    "newPackageID s = (Inr pid, s1)"
    "seal_loop P w \<lparr> ac_package_id = pid, ac_tenant_id = sr_TenantID req,
       ac_environment = sr_Environment req \<rparr> (sr_Segments req) (sr_Audiences req) seal_acc0 s1
     = (Inr acc, s2)"
    "SegmentsRoot P (sr_SegmentOrder req) (sa_plainHash acc) = Inr root"
    "IntentCommitment P (sr_IntentRef req) ch root = Inr commitment"
    "ComputeBindings \<lparr> bc_plain_hash = sa_plainHash acc, bc_intent_ref = sr_IntentRef req,
       bc_constraints_hash = ch, bc_segments_root = root \<rparr> (sr_BindingSpecs req) = Inr extra"
    "signPackage P si (unsigned_package req pid \<lparr> ac_package_id = pid,
       ac_tenant_id = sr_TenantID req, ac_environment = sr_Environment req \<rparr> ch acc root commitment
       extra) s2 = (Inr p, s')"
  using assms by (auto simp: seal_authorized_def Let_def split: sum.splits prod.splits)

lemma Seal_Inr:
  assumes "Seal P req si w iv s = (Inr p, s')"
  shows "package_sealed P req si w iv p"
proof -
  obtain decision ch where a: "sr_Audiences req \<noteq> []" "checkAudiences req = Inr ()"
    "iv_Check iv (sr_IntentRef req) (sr_Projection req) = Inr decision" "id_Allowed decision"
    "iv_ConstraintsHash iv (sr_IntentRef req) = Inr ch"
    "seal_authorized P req si w ch
       (emit (EvConstraintsHash (sr_IntentRef req)) (emit (EvCheck (sr_IntentRef req)) s)) = (Inr p, s')"
    using assms by (rule Seal_authorized)
  from a(6) obtain pid s1 acc s2 root commitment extra where
    b: "newPackageID (emit (EvConstraintsHash (sr_IntentRef req)) (emit (EvCheck (sr_IntentRef req)) s))
      = (Inr pid, s1)"
    "seal_loop P w \<lparr> ac_package_id = pid, ac_tenant_id = sr_TenantID req,
       ac_environment = sr_Environment req \<rparr> (sr_Segments req) (sr_Audiences req) seal_acc0 s1
     = (Inr acc, s2)"
    "SegmentsRoot P (sr_SegmentOrder req) (sa_plainHash acc) = Inr root"
    "IntentCommitment P (sr_IntentRef req) ch root = Inr commitment"
    "ComputeBindings \<lparr> bc_plain_hash = sa_plainHash acc, bc_intent_ref = sr_IntentRef req,
       bc_constraints_hash = ch, bc_segments_root = root \<rparr> (sr_BindingSpecs req) = Inr extra"
    "signPackage P si (unsigned_package req pid \<lparr> ac_package_id = pid,
       ac_tenant_id = sr_TenantID req, ac_environment = sr_Environment req \<rparr> ch acc root commitment
       extra) s2 = (Inr p, s')"
    by (rule seal_authorized_Inr)
  let ?ctx = "\<lparr> ac_package_id = pid, ac_tenant_id = sr_TenantID req,
    ac_environment = sr_Environment req \<rparr>"
  let ?u = "unsigned_package req pid ?ctx ch acc root commitment extra"
  from newPackageID_Inr [OF b(1)] obtain idb where idb: "length idb = 16" "pid = ''pkg_'' @ hex_encode idb"
    by blast
  have "same_keys acc (au_Name ` set (sr_Audiences req))"
    using seal_loop_keys [OF b(2) same_keys0] by simp
  moreover have "\<forall>aud \<in> set (sr_Audiences req). audience_sealed P w \<lparr> ac_package_id = pid,
       ac_tenant_id = sr_TenantID req, ac_environment = sr_Environment req \<rparr> (sr_Segments req) acc aud"
    using seal_loop_audiences [OF b(2)] a(2) by (simp add: checkAudiences_Inr)
  moreover from b(6) obtain kid view sig where c: "signer_Kid si = Inr kid"
    "signer_Sign si view = Inr sig"
    and view: "BuildSigningView P (?u\<lparr>pk_issuer := (pk_issuer ?u)\<lparr>iss_kid := kid\<rparr>\<rparr>) = Inr view"
    and p: "p = ?u\<lparr>pk_issuer := (pk_issuer ?u)\<lparr>iss_kid := kid\<rparr>,
       pk_signature := \<lparr> sn_alg = signatureAlg, sn_kid = kid,
         sn_signed_fields = RequiredSignedFields, sn_value = EncodeSignatureValue sig \<rparr>\<rparr>"
    by (rule signPackage_Inr)
  moreover have iss: "(pk_issuer ?u)\<lparr>iss_kid := kid\<rparr> = \<lparr> iss_iss = sr_Issuer req, iss_kid = kid \<rparr>"
    by (simp add: unsigned_package_def)
  ultimately show ?thesis
    using a(1-5) b(3-5) idb
    unfolding package_sealed_def
    by (intro exI [of _ decision] exI [of _ ch] exI [of _ idb] exI [of _ acc] exI [of _ root]
        exI [of _ commitment] exI [of _ extra] exI [of _ kid] exI [of _ view] exI [of _ sig]
        exI [of _ ?ctx] exI [of _ ?u]) (simp add: iss)
qed

section \<open>What sealing does to the world\<close>

text \<open>
  The effects of sealing one audience's segment: a data key and a nonce are drawn, one
  encryption is made under them, the wrapper draws what it needs, the key is wrapped and
  zeroed.
\<close>

record segment_draws =
  sd_dek :: bytes
  sd_nonce :: bytes
  sd_aad :: bytes
  sd_wrap :: "event list"

definition segment_events :: "audience \<Rightarrow> segment_draws \<Rightarrow> event list" where
  "segment_events aud d =
     [EvRand (sd_dek d), EvRand (sd_nonce d), EvEncrypt (sd_dek d) (sd_nonce d) (sd_aad d)]
     @ sd_wrap d @ [EvWrap (au_PublicKey aud) (sd_dek d), EvZero (sd_dek d),
                    EvThumbprint (au_PublicKey aud)]"

definition only_draws :: "event list \<Rightarrow> bool" where
  "only_draws es \<longleftrightarrow> (\<forall>e \<in> set es. \<exists>b. e = EvRand b)"

definition draws_ok :: "prims \<Rightarrow> aad_context \<Rightarrow> audience \<Rightarrow> segment_draws \<Rightarrow> bool" where
  "draws_ok P aadCtx aud d \<longleftrightarrow>
     length (sd_dek d) = 32 \<and> length (sd_nonce d) = 12 \<and> only_draws (sd_wrap d) \<and>
     AAD P aadCtx (au_Name aud) SupportedSpecVersion = Inr (sd_aad d)"

lemma Encrypt_advances:
  "Encrypt P dek pt aad s = (r, s') \<Longrightarrow> \<exists>es. advances s s' es \<and> (\<forall>p q. EvZero p \<notin> set es \<and> EvSign q \<notin> set es)"
proof (cases r)
  case (Inr c)
  assume "Encrypt P dek pt aad s = (r, s')"
  with Inr Encrypt_Inr [of P dek pt aad s "fst c" "snd c" s'] show ?thesis by fastforce
next
  case (Inl e)
  assume "Encrypt P dek pt aad s = (r, s')"
  with Inl have "s' = s"
    by (auto simp: Encrypt_def dest: rand_read_error split: sum.splits prod.splits)
  then show ?thesis by (auto intro: exI [of _ "[]"])
qed

context wrapping_port
begin

lemma seal_segment_with_advances:
  assumes "seal_segment_with P (wrapper_of P) aadCtx aud g dek s = (r, s')"
  shows "\<exists>es. advances s s' es \<and> (\<forall>q. EvSign q \<notin> set es)"
proof -
  let ?ok = "\<lambda>t. \<exists>es. advances s t es \<and> (\<forall>q. EvSign q \<notin> set es)"
  have refl: "?ok s" by (auto intro: exI [of _ "[]"])
  have enc: "?ok t" if "Encrypt P dek (raw_bytes g) aad s = (x, t)" for x t aad
    using Encrypt_advances [OF that] by blast
  have wrap: "?ok v" if "?ok t" "kw_Wrap (wrapper_of P) pub d t = (y, v)" for t y v pub d
  proof -
    from that(1) obtain es where es: "advances s t es" "\<forall>q. EvSign q \<notin> set es" by blast
    from wrap_advances [OF that(2)] obtain fs where fs: "advances t v fs" "\<forall>e \<in> set fs. \<exists>b. e = EvRand b"
      by blast
    then have "EvSign q \<notin> set fs" for q by blast
    with es advances_trans [OF es(1) fs(1)] show ?thesis by (intro exI [of _ "es @ fs"]) simp
  qed
  have em: "?ok (emit (EvWrap pub d) t)" if "?ok t" for t pub d
    using that advances_emit [of s t _ "EvWrap pub d"] by fastforce
  show ?thesis
    using assms refl enc wrap em
    by (simp add: seal_segment_with_def Let_def split: sum.splits prod.splits if_splits) blast+
qed

lemma seal_segment_with_events:
  assumes "seal_segment_with P (wrapper_of P) aadCtx aud g dek s = (Inr x, s')" "length dek = 32"
  obtains d where "draws_ok P aadCtx aud d" "sd_dek d = dek"
    "advances s s' ([EvRand (sd_nonce d), EvEncrypt dek (sd_nonce d) (sd_aad d)] @ sd_wrap d
       @ [EvWrap (au_PublicKey aud) dek])"
proof -
  from assms(1) obtain aad combined nonce s1 wrapped epk s2 where
    d: "AAD P aadCtx (au_Name aud) SupportedSpecVersion = Inr aad"
    "Encrypt P dek (raw_bytes g) aad s = (Inr (combined, nonce), s1)"
    "kw_Wrap (wrapper_of P) (au_PublicKey aud) dek s1 = (Inr (wrapped, epk), s2)"
    "s' = emit (EvWrap (au_PublicKey aud) dek) s2"
    by (auto simp: seal_segment_with_def Let_def split: sum.splits prod.splits if_splits)
  from Encrypt_Inr [OF d(2)] have e: "length nonce = 12" "advances s s1 [EvRand nonce, EvEncrypt dek nonce aad]"
    by simp_all
  from wrap_advances [OF d(3)] obtain es where es: "advances s1 s2 es" "only_draws es"
    unfolding only_draws_def by blast
  let ?d = "\<lparr> sd_dek = dek, sd_nonce = nonce, sd_aad = aad, sd_wrap = es \<rparr>"
  have "advances s s' (([EvRand nonce, EvEncrypt dek nonce aad] @ es) @ [EvWrap (au_PublicKey aud) dek])"
    unfolding d(4) by (rule advances_emit [OF advances_trans [OF e(2) es(1)]]) simp
  then show thesis
    using e(1) es(2) assms(2) d(1) by (intro that [of ?d]) (simp_all add: draws_ok_def)
qed

text \<open>
  Whatever the outcome of sealing a segment, a data key that was drawn is zeroed, and that
  is the last thing that happens.
\<close>

lemma sealSegment_zeroes:
  assumes "sealSegment P (wrapper_of P) aadCtx aud g s = (r, s')"
  shows "(\<exists>e. r = Inl e) \<and> s' = s \<or>
    (\<exists>dek es. length dek = 32 \<and> advances s s' (EvRand dek # es @ [EvZero dek]) \<and>
       (\<forall>q. EvSign q \<notin> set es))"
proof (cases "NewDEK s")
  fix x s1 assume dek: "NewDEK s = (x, s1)"
  show ?thesis
  proof (cases x)
    case (Inl e)
    with dek have "s1 = s" by (auto simp: NewDEK_def dest: rand_read_error split: prod.splits sum.splits)
    with assms dek Inl show ?thesis by (auto simp: sealSegment_def)
  next
    case (Inr k)
    obtain s2 where s2: "seal_segment_with P (wrapper_of P) aadCtx aud g k s1 = (r, s2)"
      "s' = emit (EvZero k) s2"
      using assms dek Inr by (auto simp: sealSegment_def split: prod.splits)
    from seal_segment_with_advances [OF s2(1)] obtain es where es: "advances s1 s2 es" "\<forall>q. EvSign q \<notin> set es"
      by blast
    have k: "length k = 32" "advances s s1 [EvRand k]" using NewDEK_Inr dek Inr by blast+
    have "advances s s' (([EvRand k] @ es) @ [EvZero k])"
      unfolding s2(2) by (rule advances_emit [OF advances_trans [OF k(2) es(1)]]) simp
    with k(1) es(2) show ?thesis by auto
  qed
qed

lemma seal_loop_advances:
  assumes "seal_loop P (wrapper_of P) aadCtx segs auds acc s = (r, s')"
  shows "\<exists>es. advances s s' es \<and> (\<forall>q. EvSign q \<notin> set es)"
  using assms
proof (induction auds arbitrary: acc s)
  case (Cons aud auds)
  obtain x s1 where x: "sealSegment P (wrapper_of P) aadCtx aud (segment_plaintext segs (au_Name aud)) s = (x, s1)"
    by fastforce
  from sealSegment_zeroes [OF x] obtain es where es: "advances s s1 es" "\<forall>q. EvSign q \<notin> set es"
    by (elim disjE conjE exE) (force intro: that [of "[]"], force intro: that)
  let ?s2 = "emit (EvThumbprint (au_PublicKey aud)) s1"
  have s2: "advances s ?s2 (es @ [EvThumbprint (au_PublicKey aud)])"
    by (rule advances_emit [OF es(1)]) simp
  show ?case
  proof (cases x)
    case (Inl e)
    with Cons.prems x es show ?thesis by auto
  next
    case (Inr y)
    obtain seg sealed ph where y: "y = (seg, sealed, ph)" by (cases y)
    show ?thesis
    proof (cases "kw_Thumbprint (wrapper_of P) (au_PublicKey aud)")
      case (Inl e)
      with Cons.prems x Inr y s2 es(2) show ?thesis by (auto intro!: exI [of _ "es @ [EvThumbprint (au_PublicKey aud)]"])
    next
      case jkt: (Inr jkt)
      with Cons.prems x Inr y have
        "seal_loop P (wrapper_of P) aadCtx segs auds (add_sealed aud seg sealed ph jkt acc) ?s2 = (r, s')"
        by simp
      from Cons.IH [OF this] obtain fs where "advances ?s2 s' fs" "\<forall>q. EvSign q \<notin> set fs" by blast
      with advances_trans [OF s2] es(2) show ?thesis
        by (intro exI [of _ "(es @ [EvThumbprint (au_PublicKey aud)]) @ fs"]) simp
    qed
  qed
qed (auto intro: exI [of _ "[]"])

lemma sealSegment_events:
  assumes "sealSegment P (wrapper_of P) aadCtx aud g s = (Inr x, s')"
  obtains d where "draws_ok P aadCtx aud d"
    "advances s (emit (EvThumbprint (au_PublicKey aud)) s') (segment_events aud d)"
proof -
  from assms obtain dek s1 s2 where k: "NewDEK s = (Inr dek, s1)"
    "seal_segment_with P (wrapper_of P) aadCtx aud g dek s1 = (Inr x, s2)" "s' = emit (EvZero dek) s2"
    by (auto simp: sealSegment_def split: sum.splits prod.splits)
  have dek: "length dek = 32" "advances s s1 [EvRand dek]" using NewDEK_Inr [OF k(1)] by simp_all
  from k(2) dek(1) obtain d where d: "draws_ok P aadCtx aud d" "sd_dek d = dek"
    "advances s1 s2 ([EvRand (sd_nonce d), EvEncrypt dek (sd_nonce d) (sd_aad d)] @ sd_wrap d
       @ [EvWrap (au_PublicKey aud) dek])"
    by (rule seal_segment_with_events)
  from advances_trans [OF dek(2) d(3)] have "advances s s2 ([EvRand dek] @ [EvRand (sd_nonce d),
      EvEncrypt dek (sd_nonce d) (sd_aad d)] @ sd_wrap d @ [EvWrap (au_PublicKey aud) dek])" .
  then show thesis
    using d(1,2) by (intro that [of d]) (simp_all add: advances_def segment_events_def k(3))
qed

lemma seal_loop_events:
  assumes "seal_loop P (wrapper_of P) aadCtx segs auds acc s = (Inr acc', s')"
  shows "\<exists>ds. list_all2 (draws_ok P aadCtx) auds ds \<and>
    advances s s' (concat (map2 segment_events auds ds))"
  using assms
proof (induction auds arbitrary: acc s)
  case (Cons aud auds)
  from Cons.prems obtain seg sealed ph jkt s1 where
    x: "sealSegment P (wrapper_of P) aadCtx aud (segment_plaintext segs (au_Name aud)) s = (Inr (seg, sealed, ph), s1)"
    and rest: "seal_loop P (wrapper_of P) aadCtx segs auds (add_sealed aud seg sealed ph jkt acc)
       (emit (EvThumbprint (au_PublicKey aud)) s1) = (Inr acc', s')"
    by (rule seal_loop_step)
  from x obtain d where d: "draws_ok P aadCtx aud d"
    "advances s (emit (EvThumbprint (au_PublicKey aud)) s1) (segment_events aud d)"
    by (rule sealSegment_events)
  from Cons.IH [OF rest] obtain ds where "list_all2 (draws_ok P aadCtx) auds ds"
    "advances (emit (EvThumbprint (au_PublicKey aud)) s1) s' (concat (map2 segment_events auds ds))" by blast
  with d advances_trans [OF d(2)] show ?case by (intro exI [of _ "d # ds"]) simp
qed (auto intro: exI [of _ "[]"])

text \<open>The whole trace of a successful \<open>Seal\<close>.\<close>

lemma Seal_events:
  assumes "Seal P req si (wrapper_of P) iv s = (Inr p, s')"
  shows "\<exists>idb ds view. length idb = 16 \<and> pk_package_id p = ''pkg_'' @ hex_encode idb \<and>
    list_all2 (draws_ok P (mf_aad_context (pk_manifest p))) (sr_Audiences req) ds \<and>
    BuildSigningView P p = Inr view \<and>
    advances s s' ([EvCheck (sr_IntentRef req), EvConstraintsHash (sr_IntentRef req), EvRand idb]
      @ concat (map2 segment_events (sr_Audiences req) ds) @ [EvKid, EvSign view])"
proof -
  let ?s1 = "emit (EvConstraintsHash (sr_IntentRef req)) (emit (EvCheck (sr_IntentRef req)) s)"
  from assms obtain decision ch where "seal_authorized P req si (wrapper_of P) ch ?s1 = (Inr p, s')"
    by (rule Seal_authorized)
  then obtain pid s2 acc s3 root commitment extra where
    pid: "newPackageID ?s1 = (Inr pid, s2)" and
    loop: "seal_loop P (wrapper_of P) \<lparr> ac_package_id = pid, ac_tenant_id = sr_TenantID req,
       ac_environment = sr_Environment req \<rparr> (sr_Segments req) (sr_Audiences req) seal_acc0 s2
     = (Inr acc, s3)" and
    sign: "signPackage P si (unsigned_package req pid \<lparr> ac_package_id = pid,
       ac_tenant_id = sr_TenantID req, ac_environment = sr_Environment req \<rparr> ch acc root commitment
       extra) s3 = (Inr p, s')"
    by (rule seal_authorized_Inr)
  let ?ctx = "\<lparr> ac_package_id = pid, ac_tenant_id = sr_TenantID req,
    ac_environment = sr_Environment req \<rparr>"
  let ?u = "unsigned_package req pid ?ctx ch acc root commitment extra"
  from newPackageID_Inr [OF pid] obtain idb where idb: "length idb = 16" "pid = ''pkg_'' @ hex_encode idb"
    "advances ?s1 s2 [EvRand idb]" by blast
  from seal_loop_events [OF loop] obtain ds where ds: "list_all2 (draws_ok P ?ctx) (sr_Audiences req) ds"
    "advances s2 s3 (concat (map2 segment_events (sr_Audiences req) ds))" by blast
  from sign obtain kid view sig where view: "BuildSigningView P (?u\<lparr>pk_issuer := (pk_issuer ?u)\<lparr>iss_kid := kid\<rparr>\<rparr>) = Inr view"
    and p: "p = ?u\<lparr>pk_issuer := (pk_issuer ?u)\<lparr>iss_kid := kid\<rparr>,
           pk_signature := \<lparr> sn_alg = signatureAlg, sn_kid = kid,
                            sn_signed_fields = RequiredSignedFields,
                            sn_value = EncodeSignatureValue sig \<rparr>\<rparr>"
    and s': "s' = emit (EvSign view) (emit EvKid s3)"
    by (rule signPackage_Inr)
  have "BuildSigningView P p = Inr view"
    using view by (simp add: p BuildSigningView_def signingViewFields_def)
  moreover have "pk_package_id p = pid" "mf_aad_context (pk_manifest p) = ?ctx"
    by (simp_all add: p unsigned_package_def)
  moreover have "advances s s' ([EvCheck (sr_IntentRef req), EvConstraintsHash (sr_IntentRef req), EvRand idb]
      @ concat (map2 segment_events (sr_Audiences req) ds) @ [EvKid, EvSign view])"
    using advances_trans [OF idb(3) ds(2)] by (simp add: advances_def s')
  ultimately show ?thesis
    using idb(1,2) ds(1) by (intro exI [of _ idb] exI [of _ ds] exI [of _ view]) simp
qed

lemma seal_authorized_advances:
  assumes "seal_authorized P req si (wrapper_of P) ch s = (r, s')"
  shows "\<exists>es. advances s s' es"
proof -
  let ?ok = "\<lambda>t. \<exists>es. advances s t es"
  have pid: "?ok t" if "newPackageID s = (x, t)" for x t
    using that newPackageID_Inr [of s _ t]
    by (cases x) (auto simp: newPackageID_def dest: rand_read_error intro: exI [of _ "[]"]
        split: prod.splits sum.splits)
  have loop: "?ok u" if "?ok t" "seal_loop P (wrapper_of P) c segs auds acc t = (x, u)" for c segs auds acc x t u
  proof -
    from that(1) obtain es where es: "advances s t es" by blast
    from seal_loop_advances [OF that(2)] obtain fs where "advances t u fs" by blast
    from advances_trans [OF es this] show ?thesis by blast
  qed
  have sign: "?ok u" if "?ok t" "signPackage P si q t = (x, u)" for q x t u
  proof -
    from that(1) obtain es where es: "advances s t es" by blast
    from that(2) have "u = emit EvKid t \<or> (\<exists>v. u = emit (EvSign v) (emit EvKid t))"
      by (auto simp: signPackage_def Let_def split: sum.splits)
    moreover have kid: "advances s (emit EvKid t) (es @ [EvKid])"
      by (rule advances_emit [OF es]) simp
    moreover have "advances s (emit (EvSign v) (emit EvKid t)) ((es @ [EvKid]) @ [EvSign v])" for v
      by (rule advances_emit [OF kid]) simp
    ultimately show ?thesis by blast
  qed
  obtain x s1 where n: "newPackageID s = (x, s1)" by fastforce
  show ?thesis
  proof (cases x)
    case (Inl e)
    with assms n have "s' = s1" by (simp add: seal_authorized_def)
    with pid [OF n] show ?thesis by simp
  next
    case (Inr i)
    obtain y s2 where l: "seal_loop P (wrapper_of P) \<lparr> ac_package_id = i, ac_tenant_id = sr_TenantID req,
      ac_environment = sr_Environment req \<rparr> (sr_Segments req) (sr_Audiences req) seal_acc0 s1 = (y, s2)"
      by fastforce
    have "s' = s2 \<or> (\<exists>u z. signPackage P si u s2 = (z, s'))"
      using assms n Inr l by (auto simp: seal_authorized_def Let_def split: sum.splits prod.splits)
    then show ?thesis
    proof
      assume "s' = s2"
      with loop [OF pid [OF n] l] show ?thesis by simp
    next
      assume "\<exists>u z. signPackage P si u s2 = (z, s')"
      then obtain u z where "signPackage P si u s2 = (z, s')" by blast
      from sign [OF loop [OF pid [OF n] l] this] show ?thesis .
    qed
  qed
qed

text \<open>Every run, failed ones included, asks the authority before anything else happens.\<close>

lemma Seal_authority_first:
  assumes "Seal P req si (wrapper_of P) iv s = (r, s')"
  shows "\<exists>es. advances s s' es \<and>
    (es \<in> {[], [EvCheck (sr_IntentRef req)]} \<or>
     take 2 es = [EvCheck (sr_IntentRef req), EvConstraintsHash (sr_IntentRef req)] \<and>
     (drop 2 es \<noteq> [] \<longrightarrow>
        (\<exists>d ch. iv_Check iv (sr_IntentRef req) (sr_Projection req) = Inr d \<and> id_Allowed d \<and>
           iv_ConstraintsHash iv (sr_IntentRef req) = Inr ch)))"
proof (cases "sr_Audiences req = [] \<or> checkAudiences req \<noteq> Inr ()
    \<or> (\<nexists>d. iv_Check iv (sr_IntentRef req) (sr_Projection req) = Inr d \<and> id_Allowed d)")
  case True
  then have "s' = s \<or> s' = emit (EvCheck (sr_IntentRef req)) s"
    using assms by (auto simp: Seal_def Let_def split: if_splits sum.splits)
  then show ?thesis
    using advances_emit [OF advances_refl [of s], of "EvCheck (sr_IntentRef req)"] by auto
next
  case False
  then obtain d where d: "iv_Check iv (sr_IntentRef req) (sr_Projection req) = Inr d" "id_Allowed d" by auto
  let ?two = "[EvCheck (sr_IntentRef req), EvConstraintsHash (sr_IntentRef req)]"
  let ?s1 = "emit (EvConstraintsHash (sr_IntentRef req)) (emit (EvCheck (sr_IntentRef req)) s)"
  have two: "advances s ?s1 ?two" by (simp add: advances_def)
  show ?thesis
  proof (cases "iv_ConstraintsHash iv (sr_IntentRef req)")
    case (Inl e)
    with assms False d have "s' = ?s1" by (auto simp: Seal_def Let_def split: sum.splits)
    with two show ?thesis by (intro exI [of _ ?two]) simp
  next
    case (Inr ch)
    with assms False d have "seal_authorized P req si (wrapper_of P) ch ?s1 = (r, s')"
      by (auto simp: Seal_def Let_def split: sum.splits)
    then obtain fs where "advances ?s1 s' fs" using seal_authorized_advances by blast
    from advances_trans [OF two this] d Inr show ?thesis
      by (intro exI [of _ "?two @ fs"]) simp
  qed
qed

end

text \<open>
  An authority that cannot be reached, or that refuses, stops the seal: no package, no
  entropy drawn, nothing done but asking.
\<close>

lemma Seal_fails_closed:
  assumes "Seal P req si w iv s = (r, s')"
    and "\<not> (\<exists>d ch. iv_Check iv (sr_IntentRef req) (sr_Projection req) = Inr d \<and> id_Allowed d \<and>
           iv_ConstraintsHash iv (sr_IntentRef req) = Inr ch)"
  shows "(\<exists>e. r = Inl e) \<and> entropy s' = entropy s \<and>
    trace s' \<in> (\<lambda>es. trace s @ es) ` {[], [EvCheck (sr_IntentRef req)],
      [EvCheck (sr_IntentRef req), EvConstraintsHash (sr_IntentRef req)]}"
  using assms by (auto simp: Seal_def Let_def split: if_splits sum.splits)

lemma Seal_unreachable:
  assumes "iv_Check iv (sr_IntentRef req) (sr_Projection req) = Inl e"
    and "sr_Audiences req \<noteq> []" "checkAudiences req = Inr ()"
  shows "Seal P req si w iv s =
    (Inl (errorf ''chainbind: seal: intent authority unreachable: '' e), emit (EvCheck (sr_IntentRef req)) s)"
  using assms by (simp add: Seal_def Let_def)

lemma Seal_denied:
  assumes "iv_Check iv (sr_IntentRef req) (sr_Projection req) = Inr d" "\<not> id_Allowed d"
    and "sr_Audiences req \<noteq> []" "checkAudiences req = Inr ()"
  shows "Seal P req si w iv s =
    (Inl (Wrapped ''chainbind: seal: '' (Sentinel ErrIntentDenied) ('': '' @ id_Reason d)),
     emit (EvCheck (sr_IntentRef req)) s)"
  using assms by (simp add: Seal_def Let_def)

end
