(* ===== verification/Verify.thy ===== *)
theory Verify
  imports Ports
begin

text \<open>
  \<^verbatim>\<open>pkg/chainbind/verify.go\<close>: the structural parse, the keyless Level 1 checks, the
  authority-backed Level 2, and the report with its verdicts. \<open>Verify_w\<close> and \<open>verifyIntent_w\<close>
  thread the world, in which the one question to the authority leaves its event; the report is
  a function of the package, the trust store and the authority's answers, and \<open>Verify\<close> and
  \<open>verifyIntent\<close> are the two operations without their world. The abstract
  specification \<open>level1_valid\<close>/\<open>intent_valid\<close> at the end says what a passing report means.
\<close>

section \<open>Faults and reports\<close>

datatype StructuralFault =
    FaultNone
  | FaultEmptySignedFields
  | FaultEmptySegmentOrder
  | FaultSegmentCountMismatch
  | FaultDuplicateAudience
  | FaultManifestSegmentMissing
  | FaultSealedSegmentMissing
  | FaultSignedFieldsInvalid
  | FaultSigningViewUnbuildable
  | FaultSignatureUndecodable

definition all_faults :: "StructuralFault list" where
  \<comment> \<open>\<^verbatim>\<open>for v := FaultNone; v <= FaultSignatureUndecodable; v++\<close>\<close>
  "all_faults = [FaultNone, FaultEmptySignedFields, FaultEmptySegmentOrder,
     FaultSegmentCountMismatch, FaultDuplicateAudience, FaultManifestSegmentMissing,
     FaultSealedSegmentMissing, FaultSignedFieldsInvalid, FaultSigningViewUnbuildable,
     FaultSignatureUndecodable]"

definition fault_String :: "StructuralFault \<Rightarrow> string" where
  "fault_String f = (case f of
      FaultNone \<Rightarrow> ''no structural fault''
    | FaultEmptySignedFields \<Rightarrow> ''signature.signed_fields is empty''
    | FaultEmptySegmentOrder \<Rightarrow> ''manifest.segment_order is empty''
    | FaultSegmentCountMismatch \<Rightarrow> ''manifest.segments count does not match segment_order count''
    | FaultDuplicateAudience \<Rightarrow> ''an audience is listed twice in segment_order''
    | FaultManifestSegmentMissing \<Rightarrow> ''an audience in segment_order has no manifest.segments entry''
    | FaultSealedSegmentMissing \<Rightarrow> ''an audience in segment_order has no sealed segments entry''
    | FaultSignedFieldsInvalid \<Rightarrow> ''signature.signed_fields does not name the required fields''
    | FaultSigningViewUnbuildable \<Rightarrow> ''the signing view could not be canonicalized''
    | FaultSignatureUndecodable \<Rightarrow> ''signature value could not be decoded'')"

definition fault_MarshalJSON :: "StructuralFault \<Rightarrow> goval" where
  "fault_MarshalJSON f = VStr (fault_String f)"

text \<open>\<^verbatim>\<open>json.Unmarshal\<close> into a string variable: null leaves it empty.\<close>

definition fault_UnmarshalJSON :: "goval \<Rightarrow> StructuralFault res" where
  "fault_UnmarshalJSON v =
     (case (case v of VStr s \<Rightarrow> Inr s | VNull \<Rightarrow> Inr [] | _ \<Rightarrow> Inl ()) of
        Inl _ \<Rightarrow> Inl (LibErr ''json: cannot unmarshal value into Go value of type string'')
      | Inr s \<Rightarrow>
          (case find (\<lambda>f. fault_String f = s) all_faults of
             Some f \<Rightarrow> Inr f
           | None \<Rightarrow> Inl (LibErr ''chainbind: unrecognised structural fault'')))"

record intent_result =
  ir_Evaluated :: bool
  ir_Valid :: bool
  ir_Reason :: string

text \<open>Nil maps (\<open>None\<close>) are checks that were never evaluated.\<close>

record report =
  rp_SpecVersionSupported :: bool
  rp_Structural :: StructuralFault
  rp_Signature :: bool
  rp_AADContextConsistent :: bool
  rp_CipherHashes :: "(string, bool) fmap option"
  rp_SegmentsRoot :: bool
  rp_ProfileBindings :: "(string, bool) fmap option"
  rp_Intent :: intent_result

definition report0 :: report where
  "report0 =
     \<lparr> rp_SpecVersionSupported = False, rp_Structural = FaultNone, rp_Signature = False,
       rp_AADContextConsistent = False, rp_CipherHashes = None, rp_SegmentsRoot = False,
       rp_ProfileBindings = None,
       rp_Intent = \<lparr> ir_Evaluated = False, ir_Valid = False, ir_Reason = [] \<rparr> \<rparr>"

text \<open>A loop over a map of booleans that returns at the first false value.\<close>

definition all_true :: "(string, bool) fmap option \<Rightarrow> bool" where
  "all_true m = (case m of None \<Rightarrow> True | Some m \<Rightarrow> list_all snd (entries m))"

definition map_len :: "(string, bool) fmap option \<Rightarrow> nat" where
  "map_len m = (case m of None \<Rightarrow> 0 | Some m \<Rightarrow> count m)"

definition level1Passed :: "report \<Rightarrow> bool" where
  "level1Passed r =
     (if rp_Structural r \<noteq> FaultNone then False
      else if \<not> rp_SpecVersionSupported r \<or> \<not> rp_Signature r \<or> \<not> rp_AADContextConsistent r
              \<or> \<not> rp_SegmentsRoot r then False
      else if map_len (rp_CipherHashes r) = 0 then False
      else if \<not> all_true (rp_CipherHashes r) then False
      else if \<not> all_true (rp_ProfileBindings r) then False
      else True)"

definition report_Level1 :: "report option \<Rightarrow> bool" where
  "report_Level1 r = (case r of None \<Rightarrow> False | Some r \<Rightarrow> level1Passed r)"

definition report_OK :: "report option \<Rightarrow> bool" where
  "report_OK r =
     (case r of None \<Rightarrow> False
      | Some r \<Rightarrow> level1Passed r \<and> ir_Evaluated (rp_Intent r) \<and> ir_Valid (rp_Intent r))"

section \<open>Level 1\<close>

record verify_options =
  vo_IssuerKey :: "(string \<Rightarrow> string \<Rightarrow> bytes option) option"
  vo_Intent :: "intent_verifier option"
  vo_BindingSpecs :: "binding_spec list"

definition specVersionSupported :: "string \<Rightarrow> bool" where
  "specVersionSupported v = (CheckSpecVersion v = Inr ())"

fun parse_order ::
  "(string, segment) fmap \<Rightarrow> (string, sealed_segment) fmap \<Rightarrow> string list \<Rightarrow> string list \<Rightarrow> StructuralFault" where
  "parse_order msegs ssegs seen [] = FaultNone"
| "parse_order msegs ssegs seen (a # as) =
     (if a \<in> set seen then FaultDuplicateAudience
      else if fmlookup msegs a = None then FaultManifestSegmentMissing
      else if fmlookup ssegs a = None then FaultSealedSegmentMissing
      else parse_order msegs ssegs (a # seen) as)"

definition parsePackage :: "prims \<Rightarrow> package \<Rightarrow> bytes \<times> bytes \<times> StructuralFault" where
  "parsePackage P p =
     (if sn_signed_fields (pk_signature p) = [] then ([], [], FaultEmptySignedFields)
      else if mf_segment_order (pk_manifest p) = [] then ([], [], FaultEmptySegmentOrder)
      else if count (mf_segments (pk_manifest p)) \<noteq> length (mf_segment_order (pk_manifest p))
      then ([], [], FaultSegmentCountMismatch)
      else
     (case parse_order (mf_segments (pk_manifest p)) (pk_segments p) []
             (mf_segment_order (pk_manifest p)) of
        FaultNone \<Rightarrow>
     (case checkSignedFields (sn_signed_fields (pk_signature p)) of
        Inl _ \<Rightarrow> ([], [], FaultSignedFieldsInvalid)
      | Inr _ \<Rightarrow>
     (case ReconstructSigningView P p of
        Inl _ \<Rightarrow> ([], [], FaultSigningViewUnbuildable)
      | Inr view \<Rightarrow>
     (case DecodeSignatureValue (sn_value (pk_signature p)) of
        Inl _ \<Rightarrow> ([], [], FaultSignatureUndecodable)
      | Inr sig \<Rightarrow> (view, sig, FaultNone))))
      | fault \<Rightarrow> ([], [], fault)))"

definition resolveIssuerKey ::
  "(string \<Rightarrow> string \<Rightarrow> bytes option) option \<Rightarrow> string \<Rightarrow> string \<Rightarrow> bytes option" where
  "resolveIssuerKey resolve iss kid = (case resolve of None \<Rightarrow> None | Some f \<Rightarrow> f iss kid)"

definition verifyEd25519 :: "prims \<Rightarrow> bytes \<Rightarrow> bytes \<Rightarrow> bytes \<Rightarrow> bool" where
  "verifyEd25519 P pub message sig =
     (if length pub \<noteq> 32 \<or> length sig \<noteq> 64 then False else ed25519_verify P pub message sig)"

definition checkCipherHash :: "prims \<Rightarrow> segment \<Rightarrow> sealed_segment \<Rightarrow> bool" where
  "checkCipherHash P seg sealed =
     (case raw_url_decode (ss_ciphertext sealed) of
        None \<Rightarrow> False
      | Some ciphertext \<Rightarrow>
     (case raw_url_decode (ss_tag sealed) of
        None \<Rightarrow> False
      | Some tag \<Rightarrow> H P (ciphertext @ tag) = sg_cipher_hash seg))"

definition segment0 :: segment where
  "segment0 = \<lparr> sg_audience = [], sg_kid = [], sg_alg = [], sg_wrap_alg = [],
                sg_plain_hash = [], sg_cipher_hash = [] \<rparr>"

definition sealed_segment0 :: sealed_segment where
  "sealed_segment0 = \<lparr> ss_epk = \<lparr> ep_kty = [], ep_crv = [], ep_x = [] \<rparr>, ss_dek_wrapped = [],
                       ss_nonce = [], ss_ciphertext = [], ss_tag = [] \<rparr>"

definition manifest_segment :: "package \<Rightarrow> string \<Rightarrow> segment" where
  \<comment> \<open>\<^verbatim>\<open>p.Manifest.Segments[a]\<close>, the zero value when absent\<close>
  "manifest_segment p a =
     (case fmlookup (mf_segments (pk_manifest p)) a of None \<Rightarrow> segment0 | Some s \<Rightarrow> s)"

definition package_segment :: "package \<Rightarrow> string \<Rightarrow> sealed_segment" where
  "package_segment p a =
     (case fmlookup (pk_segments p) a of None \<Rightarrow> sealed_segment0 | Some s \<Rightarrow> s)"

fun cipher_loop ::
  "prims \<Rightarrow> package \<Rightarrow> string list \<Rightarrow> (string, string) fmap \<Rightarrow> (string, bool) fmap \<Rightarrow>
     (string, string) fmap \<times> (string, bool) fmap" where
  "cipher_loop P p [] plainHash hashes = (plainHash, hashes)"
| "cipher_loop P p (a # as) plainHash hashes =
     cipher_loop P p as
       (fmupd a (sg_plain_hash (manifest_segment p a)) plainHash)
       (fmupd a (checkCipherHash P (manifest_segment p a) (package_segment p a)) hashes)"

fun binding_loop ::
  "binding_context \<Rightarrow> (string, string) fmap \<Rightarrow> binding_spec list \<Rightarrow> (string, bool) fmap \<Rightarrow>
     (string, bool) fmap" where
  "binding_loop bctx extra [] out = out"
| "binding_loop bctx extra (spec # specs) out =
     binding_loop bctx extra specs
       (fmupd (bs_name spec)
          (case bs_compute spec bctx of
             Inl _ \<Rightarrow> False
           | Inr v \<Rightarrow> v = lookup_or_empty extra (bs_name spec)) out)"

definition res_or_empty :: "string res \<Rightarrow> string" where
  "res_or_empty r = (case r of Inl _ \<Rightarrow> [] | Inr s \<Rightarrow> s)"

section \<open>Level 2\<close>

text \<open>
  The one question \<open>Verify\<close> asks leaves its event, whether or not the authority answers.
\<close>

definition verifyIntent_w ::
  "prims \<Rightarrow> package \<Rightarrow> intent_verifier option \<Rightarrow> report \<Rightarrow> world \<Rightarrow> report \<times> world" where
  "verifyIntent_w P p iv r w =
     (case iv of
        None \<Rightarrow> (r\<lparr>rp_Intent := \<lparr> ir_Evaluated = False, ir_Valid = False,
                                  ir_Reason = ''intent authority not configured'' \<rparr>\<rparr>, w)
      | Some iv \<Rightarrow>
        let w = emit (EvConstraintsHash (in_intent_ref (pk_intent p))) w in
     (case iv_ConstraintsHash iv (in_intent_ref (pk_intent p)) of
        Inl _ \<Rightarrow> (r\<lparr>rp_Intent := \<lparr> ir_Evaluated = False, ir_Valid = False,
                                   ir_Reason = ''intent authority unreachable'' \<rparr>\<rparr>, w)
      | Inr authoritativeHash \<Rightarrow>
        let r = r\<lparr>rp_Intent := (rp_Intent r)\<lparr>ir_Evaluated := True\<rparr>\<rparr> in
        if authoritativeHash \<noteq> in_constraints_hash (pk_intent p)
        then (r\<lparr>rp_Intent := (rp_Intent r)\<lparr>ir_Reason := ''constraints_hash does not match the authority''\<rparr>\<rparr>, w)
        else
     (case IntentCommitment P (in_intent_ref (pk_intent p)) authoritativeHash
             (bd_segments_root (pk_bindings p)) of
        Inl _ \<Rightarrow> (r\<lparr>rp_Intent := (rp_Intent r)\<lparr>ir_Reason := ''failed to recompute intent commitment''\<rparr>\<rparr>, w)
      | Inr commitment \<Rightarrow>
        if commitment \<noteq> bd_intent_commitment (pk_bindings p)
        then (r\<lparr>rp_Intent := (rp_Intent r)\<lparr>ir_Reason := ''intent commitment does not match''\<rparr>\<rparr>, w)
        else (r\<lparr>rp_Intent := (rp_Intent r)\<lparr>ir_Valid := True\<rparr>\<rparr>, w))))"

text \<open>The report alone does not depend on the world.\<close>

definition verifyIntent ::
  "prims \<Rightarrow> package \<Rightarrow> intent_verifier option \<Rightarrow> report \<Rightarrow> report" where
  "verifyIntent P p iv r = answer_of (verifyIntent_w P p iv r)"

section \<open>Verify\<close>

text \<open>Everything after the signature has been accepted, up to the end of Level 1.\<close>

definition verify_content :: "prims \<Rightarrow> package \<Rightarrow> verify_options \<Rightarrow> report \<Rightarrow> report" where
  "verify_content P p opt r =
     (let r = r\<lparr>rp_AADContextConsistent :=
                 (ac_package_id (mf_aad_context (pk_manifest p)) = pk_package_id p)\<rparr>;
          (plainHash, hashes) = cipher_loop P p (mf_segment_order (pk_manifest p)) fmempty fmempty;
          r = r\<lparr>rp_CipherHashes := Some hashes\<rparr>;
          recomputedRoot = SegmentsRoot P (mf_segment_order (pk_manifest p)) plainHash;
          r = r\<lparr>rp_SegmentsRoot := (recomputedRoot = Inr (bd_segments_root (pk_bindings p)))\<rparr>
      in
      if vo_BindingSpecs opt \<noteq> []
      then r\<lparr>rp_ProfileBindings :=
               Some (binding_loop
                 \<lparr> bc_plain_hash = plainHash,
                   bc_intent_ref = in_intent_ref (pk_intent p),
                   bc_constraints_hash = in_constraints_hash (pk_intent p),
                   bc_segments_root = res_or_empty recomputedRoot \<rparr>
                 (bd_extra (pk_bindings p)) (vo_BindingSpecs opt) fmempty)\<rparr>
      else r)"

definition Verify_w :: "prims \<Rightarrow> package option \<Rightarrow> verify_options \<Rightarrow> world \<Rightarrow> report res \<times> world" where
  "Verify_w P pkg opt w =
     (case pkg of
        None \<Rightarrow> (Inl (Sentinel ErrNilPackage), w)
      | Some p \<Rightarrow>
        let r = report0 in
        if \<not> specVersionSupported (pk_spec_version p) then (Inr r, w)
        else
        let r = r\<lparr>rp_SpecVersionSupported := True\<rparr> in
     (case parsePackage P p of
        (view, sig, fault) \<Rightarrow>
        if fault \<noteq> FaultNone then (Inr (r\<lparr>rp_Structural := fault\<rparr>), w)
        else
     (case resolveIssuerKey (vo_IssuerKey opt) (iss_iss (pk_issuer p)) (iss_kid (pk_issuer p)) of
        None \<Rightarrow> (Inr r, w)
      | Some pub \<Rightarrow>
        if \<not> verifyEd25519 P pub view sig then (Inr r, w)
        else
        let r = verify_content P p opt (r\<lparr>rp_Signature := True\<rparr>) in
        if \<not> level1Passed r then (Inr r, w)
        else
     (case verifyIntent_w P p (vo_Intent opt) r w of (r, w) \<Rightarrow> (Inr r, w)))))"

text \<open>What \<open>Verify\<close> returns, which is the same in every world.\<close>

definition Verify :: "prims \<Rightarrow> package option \<Rightarrow> verify_options \<Rightarrow> report res" where
  "Verify P pkg opt = answer_of (Verify_w P pkg opt)"

section \<open>The report and the question\<close>

text \<open>What is returned, without the world; and the world afterwards.\<close>

lemma verifyIntent_w_eq:
  "verifyIntent_w P p iv r w =
     (verifyIntent P p iv r, if iv = None then w else emit (EvConstraintsHash (in_intent_ref (pk_intent p))) w)"
  by (auto simp: verifyIntent_def answer_of_def verifyIntent_w_def Let_def split: option.split sum.split)

lemma verifyIntent_eq:
  "verifyIntent P p iv r =
     (case iv of
        None \<Rightarrow> r\<lparr>rp_Intent := \<lparr> ir_Evaluated = False, ir_Valid = False,
                                 ir_Reason = ''intent authority not configured'' \<rparr>\<rparr>
      | Some iv \<Rightarrow>
     (case iv_ConstraintsHash iv (in_intent_ref (pk_intent p)) of
        Inl _ \<Rightarrow> r\<lparr>rp_Intent := \<lparr> ir_Evaluated = False, ir_Valid = False,
                                  ir_Reason = ''intent authority unreachable'' \<rparr>\<rparr>
      | Inr authoritativeHash \<Rightarrow>
        let r = r\<lparr>rp_Intent := (rp_Intent r)\<lparr>ir_Evaluated := True\<rparr>\<rparr> in
        if authoritativeHash \<noteq> in_constraints_hash (pk_intent p)
        then r\<lparr>rp_Intent := (rp_Intent r)\<lparr>ir_Reason := ''constraints_hash does not match the authority''\<rparr>\<rparr>
        else
     (case IntentCommitment P (in_intent_ref (pk_intent p)) authoritativeHash
             (bd_segments_root (pk_bindings p)) of
        Inl _ \<Rightarrow> r\<lparr>rp_Intent := (rp_Intent r)\<lparr>ir_Reason := ''failed to recompute intent commitment''\<rparr>\<rparr>
      | Inr commitment \<Rightarrow>
        if commitment \<noteq> bd_intent_commitment (pk_bindings p)
        then r\<lparr>rp_Intent := (rp_Intent r)\<lparr>ir_Reason := ''intent commitment does not match''\<rparr>\<rparr>
        else r\<lparr>rp_Intent := (rp_Intent r)\<lparr>ir_Valid := True\<rparr>\<rparr>)))"
  by (auto simp: verifyIntent_def answer_of_def verifyIntent_w_def Let_def split: option.split sum.split)

lemma verifyIntent_level1: "level1Passed (verifyIntent P p iv r) = level1Passed r"
  by (simp add: verifyIntent_eq level1Passed_def Let_def split: option.split sum.split)

lemma not_level1:
  "\<not> rp_Signature r \<Longrightarrow> \<not> level1Passed r" "rp_Structural r \<noteq> FaultNone \<Longrightarrow> \<not> level1Passed r"
  by (simp_all add: level1Passed_def)

lemma Verify_eq:
  "Verify P pkg opt =
     (case pkg of
        None \<Rightarrow> Inl (Sentinel ErrNilPackage)
      | Some p \<Rightarrow>
        let r = report0 in
        if \<not> specVersionSupported (pk_spec_version p) then Inr r
        else
        let r = r\<lparr>rp_SpecVersionSupported := True\<rparr> in
     (case parsePackage P p of
        (view, sig, fault) \<Rightarrow>
        if fault \<noteq> FaultNone then Inr (r\<lparr>rp_Structural := fault\<rparr>)
        else
     (case resolveIssuerKey (vo_IssuerKey opt) (iss_iss (pk_issuer p)) (iss_kid (pk_issuer p)) of
        None \<Rightarrow> Inr r
      | Some pub \<Rightarrow>
        if \<not> verifyEd25519 P pub view sig then Inr r
        else
        let r = verify_content P p opt (r\<lparr>rp_Signature := True\<rparr>) in
        if \<not> level1Passed r then Inr r
        else Inr (verifyIntent P p (vo_Intent opt) r))))"
  unfolding Verify_def answer_of_def Verify_w_def
  by (simp add: Let_def verifyIntent_w_eq split: option.split prod.split)

text \<open>The authority is asked once, and only about a package that has passed Level 1.\<close>

lemma Verify_w_eq:
  "Verify_w P pkg opt w =
     (Verify P pkg opt,
      case (pkg, Verify P pkg opt) of
        (Some p, Inr r) \<Rightarrow>
          if level1Passed r \<and> vo_Intent opt \<noteq> None then emit (EvConstraintsHash (in_intent_ref (pk_intent p))) w else w
      | _ \<Rightarrow> w)"
proof (cases pkg)
  case (Some p)
  obtain view sig fault where parse: "parsePackage P p = (view, sig, fault)" by (cases "parsePackage P p")
  have un: "\<not> level1Passed report0" "\<not> level1Passed (report0\<lparr>rp_SpecVersionSupported := True\<rparr>)"
    by (simp_all add: level1Passed_def report0_def)
  show ?thesis
    unfolding Verify_eq Verify_w_def Some
    by (auto simp: Let_def parse verifyIntent_w_eq verifyIntent_level1 un not_level1 split: option.split)
qed (simp add: Verify_eq Verify_w_def)

lemma Verify_w_fst: "fst (Verify_w P pkg opt w) = Verify P pkg opt"
  by (simp add: Verify_w_eq)

lemma Verify_w_Some:
  "Verify P (Some p) opt = Inr r \<Longrightarrow> Verify_w P (Some p) opt w =
     (Inr r, if level1Passed r \<and> vo_Intent opt \<noteq> None then emit (EvConstraintsHash (in_intent_ref (pk_intent p))) w else w)"
  by (simp add: Verify_w_eq)

section \<open>Faults\<close>

lemma fault_String_inject: "fault_String f = fault_String g \<Longrightarrow> f = g"
  by (cases f; cases g; simp add: fault_String_def)

lemma all_faults_complete: "f \<in> set all_faults"
  by (cases f) (simp_all add: all_faults_def)

lemma find_fault: "find (\<lambda>g. fault_String g = fault_String f) fs = Some f" if "f \<in> set fs"
  using that by (induction fs) (auto dest: fault_String_inject)

lemma fault_roundtrip: "fault_UnmarshalJSON (fault_MarshalJSON f) = Inr f"
  by (simp add: fault_UnmarshalJSON_def fault_MarshalJSON_def find_fault all_faults_complete)

lemma fault_Unmarshal_Inr: "fault_UnmarshalJSON v = Inr f \<Longrightarrow> v = fault_MarshalJSON f"
proof -
  assume un: "fault_UnmarshalJSON v = Inr f"
  have "fault_String g \<noteq> []" for g by (cases g) (simp_all add: fault_String_def)
  with un show ?thesis
    by (auto simp: fault_UnmarshalJSON_def fault_MarshalJSON_def find_Some_iff
        split: goval.splits option.splits)
qed

section \<open>The structural parse\<close>

lemma parse_order_None:
  "parse_order ms ss seen as = FaultNone \<longleftrightarrow>
     distinct as \<and> set as \<inter> set seen = {} \<and>
     set as \<subseteq> fset (fmdom ms) \<and> set as \<subseteq> fset (fmdom ss)"
  by (induction as arbitrary: seen) (auto simp: fmdom_iff)

text \<open>
  The shape a package must have: the manifest describes exactly the audiences of a
  duplicate-free, non-empty order, each has a sealed segment, and the nine required fields
  are listed once each.
\<close>

definition package_shape :: "package \<Rightarrow> bool" where
  "package_shape p \<longleftrightarrow>
     mf_segment_order (pk_manifest p) \<noteq> [] \<and> distinct (mf_segment_order (pk_manifest p)) \<and>
     set (mf_segment_order (pk_manifest p)) = fset (fmdom (mf_segments (pk_manifest p))) \<and>
     set (mf_segment_order (pk_manifest p)) \<subseteq> fset (fmdom (pk_segments p)) \<and>
     distinct (sn_signed_fields (pk_signature p)) \<and>
     set (sn_signed_fields (pk_signature p)) = set RequiredSignedFields"

lemma same_count:
  assumes "distinct order" "set order \<subseteq> fset (fmdom m)"
  shows "count m = length order \<longleftrightarrow> set order = fset (fmdom m)"
proof
  assume "count m = length order"
  with assms(1) have "card (set order) = card (fset (fmdom m))"
    by (simp add: count_card distinct_card)
  with assms(2) show "set order = fset (fmdom m)" by (simp add: card_subset_eq)
next
  assume "set order = fset (fmdom m)"
  with assms(1) show "count m = length order" by (metis count_card distinct_card)
qed

lemma fault_case:
  "(case f of FaultNone \<Rightarrow> x | fault \<Rightarrow> ([], [], fault)) = (if f = FaultNone then x else ([], [], f))"
  by (cases f) simp_all

lemma parsePackage_ok:
  "parsePackage P p = (view, sig, FaultNone) \<longleftrightarrow>
     package_shape p \<and> BuildSigningView P p = Inr view \<and>
     DecodeSignatureValue (sn_value (pk_signature p)) = Inr sig"
proof -
  let ?order = "mf_segment_order (pk_manifest p)" and ?sf = "sn_signed_fields (pk_signature p)"
  let ?ms = "mf_segments (pk_manifest p)"
  have shape: "package_shape p \<longleftrightarrow> ?sf \<noteq> [] \<and> ?order \<noteq> [] \<and> count ?ms = length ?order \<and>
      parse_order ?ms (pk_segments p) [] ?order = FaultNone \<and> checkSignedFields ?sf = Inr ()"
    unfolding package_shape_def parse_order_None checkSignedFields_Inr
    using same_count [of ?order ?ms] by (auto simp: RequiredSignedFields_def)
  have "parsePackage P p = (view, sig, FaultNone) \<longleftrightarrow>
      (?sf \<noteq> [] \<and> ?order \<noteq> [] \<and> count ?ms = length ?order \<and>
       parse_order ?ms (pk_segments p) [] ?order = FaultNone \<and> checkSignedFields ?sf = Inr ()) \<and>
      ReconstructSigningView P p = Inr view \<and> DecodeSignatureValue (sn_value (pk_signature p)) = Inr sig"
    unfolding parsePackage_def fault_case
    by (cases "checkSignedFields ?sf"; cases "ReconstructSigningView P p";
        cases "DecodeSignatureValue (sn_value (pk_signature p))") auto
  with shape Reconstruct_Build [of p P] show ?thesis by auto
qed

section \<open>The loops of Level 1\<close>

lemma cipher_loop_lookup:
  "fmlookup (fst (cipher_loop P p as ph hs)) n =
     (if n \<in> set as then Some (sg_plain_hash (manifest_segment p n)) else fmlookup ph n)"
  "fmlookup (snd (cipher_loop P p as ph hs)) n =
     (if n \<in> set as then Some (checkCipherHash P (manifest_segment p n) (package_segment p n))
      else fmlookup hs n)"
  by (induction as arbitrary: ph hs) auto

lemma binding_loop_lookup:
  "distinct (map bs_name specs) \<Longrightarrow>
     fmlookup (binding_loop bctx extra specs out) n =
       (case find (\<lambda>s. bs_name s = n) specs of
          None \<Rightarrow> fmlookup out n
        | Some s \<Rightarrow> Some (bs_compute s bctx = Inr (lookup_or_empty extra n)))"
proof (induction specs arbitrary: out)
  case (Cons s ss)
  have "find (\<lambda>s'. bs_name s' = bs_name s) ss = None"
    using Cons.prems by (force simp: find_None_iff intro: image_eqI [OF sym])
  with Cons show ?case by (auto split: sum.splits option.splits)
qed simp

lemma all_true_iff: "all_true (Some m) \<longleftrightarrow> (\<forall>k v. fmlookup m k = Some v \<longrightarrow> v)"
proof -
  have "(k, v) \<in> set (entries m) \<longleftrightarrow> fmlookup m k = Some v" for k v
    using map_of_eq_Some_iff [of "entries m" k v] by simp
  then show ?thesis by (force simp: all_true_def list_all_iff)
qed

lemma map_len_0: "map_len (Some m) = 0 \<longleftrightarrow> fset (fmdom m) = {}"
  by (simp add: map_len_def count_card)

lemma find_name:
  "distinct (map bs_name specs) \<Longrightarrow> s \<in> set specs \<Longrightarrow>
     find (\<lambda>s'. bs_name s' = bs_name s) specs = Some s"
  by (induction specs) (auto simp: rev_image_eqI)

lemma binding_loop_Some:
  assumes "distinct (map bs_name specs)"
  shows "fmlookup (binding_loop bctx extra specs fmempty) n = Some v \<longleftrightarrow>
    (\<exists>s \<in> set specs. bs_name s = n \<and> v = (bs_compute s bctx = Inr (lookup_or_empty extra n)))"
proof (cases "find (\<lambda>s. bs_name s = n) specs")
  case None
  then have "\<forall>s \<in> set specs. bs_name s \<noteq> n" by (auto simp: find_None_iff)
  with None show ?thesis by (auto simp: binding_loop_lookup [OF assms])
next
  case (Some s)
  then have s: "s \<in> set specs" "bs_name s = n" by (auto simp: find_Some_iff)
  have "s' = s" if "s' \<in> set specs" "bs_name s' = n" for s'
    using find_name [OF assms that(1)] that(2) Some by simp
  then have "(\<exists>s \<in> set specs. bs_name s = n \<and> v = (bs_compute s bctx = Inr (lookup_or_empty extra n)))
      \<longleftrightarrow> v = (bs_compute s bctx = Inr (lookup_or_empty extra n))"
    using s by metis
  with Some show ?thesis unfolding binding_loop_lookup [OF assms] by (simp add: eq_commute [of v])
qed

lemma bindings_all_true:
  assumes "distinct (map bs_name specs)"
  shows "all_true (Some (binding_loop bctx extra specs fmempty)) \<longleftrightarrow>
    (\<forall>s \<in> set specs. bs_compute s bctx = Inr (lookup_or_empty extra (bs_name s)))"
  unfolding all_true_iff binding_loop_Some [OF assms] by blast

section \<open>What a passing report means\<close>

definition plain_hashes :: "package \<Rightarrow> (string, string) fmap" where
  "plain_hashes p = fmmap sg_plain_hash (mf_segments (pk_manifest p))"

definition package_context :: "package \<Rightarrow> binding_context" where
  "package_context p =
     \<lparr> bc_plain_hash = plain_hashes p, bc_intent_ref = in_intent_ref (pk_intent p),
       bc_constraints_hash = in_constraints_hash (pk_intent p),
       bc_segments_root = bd_segments_root (pk_bindings p) \<rparr>"

text \<open>The issuer's key, as the trust store resolves it, signed the nine fields.\<close>

definition issuer_signed ::
  "prims \<Rightarrow> (string \<Rightarrow> string \<Rightarrow> bytes option) option \<Rightarrow> package \<Rightarrow> bool" where
  "issuer_signed P trust p \<longleftrightarrow>
     (\<exists>f pub view sig. trust = Some f \<and> f (iss_iss (pk_issuer p)) (iss_kid (pk_issuer p)) = Some pub \<and>
        BuildSigningView P p = Inr view \<and>
        DecodeSignatureValue (sn_value (pk_signature p)) = Inr sig \<and>
        length pub = 32 \<and> length sig = 64 \<and> ed25519_verify P pub view sig)"

text \<open>The hash the manifest commits to is that of the ciphertext and tag that travel.\<close>

definition cipher_hash_ok :: "prims \<Rightarrow> segment \<Rightarrow> sealed_segment \<Rightarrow> bool" where
  "cipher_hash_ok P seg sealed \<longleftrightarrow>
     (\<exists>c t. raw_url_decode (ss_ciphertext sealed) = Some c \<and> raw_url_decode (ss_tag sealed) = Some t \<and>
        sg_cipher_hash seg = H P (c @ t))"

definition content_valid :: "prims \<Rightarrow> binding_spec list \<Rightarrow> package \<Rightarrow> bool" where
  "content_valid P specs p \<longleftrightarrow>
     ac_package_id (mf_aad_context (pk_manifest p)) = pk_package_id p \<and>
     (\<forall>a seg sealed. fmlookup (mf_segments (pk_manifest p)) a = Some seg \<longrightarrow>
        fmlookup (pk_segments p) a = Some sealed \<longrightarrow> cipher_hash_ok P seg sealed) \<and>
     SegmentsRoot P (mf_segment_order (pk_manifest p)) (plain_hashes p)
       = Inr (bd_segments_root (pk_bindings p)) \<and>
     (\<forall>spec \<in> set specs. bs_compute spec (package_context p)
        = Inr (lookup_or_empty (bd_extra (pk_bindings p)) (bs_name spec)))"

definition level1_valid :: "prims \<Rightarrow> package \<Rightarrow> verify_options \<Rightarrow> bool" where
  "level1_valid P p opt \<longleftrightarrow>
     pk_spec_version p = SupportedSpecVersion \<and> package_shape p \<and>
     issuer_signed P (vo_IssuerKey opt) p \<and> content_valid P (vo_BindingSpecs opt) p"

text \<open>
  The authority was reached, it confirms the constraints hash, and the commitment ties its
  answer to these segments.
\<close>

definition intent_valid :: "prims \<Rightarrow> package \<Rightarrow> intent_verifier option \<Rightarrow> bool" where
  "intent_valid P p iv \<longleftrightarrow>
     (\<exists>a. iv = Some a \<and>
        iv_ConstraintsHash a (in_intent_ref (pk_intent p)) = Inr (in_constraints_hash (pk_intent p)) \<and>
        IntentCommitment P (in_intent_ref (pk_intent p)) (in_constraints_hash (pk_intent p))
          (bd_segments_root (pk_bindings p)) = Inr (bd_intent_commitment (pk_bindings p)))"

lemma checkCipherHash_ok: "checkCipherHash P seg sealed \<longleftrightarrow> cipher_hash_ok P seg sealed"
  by (auto simp: checkCipherHash_def cipher_hash_ok_def split: option.splits)

lemma verifyEd25519_ok:
  "verifyEd25519 P pub m sig \<longleftrightarrow> length pub = 32 \<and> length sig = 64 \<and> ed25519_verify P pub m sig"
  by (auto simp: verifyEd25519_def)

lemma specVersionSupported_iff: "specVersionSupported v \<longleftrightarrow> v = SupportedSpecVersion"
  by (simp add: specVersionSupported_def CheckSpecVersion_def)

lemma cipher_loop_plain:
  assumes "package_shape p"
  shows "fst (cipher_loop P p (mf_segment_order (pk_manifest p)) fmempty hs) = plain_hashes p"
proof (rule fmap_ext)
  fix n
  have dom: "n \<in> set (mf_segment_order (pk_manifest p)) \<longleftrightarrow> fmlookup (mf_segments (pk_manifest p)) n \<noteq> None"
    using assms by (simp add: package_shape_def fmdom_iff)
  show "fmlookup (fst (cipher_loop P p (mf_segment_order (pk_manifest p)) fmempty hs)) n
      = fmlookup (plain_hashes p) n"
    unfolding cipher_loop_lookup dom
    by (auto simp: plain_hashes_def manifest_segment_def)
qed

lemma cipher_loop_true:
  assumes "package_shape p"
  shows "all_true (Some (snd (cipher_loop P p (mf_segment_order (pk_manifest p)) ph fmempty))) \<longleftrightarrow>
    (\<forall>a seg sealed. fmlookup (mf_segments (pk_manifest p)) a = Some seg \<longrightarrow>
        fmlookup (pk_segments p) a = Some sealed \<longrightarrow> cipher_hash_ok P seg sealed)"
proof -
  let ?order = "mf_segment_order (pk_manifest p)"
  have "all_true (Some (snd (cipher_loop P p ?order ph fmempty))) \<longleftrightarrow>
      (\<forall>a \<in> set ?order. cipher_hash_ok P (manifest_segment p a) (package_segment p a))"
    unfolding all_true_iff cipher_loop_lookup checkCipherHash_ok by auto
  also have "\<dots> \<longleftrightarrow> (\<forall>a seg sealed. fmlookup (mf_segments (pk_manifest p)) a = Some seg \<longrightarrow>
        fmlookup (pk_segments p) a = Some sealed \<longrightarrow> cipher_hash_ok P seg sealed)"
  proof -
    have "(\<forall>seg sealed. fmlookup (mf_segments (pk_manifest p)) a = Some seg \<longrightarrow>
        fmlookup (pk_segments p) a = Some sealed \<longrightarrow> cipher_hash_ok P seg sealed) \<longleftrightarrow>
        (a \<in> set ?order \<longrightarrow> cipher_hash_ok P (manifest_segment p a) (package_segment p a))" for a
    proof (cases "a \<in> set ?order")
      case True
      with assms obtain seg sealed where "fmlookup (mf_segments (pk_manifest p)) a = Some seg"
        "fmlookup (pk_segments p) a = Some sealed"
        unfolding package_shape_def using fmdom_iff by (metis not_None_eq subsetD)
      with True show ?thesis by (simp add: manifest_segment_def package_segment_def)
    next
      case False
      with assms have "fmlookup (mf_segments (pk_manifest p)) a = None"
        unfolding package_shape_def using fmdom_iff by metis
      with False show ?thesis by simp
    qed
    then show ?thesis by blast
  qed
  finally show ?thesis .
qed

lemma cipher_loop_nonempty:
  assumes "package_shape p"
  shows "map_len (Some (snd (cipher_loop P p (mf_segment_order (pk_manifest p)) ph hs))) \<noteq> 0"
proof -
  obtain a as where "mf_segment_order (pk_manifest p) = a # as"
    using assms by (cases "mf_segment_order (pk_manifest p)") (auto simp: package_shape_def)
  then have "fmlookup (snd (cipher_loop P p (mf_segment_order (pk_manifest p)) ph hs)) a \<noteq> None"
    unfolding cipher_loop_lookup by simp
  then show ?thesis unfolding map_len_0 using fmdom_iff by (metis empty_iff)
qed

lemma level1_content:
  assumes "package_shape p" "distinct (map bs_name (vo_BindingSpecs opt))"
    and "rp_Structural r = FaultNone" "rp_SpecVersionSupported r" "rp_Signature r"
    and "rp_ProfileBindings r = None"
  shows "level1Passed (verify_content P p opt r) \<longleftrightarrow> content_valid P (vo_BindingSpecs opt) p"
proof -
  let ?order = "mf_segment_order (pk_manifest p)"
  obtain ph hs where loop: "cipher_loop P p ?order fmempty fmempty = (ph, hs)"
    by (cases "cipher_loop P p ?order fmempty fmempty") auto
  have ph: "ph = plain_hashes p" using cipher_loop_plain [OF assms(1), of P fmempty] loop by simp
  have hs: "all_true (Some hs) \<longleftrightarrow> (\<forall>a seg sealed. fmlookup (mf_segments (pk_manifest p)) a = Some seg \<longrightarrow>
        fmlookup (pk_segments p) a = Some sealed \<longrightarrow> cipher_hash_ok P seg sealed)"
    using cipher_loop_true [OF assms(1), of P fmempty] loop by simp
  have len: "map_len (Some hs) \<noteq> 0"
    using cipher_loop_nonempty [OF assms(1), of P fmempty fmempty] loop by simp
  have ctx: "\<lparr> bc_plain_hash = ph, bc_intent_ref = in_intent_ref (pk_intent p),
      bc_constraints_hash = in_constraints_hash (pk_intent p),
      bc_segments_root = res_or_empty (Inr (bd_segments_root (pk_bindings p))) \<rparr> = package_context p"
    by (simp add: package_context_def ph res_or_empty_def)
  let ?root = "SegmentsRoot P ?order (plain_hashes p) = Inr (bd_segments_root (pk_bindings p))"
  show ?thesis
  proof (cases ?root)
    case True
    then show ?thesis
      using assms(3-6) len bindings_all_true [OF assms(2), of "package_context p" "bd_extra (pk_bindings p)"]
      unfolding verify_content_def loop content_valid_def hs [symmetric] ph [symmetric]
      by (simp add: level1Passed_def ctx Let_def all_true_def [of None]) 
  next
    case False
    then show ?thesis
      using assms(3-6) unfolding verify_content_def loop content_valid_def ph [symmetric]
      by (simp add: level1Passed_def Let_def)
  qed
qed

lemma verifyIntent_ok:
  assumes "\<not> ir_Valid (rp_Intent r)"
  shows "ir_Evaluated (rp_Intent (verifyIntent P p iv r)) \<and> ir_Valid (rp_Intent (verifyIntent P p iv r))
    \<longleftrightarrow> intent_valid P p iv"
  using assms by (auto simp: verifyIntent_eq intent_valid_def Let_def split: option.split sum.split)

lemma verify_content_intent: "rp_Intent (verify_content P p opt r) = rp_Intent r"
  by (simp add: verify_content_def Let_def split: prod.split)

text \<open>Only a nil package is an error; every other outcome is a report.\<close>

lemma Verify_total: "\<exists>r. Verify P (Some p) opt = Inr r"
  by (simp add: Verify_eq Let_def split: prod.split option.split)

text \<open>The report of a package that gets past its signature, and of one that does not.\<close>

definition signed_report :: "prims \<Rightarrow> package \<Rightarrow> verify_options \<Rightarrow> report" where
  "signed_report P p opt =
     verify_content P p opt (report0\<lparr>rp_SpecVersionSupported := True, rp_Signature := True\<rparr>)"

lemma Verify_cases:
  assumes "Verify P (Some p) opt = Inr r"
  shows "if pk_spec_version p = SupportedSpecVersion \<and> package_shape p \<and> issuer_signed P (vo_IssuerKey opt) p
    then r = (if level1Passed (signed_report P p opt)
              then verifyIntent P p (vo_Intent opt) (signed_report P p opt) else signed_report P p opt)
    else \<not> level1Passed r \<and> \<not> rp_Signature r \<and> \<not> ir_Evaluated (rp_Intent r)"
proof -
  obtain view sig fault where parse: "parsePackage P p = (view, sig, fault)" by (cases "parsePackage P p")
  have r0: "rp_Signature report0 = False" "ir_Evaluated (rp_Intent report0) = False"
    by (simp_all add: report0_def)
  consider "pk_spec_version p \<noteq> SupportedSpecVersion"
    | "pk_spec_version p = SupportedSpecVersion" "fault \<noteq> FaultNone"
    | "pk_spec_version p = SupportedSpecVersion" "fault = FaultNone" by blast
  then show ?thesis
  proof cases
    case 1
    with assms show ?thesis
      by (auto simp: Verify_eq specVersionSupported_iff not_level1 r0)
  next
    case 2
    then have no: "\<not> (package_shape p \<and> issuer_signed P (vo_IssuerKey opt) p)"
      using parse parsePackage_ok [of P p] by (auto simp: issuer_signed_def)
    have "r = report0\<lparr>rp_SpecVersionSupported := True, rp_Structural := fault\<rparr>"
      using 2 assms parse by (simp add: Verify_eq specVersionSupported_iff)
    with no 2 show ?thesis by (auto simp: not_level1 r0)
  next
    case 3
    with parse have shape: "package_shape p" "BuildSigningView P p = Inr view"
      "DecodeSignatureValue (sn_value (pk_signature p)) = Inr sig"
      using parsePackage_ok [of P p view sig] by simp_all
    have signed: "issuer_signed P (vo_IssuerKey opt) p \<longleftrightarrow>
        (\<exists>pub. resolveIssuerKey (vo_IssuerKey opt) (iss_iss (pk_issuer p)) (iss_kid (pk_issuer p)) = Some pub
           \<and> verifyEd25519 P pub view sig)"
      using shape by (auto simp: issuer_signed_def resolveIssuerKey_def verifyEd25519_ok split: option.splits)
    show ?thesis
      using 3 assms parse shape(1) signed
      by (auto simp: Verify_eq specVersionSupported_iff Let_def signed_report_def not_level1 r0
          split: option.splits if_splits)
  qed
qed

lemma signed_report_level1:
  assumes "package_shape p" "distinct (map bs_name (vo_BindingSpecs opt))"
  shows "level1Passed (signed_report P p opt) \<longleftrightarrow> content_valid P (vo_BindingSpecs opt) p"
  unfolding signed_report_def by (rule level1_content [OF assms]) (simp_all add: report0_def)

lemma Verify_Level1:
  assumes "Verify P (Some p) opt = Inr r" "distinct (map bs_name (vo_BindingSpecs opt))"
  shows "report_Level1 (Some r) \<longleftrightarrow> level1_valid P p opt"
  using Verify_cases [OF assms(1)] signed_report_level1 [OF _ assms(2), of p P]
  by (auto simp: report_Level1_def level1_valid_def verifyIntent_level1 split: if_splits)

lemma Verify_OK:
  assumes "Verify P (Some p) opt = Inr r" "distinct (map bs_name (vo_BindingSpecs opt))"
  shows "report_OK (Some r) \<longleftrightarrow> level1_valid P p opt \<and> intent_valid P p (vo_Intent opt)"
proof -
  have fresh: "\<not> ir_Valid (rp_Intent (signed_report P p opt))" "\<not> ir_Evaluated (rp_Intent (signed_report P p opt))"
    by (simp_all add: signed_report_def verify_content_intent report0_def)
  show ?thesis
    using Verify_cases [OF assms(1)] signed_report_level1 [OF _ assms(2), of p P]
      verifyIntent_ok [OF fresh(1), of P p "vo_Intent opt"] fresh
    by (auto simp: report_OK_def level1_valid_def verifyIntent_level1 split: if_splits)
qed

text \<open>Level 1 does not consult the authority.\<close>

lemma level1_valid_intent: "level1_valid P p (opt\<lparr>vo_Intent := iv\<rparr>) = level1_valid P p opt"
  by (simp add: level1_valid_def)

text \<open>A report that is not OK for want of an answer says that no answer was evaluated.\<close>

lemma Verify_unreached:
  assumes "Verify P (Some p) opt = Inr r"
    and "case vo_Intent opt of None \<Rightarrow> True
         | Some a \<Rightarrow> \<exists>e. iv_ConstraintsHash a (in_intent_ref (pk_intent p)) = Inl e"
  shows "\<not> ir_Evaluated (rp_Intent r) \<and> \<not> report_OK (Some r)"
proof -
  have "\<not> ir_Evaluated (rp_Intent (signed_report P p opt))"
    by (simp add: signed_report_def verify_content_intent report0_def)
  moreover have "\<not> ir_Evaluated (rp_Intent (verifyIntent P p (vo_Intent opt) r'))" for r'
    using assms(2) by (auto simp: verifyIntent_eq split: option.splits)
  ultimately have "\<not> ir_Evaluated (rp_Intent r)"
    using Verify_cases [OF assms(1)] by (auto split: if_splits)
  then show ?thesis by (simp add: report_OK_def)
qed

text \<open>A fault is read back from its own text only.\<close>

theorem fault_json_roundtrip: "fault_UnmarshalJSON v = Inr f \<longleftrightarrow> v = fault_MarshalJSON f"
  using fault_roundtrip fault_Unmarshal_Inr by blast

end
