(* ===== verification/Open_Segment.thy ===== *)
theory Open_Segment
  imports Verify
begin

text \<open>
  \<^verbatim>\<open>pkg/chainbind/open.go\<close>: the recipient recovers the one segment whose confirmation key is
  the thumbprint of its own. \<open>Open\<close> threads the world only to record that the unwrapped data
  key is zeroed. The lemmas state what an opened segment is, the closed set of its errors,
  and that a key that matches no audience learns nothing.
\<close>

section \<open>The audience of a private key\<close>

text \<open>
  The loop over \<^verbatim>\<open>cnf\<close> counts the matches and keeps the last; with exactly one match the
  order Go iterates in does not matter.
\<close>

definition matchingAudience :: "cnf \<Rightarrow> key_wrapper \<Rightarrow> bytes \<Rightarrow> string option" where
  "matchingAudience c w priv =
     (case kw_PublicKey w priv of
        Inl _ \<Rightarrow> None
      | Inr pub \<Rightarrow>
     (case kw_Thumbprint w pub of
        Inl _ \<Rightarrow> None
      | Inr jkt \<Rightarrow>
          let matches = filter (\<lambda>(name, conf). kc_jkt conf = jkt)
                (case c of None \<Rightarrow> [] | Some m \<Rightarrow> entries m)
          in if length matches \<noteq> 1 then None else Some (fst (last matches))))"

section \<open>The wire form of a segment\<close>

record sealed_segment_wire =
  sw_epk :: bytes
  sw_wrapped :: bytes
  sw_nonce :: bytes
  sw_ciphertext :: bytes
  sw_tag :: bytes

definition decodeSealedSegment :: "sealed_segment \<Rightarrow> sealed_segment_wire option" where
  "decodeSealedSegment sealed =
     (case raw_url_decode (ep_x (ss_epk sealed)) of None \<Rightarrow> None | Some e \<Rightarrow>
     (case raw_url_decode (ss_dek_wrapped sealed) of None \<Rightarrow> None | Some wrapped \<Rightarrow>
     (case raw_url_decode (ss_nonce sealed) of None \<Rightarrow> None | Some nonce \<Rightarrow>
     (case raw_url_decode (ss_ciphertext sealed) of None \<Rightarrow> None | Some ciphertext \<Rightarrow>
     (case raw_url_decode (ss_tag sealed) of None \<Rightarrow> None | Some tag \<Rightarrow>
        Some \<lparr> sw_epk = e, sw_wrapped = wrapped, sw_nonce = nonce, sw_ciphertext = ciphertext,
               sw_tag = tag \<rparr>)))))"

section \<open>Open\<close>

text \<open>\<open>Open\<close> once the data key is unwrapped; the deferred zeroing is in the caller.\<close>

definition open_with ::
  "prims \<Rightarrow> package \<Rightarrow> string \<Rightarrow> segment \<Rightarrow> sealed_segment_wire \<Rightarrow> bytes \<Rightarrow> (string \<times> gobytes) res" where
  "open_with P p audience seg wire dek =
     (case AAD P (mf_aad_context (pk_manifest p)) audience (pk_spec_version p) of
        Inl _ \<Rightarrow> Inl (Sentinel ErrDecryptionFailed)
      | Inr aad \<Rightarrow>
     (case Decrypt P dek (sw_nonce wire) (sw_ciphertext wire @ sw_tag wire) aad of
        Inl _ \<Rightarrow> Inl (Sentinel ErrDecryptionFailed)
      | Inr plaintext \<Rightarrow>
     (case JCS P (vbytes plaintext) of
        Inl _ \<Rightarrow> Inl (Sentinel ErrHashMismatch)
      | Inr canonPlain \<Rightarrow>
          if H P canonPlain \<noteq> sg_plain_hash seg then Inl (Sentinel ErrHashMismatch)
          else Inr (audience, plaintext))))"

definition Open ::
  "prims \<Rightarrow> package option \<Rightarrow> bytes \<Rightarrow> key_wrapper \<Rightarrow> verify_options \<Rightarrow> world \<Rightarrow>
     (string \<times> gobytes) res \<times> world" where
  "Open P pkg priv w opt s =
     (case Verify P pkg \<lparr> vo_IssuerKey = vo_IssuerKey opt, vo_Intent = None,
                          vo_BindingSpecs = vo_BindingSpecs opt \<rparr> of
        Inl e \<Rightarrow> (Inl e, s)
      | Inr r \<Rightarrow>
        if \<not> report_Level1 (Some r) then (Inl (Sentinel ErrIntegrityCheckFailed), s)
        else
        let p = the pkg in
     (case matchingAudience (pk_cnf p) w priv of
        None \<Rightarrow> (Inl (Sentinel ErrDecryptionFailed), s)
      | Some audience \<Rightarrow>
     (case fmlookup (mf_segments (pk_manifest p)) audience of
        None \<Rightarrow> (Inl (Sentinel ErrDecryptionFailed), s)
      | Some seg \<Rightarrow>
     (case fmlookup (pk_segments p) audience of
        None \<Rightarrow> (Inl (Sentinel ErrDecryptionFailed), s)
      | Some sealed \<Rightarrow>
     (case decodeSealedSegment sealed of
        None \<Rightarrow> (Inl (Sentinel ErrDecryptionFailed), s)
      | Some wire \<Rightarrow>
     (case kw_Unwrap w priv (sw_epk wire) (sw_wrapped wire) of
        Inl _ \<Rightarrow> (Inl (Sentinel ErrDecryptionFailed), s)
      | Inr dek \<Rightarrow> (open_with P p audience seg wire dek, emit (EvZero dek) s)))))))"

section \<open>What the match means\<close>

lemma filter_single:
  assumes "distinct (map fst xs)"
  shows "(\<exists>x. filter (\<lambda>(n, c). Q c) xs = [x] \<and> fst x = a) \<longleftrightarrow>
    (\<exists>c. (a, c) \<in> set xs \<and> Q c) \<and> (\<forall>n c. (n, c) \<in> set xs \<longrightarrow> Q c \<longrightarrow> n = a)"
proof (intro iffI)
  assume "\<exists>x. filter (\<lambda>(n, c). Q c) xs = [x] \<and> fst x = a"
  then obtain c where f: "filter (\<lambda>(n, c). Q c) xs = [(a, c)]" by auto
  then have "(n, d) \<in> set xs \<and> Q d \<longleftrightarrow> (n, d) = (a, c)" for n d
  proof -
    have "(n, d) \<in> set (filter (\<lambda>(n, c). Q c) xs) \<longleftrightarrow> (n, d) \<in> set xs \<and> Q d" by auto
    with f show ?thesis by simp
  qed
  then show "(\<exists>c. (a, c) \<in> set xs \<and> Q c) \<and> (\<forall>n c. (n, c) \<in> set xs \<longrightarrow> Q c \<longrightarrow> n = a)" by blast
next
  assume r: "(\<exists>c. (a, c) \<in> set xs \<and> Q c) \<and> (\<forall>n c. (n, c) \<in> set xs \<longrightarrow> Q c \<longrightarrow> n = a)"
  let ?f = "filter (\<lambda>(n, c). Q c) xs"
  have d: "distinct (map fst ?f)" using assms by (rule distinct_map_filter)
  have in_f: "(n, c) \<in> set ?f \<longleftrightarrow> (n, c) \<in> set xs \<and> Q c" for n c by simp
  have "n \<in> set (map fst ?f) \<longleftrightarrow> n = a" for n
  proof -
    have "n \<in> set (map fst ?f) \<longleftrightarrow> (\<exists>c. (n, c) \<in> set ?f)" by (simp only: set_map image_iff) force
    then show ?thesis unfolding in_f using r by blast
  qed
  then have "set (map fst ?f) = {a}" by blast
  then have "card (set (map fst ?f)) = 1" by simp
  with d have "length (map fst ?f) = 1" by (simp only: distinct_card)
  then obtain x where "?f = [x]" by (auto simp: length_Suc_conv)
  moreover from this \<open>set (map fst ?f) = {a}\<close> have "fst x = a" by simp
  ultimately show "\<exists>x. ?f = [x] \<and> fst x = a" by blast
qed

lemma entries_mem: "(k, v) \<in> set (entries m) \<longleftrightarrow> fmlookup m k = Some v"
  using map_of_eq_Some_iff [of "entries m" k v] by simp

text \<open>The audience is the one entry of \<^verbatim>\<open>cnf\<close> whose thumbprint is that of the caller's key.\<close>

definition confirms :: "cnf \<Rightarrow> key_wrapper \<Rightarrow> bytes \<Rightarrow> string \<Rightarrow> bool" where
  "confirms c w priv a \<longleftrightarrow>
     (\<exists>m pub jkt. c = Some m \<and> kw_PublicKey w priv = Inr pub \<and> kw_Thumbprint w pub = Inr jkt \<and>
        (\<exists>conf. fmlookup m a = Some conf \<and> kc_jkt conf = jkt) \<and>
        (\<forall>n conf. fmlookup m n = Some conf \<longrightarrow> kc_jkt conf = jkt \<longrightarrow> n = a))"

lemma matchingAudience_Some: "matchingAudience c w priv = Some a \<longleftrightarrow> confirms c w priv a"
proof -
  have one: "(if length xs \<noteq> 1 then None else Some (fst (last xs))) = Some a \<longleftrightarrow>
      (\<exists>x. xs = [x] \<and> fst x = a)" for xs :: "(string \<times> key_confirmation) list"
    by (auto simp: length_Suc_conv)
  show ?thesis
  proof (cases c)
    case None
    then show ?thesis by (auto simp: matchingAudience_def confirms_def split: sum.splits)
  next
    case (Some m)
    show ?thesis
    proof (cases "kw_PublicKey w priv")
      case (Inr pub)
      show ?thesis
      proof (cases "kw_Thumbprint w pub")
        fix jkt assume jkt: "kw_Thumbprint w pub = Inr jkt"
        have "matchingAudience c w priv = Some a \<longleftrightarrow>
            (\<exists>x. filter (\<lambda>(n, conf). kc_jkt conf = jkt) (entries m) = [x] \<and> fst x = a)"
          unfolding one [symmetric] using Some Inr jkt by (simp add: matchingAudience_def Let_def)
        also have "\<dots> \<longleftrightarrow> confirms c w priv a"
          unfolding filter_single [OF distinct_fst_entries] entries_mem
          using Some Inr jkt by (simp add: confirms_def)
        finally show ?thesis .
      qed (use Inr in \<open>simp add: matchingAudience_def confirms_def\<close>)
    qed (simp add: matchingAudience_def confirms_def)
  qed
qed

section \<open>What opening means\<close>

lemma open_with_Inr:
  "open_with P p audience seg wire dek = Inr (a, g) \<longleftrightarrow>
     a = audience \<and>
     (\<exists>aad canon. AAD P (mf_aad_context (pk_manifest p)) a (pk_spec_version p) = Inr aad \<and>
        Decrypt P dek (sw_nonce wire) (sw_ciphertext wire @ sw_tag wire) aad = Inr g \<and>
        JCS P (vbytes g) = Inr canon \<and> H P canon = sg_plain_hash seg)"
  by (auto simp: open_with_def split: sum.split)

lemma open_with_Inl:
  "open_with P p audience seg wire dek = Inl e \<Longrightarrow>
     e = Sentinel ErrDecryptionFailed \<or> e = Sentinel ErrHashMismatch"
  by (auto simp: open_with_def split: sum.splits if_splits)

lemma Open_error:
  assumes "Open P pkg priv w opt s = (Inl e, s')"
  shows "e \<in> Sentinel ` {ErrNilPackage, ErrIntegrityCheckFailed, ErrDecryptionFailed, ErrHashMismatch}"
proof (cases pkg)
  case None
  with assms show ?thesis by (simp add: Open_def Verify_eq)
next
  case (Some p)
  then obtain r where "Verify P (Some p) \<lparr> vo_IssuerKey = vo_IssuerKey opt, vo_Intent = None,
      vo_BindingSpecs = vo_BindingSpecs opt \<rparr> = Inr r"
    using Verify_total by blast
  with assms Some show ?thesis
    by (auto simp: Open_def Let_def dest!: open_with_Inl split: if_splits option.splits sum.splits)
qed

lemma Open_Level1:
  assumes "distinct (map bs_name (vo_BindingSpecs opt))"
    and "Verify P (Some p) \<lparr> vo_IssuerKey = vo_IssuerKey opt, vo_Intent = None,
           vo_BindingSpecs = vo_BindingSpecs opt \<rparr> = Inr r"
  shows "report_Level1 (Some r) \<longleftrightarrow> level1_valid P p opt"
  using Verify_Level1 [OF assms(2)] assms(1) by (simp add: level1_valid_def)

text \<open>
  The steps of a successful \<open>Open\<close>, in one relation: the signed package is intact, the
  caller's key confirms exactly this audience, and the plaintext decrypts under the
  package's own context and has the signed hash.
\<close>

definition opens ::
  "prims \<Rightarrow> package \<Rightarrow> bytes \<Rightarrow> key_wrapper \<Rightarrow> string \<Rightarrow> gobytes \<Rightarrow> bytes \<Rightarrow> bool" where
  "opens P p priv w a g dek \<longleftrightarrow>
     confirms (pk_cnf p) w priv a \<and>
     (\<exists>seg sealed wire aad canon.
        fmlookup (mf_segments (pk_manifest p)) a = Some seg \<and>
        fmlookup (pk_segments p) a = Some sealed \<and> decodeSealedSegment sealed = Some wire \<and>
        kw_Unwrap w priv (sw_epk wire) (sw_wrapped wire) = Inr dek \<and>
        AAD P (mf_aad_context (pk_manifest p)) a (pk_spec_version p) = Inr aad \<and>
        Decrypt P dek (sw_nonce wire) (sw_ciphertext wire @ sw_tag wire) aad = Inr g \<and>
        JCS P (vbytes g) = Inr canon \<and> H P canon = sg_plain_hash seg)"

lemma Open_Inr:
  assumes "distinct (map bs_name (vo_BindingSpecs opt))"
  shows "Open P (Some p) priv w opt s = (Inr (a, g), s') \<longleftrightarrow>
    level1_valid P p opt \<and> (\<exists>dek. opens P p priv w a g dek \<and> s' = emit (EvZero dek) s)"
proof -
  obtain r where r: "Verify P (Some p) \<lparr> vo_IssuerKey = vo_IssuerKey opt, vo_Intent = None,
      vo_BindingSpecs = vo_BindingSpecs opt \<rparr> = Inr r"
    using Verify_total by blast
  show ?thesis
  proof (cases "matchingAudience (pk_cnf p) w priv")
    case None
    then have "\<not> confirms (pk_cnf p) w priv a" using matchingAudience_Some [of _ w priv] by force
    with None r show ?thesis by (simp add: Open_def opens_def)
  next
    case (Some b)
    then have b: "confirms (pk_cnf p) w priv a \<longleftrightarrow> a = b"
      by (auto simp: matchingAudience_Some [symmetric])
    show ?thesis
      using Some r unfolding Open_def opens_def b
      by (auto simp: Let_def Open_Level1 [OF assms r] open_with_Inr split: option.split sum.split)
  qed
qed

text \<open>A key that confirms no audience, or more than one, gets the one opaque error.\<close>

lemma Open_stranger:
  assumes "level1_valid P p opt" "distinct (map bs_name (vo_BindingSpecs opt))"
    and "\<nexists>a. confirms (pk_cnf p) w priv a"
  shows "Open P (Some p) priv w opt s = (Inl (Sentinel ErrDecryptionFailed), s)"
proof -
  obtain r where r: "Verify P (Some p) \<lparr> vo_IssuerKey = vo_IssuerKey opt, vo_Intent = None,
      vo_BindingSpecs = vo_BindingSpecs opt \<rparr> = Inr r"
    using Verify_total by blast
  have "matchingAudience (pk_cnf p) w priv = None"
    using assms(3) matchingAudience_Some by (metis not_None_eq)
  with r assms(1) Open_Level1 [OF assms(2) r] show ?thesis by (simp add: Open_def)
qed

end
