(* ===== verification/Lifecycle.thy ===== *)
theory Lifecycle
  imports Seal Open_Segment
begin

text \<open>
  The core's operations in sequence: a package that \<open>Seal\<close> produced passes \<open>Verify\<close>, and
  each of its audiences opens its own segment. The lemmas go from the relation
  \<open>package_sealed\<close> to the specification \<open>level1_valid\<close>, \<open>intent_valid\<close> and \<open>opens\<close>.
\<close>

section \<open>From sealed segments to the checks of Level 1\<close>

lemma segment_sealed_hashes:
  assumes "segment_sealed P w aadCtx aud g seg sealed ph"
  shows "sg_plain_hash seg = ph" "cipher_hash_ok P seg sealed"
proof -
  from assms obtain combined where "16 \<le> length combined" "sg_plain_hash seg = ph"
    "sg_cipher_hash seg = H P combined"
    "ss_ciphertext sealed = raw_url_encode (take (length combined - 16) combined)"
    "ss_tag sealed = raw_url_encode (drop (length combined - 16) combined)"
    by (auto simp: segment_sealed_def)
  then show "sg_plain_hash seg = ph" "cipher_hash_ok P seg sealed"
    by (auto simp: cipher_hash_ok_def raw_url_roundtrip)
qed

text \<open>What the four maps of a finished loop hold at a name: the result of sealing its audience.\<close>

definition loop_done ::
  "prims \<Rightarrow> key_wrapper \<Rightarrow> aad_context \<Rightarrow> seal_request \<Rightarrow> seal_acc \<Rightarrow> bool" where
  "loop_done P w aadCtx req acc \<longleftrightarrow>
     same_keys acc (au_Name ` set (sr_Audiences req)) \<and>
     (\<forall>aud \<in> set (sr_Audiences req). audience_sealed P w aadCtx (sr_Segments req) acc aud)"

lemma loop_done_plain:
  assumes "loop_done P w aadCtx req acc"
  shows "fmmap sg_plain_hash (sa_manifestSegments acc) = sa_plainHash acc"
proof (rule fmap_ext)
  fix n
  show "fmlookup (fmmap sg_plain_hash (sa_manifestSegments acc)) n = fmlookup (sa_plainHash acc) n"
  proof (cases "n \<in> au_Name ` set (sr_Audiences req)")
    case True
    then obtain aud where aud: "aud \<in> set (sr_Audiences req)" "n = au_Name aud" by blast
    with assms have "audience_sealed P w aadCtx (sr_Segments req) acc aud" by (simp add: loop_done_def)
    with aud(2) segment_sealed_hashes(1) show ?thesis by (fastforce simp: audience_sealed_def)
  next
    case False
    with assms have "n \<notin> fset (fmdom (sa_manifestSegments acc))" "n \<notin> fset (fmdom (sa_plainHash acc))"
      by (simp_all add: loop_done_def same_keys_def)
    then show ?thesis by (simp add: fmdom_iff)
  qed
qed

lemma loop_done_cipher:
  assumes "loop_done P w aadCtx req acc"
    and "fmlookup (sa_manifestSegments acc) a = Some seg" "fmlookup (sa_sealedSegments acc) a = Some sealed"
  shows "cipher_hash_ok P seg sealed"
proof -
  have "a \<in> fset (fmdom (sa_manifestSegments acc))" using assms(2) by (simp add: fmdom_iff)
  with assms(1) obtain aud where aud: "aud \<in> set (sr_Audiences req)" "a = au_Name aud"
    by (auto simp: loop_done_def same_keys_def)
  with assms(1) have "audience_sealed P w aadCtx (sr_Segments req) acc aud" by (simp add: loop_done_def)
  with assms(2,3) aud(2) segment_sealed_hashes(2) show ?thesis by (auto simp: audience_sealed_def)
qed

section \<open>Seal, then Verify\<close>

text \<open>What a signer promises for a public key.\<close>

definition signs_for :: "prims \<Rightarrow> signer \<Rightarrow> bytes \<Rightarrow> bool" where
  "signs_for P si pub \<longleftrightarrow>
     (\<forall>m sig. signer_Sign si m = Inr sig \<longrightarrow>
        length pub = 32 \<and> length sig = 64 \<and> ed25519_verify P pub m sig)"

text \<open>The verifier trusts \<open>pub\<close> for the issuer and key id the signer answers with.\<close>

definition trusts ::
  "(string \<Rightarrow> string \<Rightarrow> bytes option) option \<Rightarrow> string \<Rightarrow> signer \<Rightarrow> bytes \<Rightarrow> bool" where
  "trusts trust iss si pub \<longleftrightarrow>
     (\<exists>f. trust = Some f \<and> (\<forall>kid. signer_Kid si = Inr kid \<longrightarrow> f iss kid = Some pub))"

lemma view_val_signature [simp]: "view_val (p\<lparr>pk_signature := s\<rparr>) = view_val p"
  by (simp add: view_val_def signingViewFields_def)

lemma BuildSigningView_signature [simp]:
  "BuildSigningView P (p\<lparr>pk_signature := s\<rparr>) = BuildSigningView P p"
  by (simp add: BuildSigningView_def signingViewFields_def)

lemma sealed_obtain:
  assumes "package_sealed P req si w iv p"
  obtains ch idb acc root commitment extra kid view sig aadCtx where
    "iv_ConstraintsHash iv (sr_IntentRef req) = Inr ch"
    "aadCtx = \<lparr> ac_package_id = ''pkg_'' @ hex_encode idb, ac_tenant_id = sr_TenantID req,
       ac_environment = sr_Environment req \<rparr>"
    "loop_done P w aadCtx req acc" "sr_Audiences req \<noteq> []" "distinct (map au_Name (sr_Audiences req))"
    "SegmentsRoot P (sr_SegmentOrder req) (sa_plainHash acc) = Inr root"
    "IntentCommitment P (sr_IntentRef req) ch root = Inr commitment"
    "ComputeBindings \<lparr> bc_plain_hash = sa_plainHash acc, bc_intent_ref = sr_IntentRef req,
       bc_constraints_hash = ch, bc_segments_root = root \<rparr> (sr_BindingSpecs req) = Inr extra"
    "signer_Kid si = Inr kid" "BuildSigningView P p = Inr view" "signer_Sign si view = Inr sig"
    "p = (unsigned_package req (''pkg_'' @ hex_encode idb) aadCtx ch acc root commitment extra)
           \<lparr>pk_issuer := \<lparr> iss_iss = sr_Issuer req, iss_kid = kid \<rparr>,
            pk_signature := \<lparr> sn_alg = signatureAlg, sn_kid = kid,
              sn_signed_fields = RequiredSignedFields, sn_value = EncodeSignatureValue sig \<rparr>\<rparr>"
  using assms unfolding package_sealed_def loop_done_def checkAudiences_Inr by fastforce

lemma sealed_level1:
  assumes "package_sealed P req si w iv p" and "signs_for P si pub"
    and "trusts (vo_IssuerKey opt) (sr_Issuer req) si pub"
    and "vo_BindingSpecs opt = sr_BindingSpecs req" "distinct (map bs_name (sr_BindingSpecs req))"
  shows "level1_valid P p opt"
proof -
  from assms(1) obtain ch idb acc root commitment extra kid view sig aadCtx where
    ctx: "aadCtx = \<lparr> ac_package_id = ''pkg_'' @ hex_encode idb, ac_tenant_id = sr_TenantID req,
       ac_environment = sr_Environment req \<rparr>" and
    loop: "loop_done P w aadCtx req acc" "sr_Audiences req \<noteq> []" and
    root: "SegmentsRoot P (sr_SegmentOrder req) (sa_plainHash acc) = Inr root" and
    extra: "ComputeBindings \<lparr> bc_plain_hash = sa_plainHash acc, bc_intent_ref = sr_IntentRef req,
       bc_constraints_hash = ch, bc_segments_root = root \<rparr> (sr_BindingSpecs req) = Inr extra" and
    sig: "signer_Kid si = Inr kid" "BuildSigningView P p = Inr view" "signer_Sign si view = Inr sig" and
    p: "p = (unsigned_package req (''pkg_'' @ hex_encode idb) aadCtx ch acc root commitment extra)
           \<lparr>pk_issuer := \<lparr> iss_iss = sr_Issuer req, iss_kid = kid \<rparr>,
            pk_signature := \<lparr> sn_alg = signatureAlg, sn_kid = kid,
              sn_signed_fields = RequiredSignedFields, sn_value = EncodeSignatureValue sig \<rparr>\<rparr>"
    by (rule sealed_obtain)
  have hashes: "plain_hashes p = sa_plainHash acc"
    using loop_done_plain [OF loop(1)] by (simp add: plain_hashes_def p unsigned_package_def)
  have pctx: "package_context p = \<lparr> bc_plain_hash = sa_plainHash acc, bc_intent_ref = sr_IntentRef req,
       bc_constraints_hash = ch, bc_segments_root = root \<rparr>"
    unfolding package_context_def hashes by (simp add: p unsigned_package_def)
  have keys: "fset (fmdom (sa_plainHash acc)) = au_Name ` set (sr_Audiences req)"
    "fset (fmdom (sa_manifestSegments acc)) = au_Name ` set (sr_Audiences req)"
    "fset (fmdom (sa_sealedSegments acc)) = au_Name ` set (sr_Audiences req)"
    using loop(1) by (simp_all add: loop_done_def same_keys_def)
  have order: "distinct (sr_SegmentOrder req)" "set (sr_SegmentOrder req) = au_Name ` set (sr_Audiences req)"
    using root keys by (simp_all add: SegmentsRoot_Inr)
  have "sr_SegmentOrder req \<noteq> []" using order(2) loop(2) by auto
  then have "package_shape p"
    using order keys by (simp add: package_shape_def p unsigned_package_def distinct_required)
  moreover have "issuer_signed P (vo_IssuerKey opt) p"
    using assms(2,3) sig unfolding signs_for_def trusts_def issuer_signed_def
    by (auto simp: p signature_value_roundtrip unsigned_package_def)
  moreover have "content_valid P (vo_BindingSpecs opt) p"
    unfolding content_valid_def hashes
  proof (intro conjI allI impI ballI)
    fix spec assume "spec \<in> set (vo_BindingSpecs opt)"
    then show "bs_compute spec (package_context p)
        = Inr (lookup_or_empty (bd_extra (pk_bindings p)) (bs_name spec))"
      using ComputeBindings_spec [OF extra assms(5)] assms(4)
      unfolding pctx by (simp add: p unsigned_package_def)
  next
    fix a seg sealed
    assume "fmlookup (mf_segments (pk_manifest p)) a = Some seg" "fmlookup (pk_segments p) a = Some sealed"
    then show "cipher_hash_ok P seg sealed"
      using loop_done_cipher [OF loop(1)] by (simp add: p unsigned_package_def)
  qed (use root in \<open>simp_all add: p unsigned_package_def ctx\<close>)
  ultimately show ?thesis by (simp add: level1_valid_def p unsigned_package_def)
qed

lemma sealed_intent:
  assumes "package_sealed P req si w iv p"
    and "iv_ConstraintsHash iv' (sr_IntentRef req) = iv_ConstraintsHash iv (sr_IntentRef req)"
  shows "intent_valid P p (Some iv')"
  using assms(1) by (rule sealed_obtain) (use assms(2) in \<open>simp add: intent_valid_def unsigned_package_def\<close>)

section \<open>Seal, then Open\<close>

text \<open>
  The audience whose key has this public half, and no other audience of the request with
  the same thumbprint.
\<close>

definition owns :: "key_wrapper \<Rightarrow> seal_request \<Rightarrow> bytes \<Rightarrow> audience \<Rightarrow> bool" where
  "owns w req priv aud \<longleftrightarrow>
     aud \<in> set (sr_Audiences req) \<and> kw_PublicKey w priv = Inr (au_PublicKey aud) \<and>
     (\<forall>aud' \<in> set (sr_Audiences req).
        kw_Thumbprint w (au_PublicKey aud') = kw_Thumbprint w (au_PublicKey aud) \<longrightarrow> aud' = aud)"

lemma loop_done_confirms:
  assumes "loop_done P w aadCtx req acc" "owns w req priv aud"
  shows "confirms (Some (sa_cnf acc)) w priv (au_Name aud)"
proof -
  have sealed: "audience_sealed P w aadCtx (sr_Segments req) acc aud'" if "aud' \<in> set (sr_Audiences req)" for aud'
    using that assms(1) by (simp add: loop_done_def)
  have aud: "aud \<in> set (sr_Audiences req)" "kw_PublicKey w priv = Inr (au_PublicKey aud)"
    using assms(2) by (simp_all add: owns_def)
  from sealed [OF aud(1)] obtain jkt conf where jkt: "kw_Thumbprint w (au_PublicKey aud) = Inr jkt"
    "fmlookup (sa_cnf acc) (au_Name aud) = Some conf" "kc_jkt conf = jkt"
    by (auto simp: audience_sealed_def)
  have "n = au_Name aud" if n: "fmlookup (sa_cnf acc) n = Some c" "kc_jkt c = jkt" for n c
  proof -
    have "n \<in> fset (fmdom (sa_cnf acc))" using n(1) by (simp add: fmdom_iff)
    then obtain aud' where aud': "aud' \<in> set (sr_Audiences req)" "n = au_Name aud'"
      using assms(1) by (auto simp: loop_done_def same_keys_def)
    from sealed [OF aud'(1)] n aud'(2) have "kw_Thumbprint w (au_PublicKey aud') = Inr jkt"
      by (auto simp: audience_sealed_def)
    with assms(2) aud'(1) jkt(1) have "aud' = aud" unfolding owns_def by metis
    with aud'(2) show ?thesis by simp
  qed
  with aud(2) jkt show ?thesis unfolding confirms_def by blast
qed

text \<open>A sealed segment decrypts to what was sealed, up to the empty slice that becomes nil.\<close>

lemma segment_sealed_opens:
  assumes "segment_sealed P w aadCtx aud g seg sealed ph" and "gcm_ok P"
    and unwrap: "\<And>dek s wrapped epk s'. length dek = 32 \<Longrightarrow>
      kw_Wrap w (au_PublicKey aud) dek s = (Inr (wrapped, epk), s') \<Longrightarrow>
      kw_Unwrap w priv epk wrapped = Inr dek"
  obtains wire dek aad where "decodeSealedSegment sealed = Some wire"
    "kw_Unwrap w priv (sw_epk wire) (sw_wrapped wire) = Inr dek"
    "AAD P aadCtx (au_Name aud) SupportedSpecVersion = Inr aad"
    "Decrypt P dek (sw_nonce wire) (sw_ciphertext wire @ sw_tag wire) aad = Inr (append_nil (raw_bytes g))"
    "\<exists>canon. JCS P (vbytes g) = Inr canon \<and> sg_plain_hash seg = H P canon"
proof -
  from assms(1) obtain dek nonce aad combined canon wrapped epk s s' where
    len: "length dek = 32" "length nonce = 12" and aad: "AAD P aadCtx (au_Name aud) SupportedSpecVersion = Inr aad"
    and combined: "combined = gcm_seal P dek nonce (raw_bytes g) aad"
    and canon: "JCS P (vbytes g) = Inr canon" "sg_plain_hash seg = H P canon"
    and wrap: "kw_Wrap w (au_PublicKey aud) dek s = (Inr (wrapped, epk), s')"
    and sealed: "sealed = \<lparr> ss_epk = \<lparr> ep_kty = ''OKP'', ep_crv = ''X25519'', ep_x = raw_url_encode epk \<rparr>,
                   ss_dek_wrapped = raw_url_encode wrapped, ss_nonce = raw_url_encode nonce,
                   ss_ciphertext = raw_url_encode (take (length combined - 16) combined),
                   ss_tag = raw_url_encode (drop (length combined - 16) combined) \<rparr>"
    unfolding segment_sealed_def by auto
  let ?wire = "\<lparr> sw_epk = epk, sw_wrapped = wrapped, sw_nonce = nonce,
    sw_ciphertext = take (length combined - 16) combined, sw_tag = drop (length combined - 16) combined \<rparr>"
  have "decodeSealedSegment sealed = Some ?wire"
    by (simp add: decodeSealedSegment_def sealed raw_url_roundtrip)
  moreover have "Decrypt P dek nonce combined aad = Inr (append_nil (raw_bytes g))"
    using assms(2) len by (simp add: Decrypt_Inr combined gcm_ok_def)
  ultimately show thesis
    using aad canon unwrap [OF len(1) wrap] by (intro that [of ?wire dek aad]) simp_all
qed

lemma sealed_opens:
  assumes "package_sealed P req si w iv p" "owns w req priv aud" "gcm_ok P"
    and "\<And>dek s wrapped epk s'. length dek = 32 \<Longrightarrow>
      kw_Wrap w (au_PublicKey aud) dek s = (Inr (wrapped, epk), s') \<Longrightarrow>
      kw_Unwrap w priv epk wrapped = Inr dek"
    and "segment_plaintext (sr_Segments req) (au_Name aud) \<noteq> Some []"
  shows "\<exists>dek. opens P p priv w (au_Name aud) (segment_plaintext (sr_Segments req) (au_Name aud)) dek"
proof -
  let ?g = "segment_plaintext (sr_Segments req) (au_Name aud)"
  from assms(1) obtain ch idb acc root commitment extra kid view sig aadCtx where
    loop: "loop_done P w aadCtx req acc" and
    p: "p = (unsigned_package req (''pkg_'' @ hex_encode idb) aadCtx ch acc root commitment extra)
           \<lparr>pk_issuer := \<lparr> iss_iss = sr_Issuer req, iss_kid = kid \<rparr>,
            pk_signature := \<lparr> sn_alg = signatureAlg, sn_kid = kid,
              sn_signed_fields = RequiredSignedFields, sn_value = EncodeSignatureValue sig \<rparr>\<rparr>"
    by (rule sealed_obtain)
  have "aud \<in> set (sr_Audiences req)" using assms(2) by (simp add: owns_def)
  with loop have "audience_sealed P w aadCtx (sr_Segments req) acc aud" by (simp add: loop_done_def)
  then obtain seg sealed ph where seg: "segment_sealed P w aadCtx aud ?g seg sealed ph"
    "fmlookup (sa_manifestSegments acc) (au_Name aud) = Some seg"
    "fmlookup (sa_sealedSegments acc) (au_Name aud) = Some sealed"
    by (auto simp: audience_sealed_def)
  obtain wire dek aad where w: "decodeSealedSegment sealed = Some wire"
    "kw_Unwrap w priv (sw_epk wire) (sw_wrapped wire) = Inr dek"
    "AAD P aadCtx (au_Name aud) SupportedSpecVersion = Inr aad"
    "Decrypt P dek (sw_nonce wire) (sw_ciphertext wire @ sw_tag wire) aad = Inr (append_nil (raw_bytes ?g))"
    "\<exists>canon. JCS P (vbytes ?g) = Inr canon \<and> sg_plain_hash seg = H P canon"
    using seg(1) assms(3,4) by (rule segment_sealed_opens)
  have "append_nil (raw_bytes ?g) = ?g"
    using assms(5) by (cases ?g) (auto simp: append_nil_def)
  moreover have "confirms (pk_cnf p) w priv (au_Name aud)"
    using loop_done_confirms [OF loop assms(2)] by (simp add: p unsigned_package_def)
  ultimately show ?thesis
    using w seg unfolding opens_def by (auto simp: p unsigned_package_def)
qed

section \<open>The empty plaintext\<close>

text \<open>
  An empty slice that is not nil seals under the hash of the empty string but decrypts to a
  nil slice, which \<open>Open\<close> hashes as null: the segment is refused, unless the two hashes
  collide.
\<close>

lemma sealed_empty_refused:
  assumes "package_sealed P req si w iv p" "owns w req priv aud" "gcm_ok P"
    and "\<And>dek s wrapped epk s'. length dek = 32 \<Longrightarrow>
      kw_Wrap w (au_PublicKey aud) dek s = (Inr (wrapped, epk), s') \<Longrightarrow>
      kw_Unwrap w priv epk wrapped = Inr dek"
    and "segment_plaintext (sr_Segments req) (au_Name aud) = Some []"
    and "level1_valid P p opt" "distinct (map bs_name (vo_BindingSpecs opt))"
  shows "fst (Open P (Some p) priv w opt s') = Inl (Sentinel ErrHashMismatch)
    \<or> digest_collision P VNull (VStr [])"
proof -
  from assms(1) obtain ch idb acc root commitment extra kid view sig aadCtx where
    loop: "loop_done P w aadCtx req acc" and
    p: "p = (unsigned_package req (''pkg_'' @ hex_encode idb) aadCtx ch acc root commitment extra)
           \<lparr>pk_issuer := \<lparr> iss_iss = sr_Issuer req, iss_kid = kid \<rparr>,
            pk_signature := \<lparr> sn_alg = signatureAlg, sn_kid = kid,
              sn_signed_fields = RequiredSignedFields, sn_value = EncodeSignatureValue sig \<rparr>\<rparr>"
    by (rule sealed_obtain)
  have "aud \<in> set (sr_Audiences req)" using assms(2) by (simp add: owns_def)
  with loop have "audience_sealed P w aadCtx (sr_Segments req) acc aud" by (simp add: loop_done_def)
  then obtain seg sealed ph where seg: "segment_sealed P w aadCtx aud (Some []) seg sealed ph"
    "fmlookup (sa_manifestSegments acc) (au_Name aud) = Some seg"
    "fmlookup (sa_sealedSegments acc) (au_Name aud) = Some sealed"
    using assms(5) by (auto simp: audience_sealed_def)
  obtain wire dek aad where w: "decodeSealedSegment sealed = Some wire"
    "kw_Unwrap w priv (sw_epk wire) (sw_wrapped wire) = Inr dek"
    "AAD P aadCtx (au_Name aud) SupportedSpecVersion = Inr aad"
    "Decrypt P dek (sw_nonce wire) (sw_ciphertext wire @ sw_tag wire) aad = Inr (append_nil (raw_bytes (Some [])))"
    "\<exists>canon. JCS P (vbytes (Some [])) = Inr canon \<and> sg_plain_hash seg = H P canon"
    using seg(1) assms(3,4) by (rule segment_sealed_opens)
  have match: "matchingAudience (pk_cnf p) w priv = Some (au_Name aud)"
    using loop_done_confirms [OF loop assms(2)] by (simp add: matchingAudience_Some p unsigned_package_def)
  obtain r where r: "Verify P (Some p) \<lparr> vo_IssuerKey = vo_IssuerKey opt, vo_Intent = None,
      vo_BindingSpecs = vo_BindingSpecs opt \<rparr> = Inr r"
    using Verify_total by blast
  have "fst (Open P (Some p) priv w opt s') = open_with P p (au_Name aud) seg wire dek"
    using r match seg(2,3) w(1,2) Open_Level1 [OF assms(7) r] assms(6)
    by (simp add: Open_def Let_def p unsigned_package_def)
  moreover have "open_with P p (au_Name aud) seg wire dek =
    (case JCS P VNull of Inl _ \<Rightarrow> Inl (Sentinel ErrHashMismatch)
     | Inr c \<Rightarrow> if H P c \<noteq> sg_plain_hash seg then Inl (Sentinel ErrHashMismatch)
               else Inr (au_Name aud, None))"
    using w(3,4) by (simp add: open_with_def p unsigned_package_def append_nil_def vbytes_def)
  moreover have "vbytes (Some []) = VStr []"
    by (simp add: vbytes_def std_encode_def)
  ultimately show ?thesis
    using w(5) digest_inject [of P VNull _ "VStr []"] by (auto split: sum.split)
qed

section \<open>What the signature pins down\<close>

text \<open>The bytes of a sealed segment the manifest's hash is about.\<close>

definition segment_bytes :: "sealed_segment \<Rightarrow> bytes option" where
  "segment_bytes sealed =
     (case raw_url_decode (ss_ciphertext sealed) of None \<Rightarrow> None
      | Some c \<Rightarrow> map_option (\<lambda>t. c @ t) (raw_url_decode (ss_tag sealed)))"

lemma cipher_hash_ok_bytes: "cipher_hash_ok P seg sealed \<Longrightarrow> \<exists>b. segment_bytes sealed = Some b \<and> sg_cipher_hash seg = H P b"
  by (auto simp: cipher_hash_ok_def segment_bytes_def)

lemma cipher_hash_binds:
  assumes "cipher_hash_ok P seg sealed" "cipher_hash_ok P seg sealed'"
  shows "segment_bytes sealed = segment_bytes sealed' \<or>
    (\<exists>b b'. segment_bytes sealed = Some b \<and> segment_bytes sealed' = Some b' \<and> sha_collision P b b')"
proof -
  from assms obtain b b' where "segment_bytes sealed = Some b" "segment_bytes sealed' = Some b'" "H P b = H P b'"
    using cipher_hash_ok_bytes [OF assms(1)] cipher_hash_ok_bytes [OF assms(2)] by auto
  with H_inject [of P b b'] show ?thesis by auto
qed

lemma level1_binds:
  assumes "level1_valid P p opt" "level1_valid P q opt'" "BuildSigningView P p = BuildSigningView P q"
  shows "jcs_collision P (view_val p) (view_val q) \<or>
    (same_signed_content p q \<and>
     (\<forall>a \<in> set (mf_segment_order (pk_manifest p)). \<forall>sp sq.
        fmlookup (pk_segments p) a = Some sp \<longrightarrow> fmlookup (pk_segments q) a = Some sq \<longrightarrow>
        segment_bytes sp = segment_bytes sq \<or>
        (\<exists>b b'. segment_bytes sp = Some b \<and> segment_bytes sq = Some b' \<and> sha_collision P b b')))"
proof (cases "jcs_collision P (view_val p) (view_val q)")
  case False
  from assms(1) obtain view where view: "BuildSigningView P p = Inr view"
    by (auto simp: level1_valid_def issuer_signed_def)
  then have "same_signed_content p q \<or> jcs_collision P (view_val p) (view_val q)"
    by (rule BuildSigningView_inject) (simp only: assms(3) [symmetric] view)
  with False have same: "same_signed_content p q" by blast
  then have mf: "pk_manifest q = pk_manifest p" by (simp add: same_signed_content_def)
  show ?thesis
  proof (rule disjI2, intro conjI same ballI allI impI)
    fix a sp sq
    assume a: "a \<in> set (mf_segment_order (pk_manifest p))" "fmlookup (pk_segments p) a = Some sp"
      "fmlookup (pk_segments q) a = Some sq"
    from assms(1) a(1) have "a \<in> fset (fmdom (mf_segments (pk_manifest p)))"
      by (simp add: level1_valid_def package_shape_def)
    then obtain seg where seg: "fmlookup (mf_segments (pk_manifest p)) a = Some seg" by (auto simp: fmdom_iff)
    have cv: "content_valid P (vo_BindingSpecs opt) p" "content_valid P (vo_BindingSpecs opt') q"
      using assms(1,2) by (simp_all add: level1_valid_def)
    from seg mf have "fmlookup (mf_segments (pk_manifest q)) a = Some seg" by simp
    with cv seg a(2,3) have "cipher_hash_ok P seg sp" "cipher_hash_ok P seg sq"
      unfolding content_valid_def by blast+
    then show "segment_bytes sp = segment_bytes sq \<or>
      (\<exists>b b'. segment_bytes sp = Some b \<and> segment_bytes sq = Some b' \<and> sha_collision P b b')"
      by (rule cipher_hash_binds)
  qed
qed simp

text \<open>
  Entries of \<^verbatim>\<open>segments\<close> outside the signed order are invisible to verification, and so are
  the key and nonce fields of a sealed segment: two packages that agree on the signed
  fields, the signature and the hashed bytes are verified alike, question and all.
\<close>

definition same_hashed_segments :: "package \<Rightarrow> package \<Rightarrow> bool" where
  "same_hashed_segments p q \<longleftrightarrow>
     (\<forall>a \<in> set (mf_segment_order (pk_manifest p)).
        rel_option (\<lambda>s t. ss_ciphertext s = ss_ciphertext t \<and> ss_tag s = ss_tag t)
          (fmlookup (pk_segments p) a) (fmlookup (pk_segments q) a))"

lemma parse_order_cong:
  "(\<And>a. a \<in> set as \<Longrightarrow> fmlookup ss a = None \<longleftrightarrow> fmlookup ss' a = None) \<Longrightarrow>
     parse_order ms ss seen as = parse_order ms ss' seen as"
  by (induction as arbitrary: seen) simp_all

lemma checkCipherHash_cong:
  "ss_ciphertext s = ss_ciphertext t \<Longrightarrow> ss_tag s = ss_tag t \<Longrightarrow> checkCipherHash P seg s = checkCipherHash P seg t"
  unfolding checkCipherHash_def by (simp only:)

lemma cipher_loop_cong:
  "pk_manifest q = pk_manifest p \<Longrightarrow>
     (\<And>a. a \<in> set as \<Longrightarrow> checkCipherHash P (manifest_segment p a) (package_segment q a)
        = checkCipherHash P (manifest_segment p a) (package_segment p a)) \<Longrightarrow>
     cipher_loop P q as ph hs = cipher_loop P p as ph hs"
  by (induction as arbitrary: ph hs) (simp_all add: manifest_segment_def)

lemma Verify_unhashed:
  assumes "q = p\<lparr>pk_segments := segs\<rparr>" "same_hashed_segments p q"
  shows "Verify_w P (Some q) opt w = Verify_w P (Some p) opt w"
proof -
  let ?order = "mf_segment_order (pk_manifest p)"
  have same: "rel_option (\<lambda>s t. ss_ciphertext s = ss_ciphertext t \<and> ss_tag s = ss_tag t)
      (fmlookup (pk_segments p) a) (fmlookup (pk_segments q) a)" if "a \<in> set ?order" for a
    using assms(2) that by (simp add: same_hashed_segments_def)
  have order: "parse_order ms (pk_segments q) [] ?order = parse_order ms (pk_segments p) [] ?order" for ms
    by (rule parse_order_cong) (use same in \<open>fastforce elim: option.rel_cases\<close>)
  have fields: "signingViewFields q = signingViewFields p" by (simp add: assms(1) signingViewFields_def)
  have rest: "pk_manifest q = pk_manifest p" "pk_spec_version q = pk_spec_version p" "pk_signature q = pk_signature p"
    "pk_issuer q = pk_issuer p" "pk_bindings q = pk_bindings p" "pk_package_id q = pk_package_id p"
    "pk_intent q = pk_intent p"
    by (simp_all add: assms(1))
  have parse: "parsePackage P q = parsePackage P p"
    unfolding parsePackage_def ReconstructSigningView_def rest fields order ..
  have "cipher_loop P q ?order ph hs = cipher_loop P p ?order ph hs" for ph hs
  proof (rule cipher_loop_cong)
    fix a
    assume "a \<in> set ?order"
    from same [OF this] show "checkCipherHash P (manifest_segment p a) (package_segment q a)
        = checkCipherHash P (manifest_segment p a) (package_segment p a)"
      by (cases rule: option.rel_cases) (auto simp: package_segment_def intro!: checkCipherHash_cong)
  qed (rule rest)
  then have content: "verify_content P q opt r = verify_content P p opt r" for r
    unfolding verify_content_def rest by (simp only:)
  have intent: "verifyIntent_w P q iv r w = verifyIntent_w P p iv r w" for iv r w
    unfolding verifyIntent_w_def rest ..
  show ?thesis unfolding Verify_w_def option.case parse content intent rest ..
qed

end
