(* ===== verification/Key_Wrap.thy ===== *)
theory Key_Wrap
  imports Seal
begin

unbundle bit_operations_syntax

text \<open>
  \<^verbatim>\<open>internal/adapters/keywrap/x25519/wrapper.go\<close>: ECDH-ES over X25519, the Concat KDF of
  RFC 7518, RFC 3394 AES key wrap, and the RFC 7638 thumbprint. The block cipher, the hash
  and the curve are primitives; the constructions over them are the code's. The lemmas show
  that unwrapping inverts wrapping and accepts nothing else, and that the wrapper meets the
  contract \<open>wrapping_port\<close>.
\<close>

section \<open>Big-endian integers\<close>

definition be32 :: "32 word \<Rightarrow> bytes" where
  "be32 x = map (\<lambda>i. ucast (drop_bit (8 * i) x)) [3, 2, 1, 0]"

definition be64 :: "64 word \<Rightarrow> bytes" where
  "be64 x = map (\<lambda>i. ucast (drop_bit (8 * i) x)) [7, 6, 5, 4, 3, 2, 1, 0]"

definition safeUint32 :: "int \<Rightarrow> 32 word" where
  "safeUint32 n = (if n < 0 \<or> n > 4294967295 then 0 else word_of_int n)"

definition safeUint64 :: "int \<Rightarrow> 64 word" where
  "safeUint64 n = (if n < 0 then 0 else word_of_int n)"

lemma length_be [simp]: "length (be32 x) = 4" "length (be64 y) = 8"
  by (simp_all add: be32_def be64_def)

section \<open>The Concat KDF\<close>

definition algorithmID :: string where
  "algorithmID = ''ECDH-ES+A256KW''"

definition kekLenBits :: int where
  "kekLenBits = 256"

definition lengthPrefixed :: "bytes \<Rightarrow> bytes" where
  "lengthPrefixed v = be32 (safeUint32 (int (length v))) @ v"

definition concatKDFOtherInfo :: "string \<Rightarrow> int \<Rightarrow> bytes" where
  "concatKDFOtherInfo algID keyDataLenBits =
     lengthPrefixed (bytes_of algID) @ lengthPrefixed [] @ lengthPrefixed []
     @ be32 (safeUint32 keyDataLenBits)"

text \<open>
  The loop \<^verbatim>\<open>for counter := uint32(1); len(out) < keyDataLen; counter++\<close>. The fuel bounds the
  rounds; one round adds 32 bytes, so \<open>keyDataLen\<close> rounds are enough (\<open>kdf_loop_done\<close>).
\<close>

fun kdf_loop :: "prims \<Rightarrow> nat \<Rightarrow> bytes \<Rightarrow> bytes \<Rightarrow> nat \<Rightarrow> 32 word \<Rightarrow> bytes \<Rightarrow> bytes option" where
  "kdf_loop P fuel z otherInfo keyDataLen counter out =
     (if length out < keyDataLen
      then (case fuel of 0 \<Rightarrow> None
            | Suc f \<Rightarrow> kdf_loop P f z otherInfo keyDataLen (counter + 1)
                        (out @ sha256 P (be32 counter @ z @ otherInfo)))
      else Some out)"

declare kdf_loop.simps [simp del]

definition concatKDF :: "prims \<Rightarrow> bytes \<Rightarrow> bytes \<Rightarrow> nat \<Rightarrow> bytes" where
  "concatKDF P z otherInfo keyDataLenBits =
     (let keyDataLen = keyDataLenBits div 8 in
      case kdf_loop P keyDataLen z otherInfo keyDataLen 1 [] of
        None \<Rightarrow> []
      | Some out \<Rightarrow> take keyDataLen out)"

section \<open>RFC 3394 key wrap\<close>

definition aesKeyWrapIV :: bytes where
  "aesKeyWrapIV = replicate 8 0xA6"

definition xorCounter :: "bytes \<Rightarrow> 64 word \<Rightarrow> bytes" where
  "xorCounter a t = map2 (\<lambda>x y. x XOR y) a (be64 t)"

definition split_blocks :: "nat \<Rightarrow> bytes \<Rightarrow> bytes list" where
  \<comment> \<open>\<^verbatim>\<open>copy(r[i][:], b[i*8:(i+1)*8])\<close> for \<open>i\<close> below \<open>n\<close>\<close>
  "split_blocks n b = map (\<lambda>i. take 8 (drop (8 * i) b)) [0..<n]"

text \<open>One step of each loop, on the register \<open>a\<close> and the blocks \<open>r\<close>.\<close>

definition wrap_step :: "prims \<Rightarrow> bytes \<Rightarrow> nat \<Rightarrow> nat \<Rightarrow> nat \<Rightarrow> bytes \<times> bytes list \<Rightarrow> bytes \<times> bytes list" where
  "wrap_step P kek n j i s =
     (let block16 = aes_encrypt P kek (fst s @ snd s ! (i - 1));
          a = xorCounter (take 8 block16) (safeUint64 (int n * int j + int i))
      in (a, (snd s)[i - 1 := drop 8 block16]))"

definition unwrap_step :: "prims \<Rightarrow> bytes \<Rightarrow> nat \<Rightarrow> nat \<Rightarrow> nat \<Rightarrow> bytes \<times> bytes list \<Rightarrow> bytes \<times> bytes list" where
  "unwrap_step P kek n j i s =
     (let a = xorCounter (fst s) (safeUint64 (int n * int j + int i));
          block16 = aes_decrypt P kek (a @ snd s ! (i - 1))
      in (take 8 block16, (snd s)[i - 1 := drop 8 block16]))"

definition wrap_rounds :: "prims \<Rightarrow> bytes \<Rightarrow> nat \<Rightarrow> bytes \<times> bytes list \<Rightarrow> bytes \<times> bytes list" where
  "wrap_rounds P kek n = fold (\<lambda>j. fold (\<lambda>i. wrap_step P kek n j i) [1..<Suc n]) [0..<6]"

definition unwrap_rounds :: "prims \<Rightarrow> bytes \<Rightarrow> nat \<Rightarrow> bytes \<times> bytes list \<Rightarrow> bytes \<times> bytes list" where
  "unwrap_rounds P kek n =
     fold (\<lambda>j. fold (\<lambda>i. unwrap_step P kek n j i) (rev [1..<Suc n])) (rev [0..<6])"

definition aesKeyWrap :: "prims \<Rightarrow> bytes \<Rightarrow> bytes \<Rightarrow> bytes res" where
  "aesKeyWrap P kek keyData =
     (if length keyData = 0 \<or> length keyData mod 8 \<noteq> 0 then Inl (Sentinel ErrWrapFailed)
      else
     (case aes_NewCipher kek of
        Inl _ \<Rightarrow> Inl (Sentinel ErrWrapFailed)
      | Inr block \<Rightarrow>
          let n = length keyData div 8;
              (a, r) = wrap_rounds P block n (aesKeyWrapIV, split_blocks n keyData)
          in Inr (a @ concat r)))"

definition aesKeyUnwrap :: "prims \<Rightarrow> bytes \<Rightarrow> bytes \<Rightarrow> bytes res" where
  "aesKeyUnwrap P kek wrapped =
     (if length wrapped < 16 \<or> length wrapped mod 8 \<noteq> 0 then Inl (Sentinel ErrWrapFailed)
      else
     (case aes_NewCipher kek of
        Inl _ \<Rightarrow> Inl (Sentinel ErrWrapFailed)
      | Inr block \<Rightarrow>
          let n = length wrapped div 8 - 1;
              (a, r) = unwrap_rounds P block n (take 8 wrapped, split_blocks n (drop 8 wrapped))
          in if a \<noteq> aesKeyWrapIV
             then Inl (LibErr ''keywrap/x25519: integrity check failed'')
             else Inr (concat r)))"

section \<open>The wrapper\<close>

text \<open>
  \<^verbatim>\<open>NewPublicKey\<close> and \<^verbatim>\<open>NewPrivateKey\<close> of \<^verbatim>\<open>crypto/ecdh\<close> for X25519 check the length only;
  \<^verbatim>\<open>GenerateKey\<close> reads the 32 bytes of the private key.
\<close>

definition ecdh_NewPublicKey :: "bytes \<Rightarrow> bytes res" where
  "ecdh_NewPublicKey b =
     (if length b = 32 then Inr b else Inl (LibErr ''crypto/ecdh: invalid public key''))"

definition ecdh_NewPrivateKey :: "bytes \<Rightarrow> bytes res" where
  "ecdh_NewPrivateKey b =
     (if length b = 32 then Inr b else Inl (LibErr ''crypto/ecdh: invalid private key size''))"

definition ecdh_ECDH :: "prims \<Rightarrow> bytes \<Rightarrow> bytes \<Rightarrow> bytes res" where
  "ecdh_ECDH P priv pub =
     (case x25519_ecdh P priv pub of
        None \<Rightarrow> Inl (LibErr ''crypto/ecdh: bad X25519 remote ECDH input: low order point'')
      | Some shared \<Rightarrow> Inr shared)"

definition derive_kek :: "prims \<Rightarrow> bytes \<Rightarrow> bytes" where
  "derive_kek P shared = concatKDF P shared (concatKDFOtherInfo algorithmID kekLenBits) (nat kekLenBits)"

text \<open>
  The 32 bytes of the ephemeral key; a byte that \<^verbatim>\<open>GenerateKey\<close> may read besides and throw away
  is not counted.
\<close>

definition Wrap :: "prims \<Rightarrow> bytes \<Rightarrow> bytes \<Rightarrow> world \<Rightarrow> (bytes \<times> bytes) res \<times> world" where
  "Wrap P recipientPub dek w =
     (case ecdh_NewPublicKey recipientPub of
        Inl e \<Rightarrow> (Inl (errorf ''keywrap/x25519: parse recipient public key: '' e), w)
      | Inr recipient \<Rightarrow>
     (case rand_read 32 w of
        (Inl e, w) \<Rightarrow> (Inl (errorf ''keywrap/x25519: generate ephemeral key: '' e), w)
      | (Inr ephemeralPriv, w) \<Rightarrow>
     (case ecdh_ECDH P ephemeralPriv recipient of
        Inl e \<Rightarrow> (Inl (errorf ''keywrap/x25519: ecdh: '' e), w)
      | Inr shared \<Rightarrow>
     (case aesKeyWrap P (derive_kek P shared) dek of
        Inl e \<Rightarrow> (Inl e, w)
      | Inr wrapped \<Rightarrow> (Inr (wrapped, x25519_public P ephemeralPriv), w)))))"

definition Unwrap :: "prims \<Rightarrow> bytes \<Rightarrow> bytes \<Rightarrow> bytes \<Rightarrow> bytes res" where
  "Unwrap P priv epk wrapped =
     (case ecdh_NewPrivateKey priv of
        Inl _ \<Rightarrow> Inl (Sentinel ErrUnwrapFailed)
      | Inr recipientPriv \<Rightarrow>
     (case ecdh_NewPublicKey epk of
        Inl _ \<Rightarrow> Inl (Sentinel ErrUnwrapFailed)
      | Inr ephemeralPub \<Rightarrow>
     (case ecdh_ECDH P recipientPriv ephemeralPub of
        Inl _ \<Rightarrow> Inl (Sentinel ErrUnwrapFailed)
      | Inr shared \<Rightarrow>
     (case aesKeyUnwrap P (derive_kek P shared) wrapped of
        Inl _ \<Rightarrow> Inl (Sentinel ErrUnwrapFailed)
      | Inr dek \<Rightarrow> Inr dek))))"

definition PublicKey :: "prims \<Rightarrow> bytes \<Rightarrow> bytes res" where
  "PublicKey P priv =
     (case ecdh_NewPrivateKey priv of
        Inl _ \<Rightarrow> Inl (Sentinel ErrUnwrapFailed)
      | Inr k \<Rightarrow> Inr (x25519_public P k))"

definition thumbprintOf :: "prims \<Rightarrow> bytes \<Rightarrow> string" where
  "thumbprintOf P canonicalJWK = raw_url_encode (sha256 P canonicalJWK)"

definition canonical_jwk :: "string \<Rightarrow> string" where
  \<comment> \<open>the format string of \<^verbatim>\<open>Thumbprint\<close>, its \<^verbatim>\<open>%q\<close> filled with \<open>x\<close>\<close>
  "canonical_jwk x =
     [CHR ''{'', CHR 0x22] @ ''crv'' @ [CHR 0x22, CHR '':'', CHR 0x22] @ ''X25519'' @ [CHR 0x22, CHR '','']
     @ [CHR 0x22] @ ''kty'' @ [CHR 0x22, CHR '':'', CHR 0x22] @ ''OKP'' @ [CHR 0x22, CHR '','']
     @ [CHR 0x22, CHR ''x'', CHR 0x22, CHR '':''] @ go_quote x @ [CHR ''}'']"

definition Thumbprint :: "prims \<Rightarrow> bytes \<Rightarrow> string res" where
  "Thumbprint P pub =
     (case ecdh_NewPublicKey pub of
        Inl e \<Rightarrow> Inl (errorf ''keywrap/x25519: parse public key: '' e)
      | Inr _ \<Rightarrow> Inr (thumbprintOf P (bytes_of (canonical_jwk (raw_url_encode pub)))))"

definition Wrapper :: "prims \<Rightarrow> key_wrapper" where
  "Wrapper P = \<lparr> kw_Wrap = Wrap P, kw_Unwrap = Unwrap P, kw_Thumbprint = Thumbprint P,
                 kw_PublicKey = PublicKey P \<rparr>"

section \<open>The key derivation is the one-step KDF\<close>

text \<open>The \<open>k\<close>-th block of SP 800-56A, and how many of them a length needs.\<close>

definition kdf_block :: "prims \<Rightarrow> bytes \<Rightarrow> bytes \<Rightarrow> nat \<Rightarrow> bytes" where
  "kdf_block P z otherInfo k = sha256 P (be32 (word_of_nat k) @ z @ otherInfo)"

definition kdf_spec :: "prims \<Rightarrow> bytes \<Rightarrow> bytes \<Rightarrow> nat \<Rightarrow> bytes" where
  "kdf_spec P z otherInfo n =
     take n (concat (map (kdf_block P z otherInfo) [1..<Suc ((n + 31) div 32)]))"

lemma length_kdf_blocks:
  "sha256_ok P \<Longrightarrow> length (concat (map (kdf_block P z oi) ks)) = 32 * length ks"
  by (induction ks) (simp_all add: kdf_block_def sha256_ok_def)

lemma kdf_loop_blocks:
  assumes "sha256_ok P" "n \<le> 32 * (k + fuel)"
  shows "kdf_loop P fuel z oi n (word_of_nat (Suc k)) (concat (map (kdf_block P z oi) [1..<Suc k]))
    = Some (concat (map (kdf_block P z oi) [1..<Suc (max k ((n + 31) div 32))]))"
  using assms(2)
proof (induction fuel arbitrary: k)
  case 0
  then have "(n + 31) div 32 \<le> k" by simp
  with 0 show ?case
    by (simp add: kdf_loop.simps [of P 0] length_kdf_blocks [OF assms(1)] max_def del: upt_Suc)
next
  case (Suc fuel)
  let ?out = "concat (map (kdf_block P z oi) [1..<Suc k])"
  have len: "length ?out = 32 * k"
    by (simp add: length_kdf_blocks [OF assms(1)] del: upt_Suc)
  show ?case
  proof (cases "32 * k < n")
    case True
    have ext: "?out @ sha256 P (be32 (word_of_nat (Suc k)) @ z @ oi)
        = concat (map (kdf_block P z oi) [1..<Suc (Suc k)])"
      by (simp add: kdf_block_def)
    have m: "max (Suc k) ((n + 31) div 32) = max k ((n + 31) div 32)"
    proof -
      have "Suc k \<le> (n + 31) div 32" using div_le_mono [of "32 * Suc k" "n + 31" 32] True by simp
      then show ?thesis by simp
    qed
    have w: "word_of_nat (Suc k) + 1 = (word_of_nat (Suc (Suc k)) :: 32 word)" by simp
    show ?thesis
      using Suc.IH [of "Suc k"] Suc.prems True
      unfolding kdf_loop.simps [of P "Suc fuel"] len nat.case ext w m by simp
  next
    case False
    then have "(n + 31) div 32 \<le> k" by simp
    with False show ?thesis
      unfolding kdf_loop.simps [of P "Suc fuel"] len by (simp add: max_def del: upt_Suc)
  qed
qed

text \<open>The fuel is never exhausted, and the key has the requested length.\<close>

lemma kdf_loop_done:
  assumes "sha256_ok P"
  shows "\<exists>out. kdf_loop P n z oi n 1 [] = Some out \<and> n \<le> length out"
proof -
  have "kdf_loop P n z oi n 1 [] = Some (concat (map (kdf_block P z oi) [1..<Suc ((n + 31) div 32)]))"
    using kdf_loop_blocks [OF assms, of n 0 n z oi] by simp
  then show ?thesis
    by (simp add: length_kdf_blocks [OF assms] del: upt_Suc)
qed

lemma concatKDF_spec:
  assumes "sha256_ok P"
  shows "concatKDF P z oi bits = kdf_spec P z oi (bits div 8)"
  using kdf_loop_blocks [OF assms, of "bits div 8" 0 "bits div 8" z oi]
  by (simp add: concatKDF_def kdf_spec_def Let_def)

lemma length_concatKDF: "sha256_ok P \<Longrightarrow> length (concatKDF P z oi bits) = bits div 8"
  by (simp add: concatKDF_spec kdf_spec_def length_kdf_blocks del: upt_Suc)

lemma derive_kek_block:
  "sha256_ok P \<Longrightarrow> derive_kek P z = sha256 P (be32 1 @ z @ concatKDFOtherInfo algorithmID 256)"
  by (simp add: derive_kek_def concatKDF_spec kdf_spec_def kekLenBits_def kdf_block_def sha256_ok_def)

text \<open>The context of this wrapper, byte for byte: the length is in bits.\<close>

lemma otherInfo_bytes:
  "concatKDFOtherInfo algorithmID 256 =
     [0, 0, 0, 14] @ bytes_of ''ECDH-ES+A256KW'' @ [0, 0, 0, 0] @ [0, 0, 0, 0] @ [0, 0, 1, 0]"
  by (simp add: concatKDFOtherInfo_def lengthPrefixed_def safeUint32_def algorithmID_def be32_def
      bytes_of_def)

section \<open>Key wrap inverts\<close>

definition regs :: "nat \<Rightarrow> bytes \<times> bytes list \<Rightarrow> bool" where
  "regs n s \<longleftrightarrow> length (fst s) = 8 \<and> length (snd s) = n \<and> (\<forall>b \<in> set (snd s). length b = 8)"

lemma length_xorCounter [simp]: "length a = 8 \<Longrightarrow> length (xorCounter a t) = 8"
  by (simp add: xorCounter_def)

lemma xor_twice: "length a = length b \<Longrightarrow> map2 (\<lambda>x y. x XOR y) (map2 (\<lambda>x y. x XOR y) a b) b = (a :: byte list)"
  by (induction a b rule: list_induct2) (simp_all add: ac_simps)

lemma xorCounter_twice [simp]: "length a = 8 \<Longrightarrow> xorCounter (xorCounter a t) t = a"
  by (simp add: xorCounter_def xor_twice)

lemma regs_update: "regs n s \<Longrightarrow> length a = 8 \<Longrightarrow> length b = 8 \<Longrightarrow> regs n (a, (snd s)[i := b])"
  by (auto simp: regs_def dest!: set_update_subset_insert [THEN subsetD])

lemma regs_nth: "regs n s \<Longrightarrow> i < n \<Longrightarrow> length (snd s ! i) = 8"
  by (simp add: regs_def)

lemma wrap_step_regs:
  assumes "aes_ok P" "regs n s" "1 \<le> i" "i \<le> n"
  shows "regs n (wrap_step P kek n j i s)"
proof -
  have "length (fst s @ snd s ! (i - 1)) = 16"
    using assms regs_nth [of n s "i - 1"] by (simp add: regs_def)
  with assms(1) have "length (aes_encrypt P kek (fst s @ snd s ! (i - 1))) = 16" by (simp add: aes_ok_def)
  then show ?thesis using assms(2) by (simp add: wrap_step_def Let_def regs_update)
qed

lemma unwrap_step_regs:
  assumes "aes_ok P" "regs n s" "1 \<le> i" "i \<le> n"
  shows "regs n (unwrap_step P kek n j i s)"
proof -
  have "length (xorCounter (fst s) t @ snd s ! (i - 1)) = 16" for t
    using assms regs_nth [of n s "i - 1"] by (simp add: regs_def)
  with assms(1) have "length (aes_decrypt P kek (xorCounter (fst s) t @ snd s ! (i - 1))) = 16" for t
    by (simp add: aes_ok_def)
  then show ?thesis using assms(2) by (simp add: unwrap_step_def Let_def regs_update)
qed

lemma unwrap_wrap_step:
  assumes "aes_ok P" "regs n s" "1 \<le> i" "i \<le> n"
  shows "unwrap_step P kek n j i (wrap_step P kek n j i s) = s"
proof -
  let ?in = "fst s @ snd s ! (i - 1)"
  have len: "length ?in = 16" "length (fst s) = 8" "i - 1 < length (snd s)"
    using assms regs_nth [of n s "i - 1"] by (simp_all add: regs_def)
  from assms(1) len(1) have "length (aes_encrypt P kek ?in) = 16" "aes_decrypt P kek (aes_encrypt P kek ?in) = ?in"
    by (simp_all add: aes_ok_def)
  with len show ?thesis by (simp add: wrap_step_def unwrap_step_def Let_def)
qed

lemma wrap_unwrap_step:
  assumes "aes_ok P" "regs n s" "1 \<le> i" "i \<le> n"
  shows "wrap_step P kek n j i (unwrap_step P kek n j i s) = s"
proof -
  let ?in = "xorCounter (fst s) (safeUint64 (int n * int j + int i)) @ snd s ! (i - 1)"
  have len: "length ?in = 16" "length (fst s) = 8" "i - 1 < length (snd s)"
    using assms regs_nth [of n s "i - 1"] by (simp_all add: regs_def)
  from assms(1) len(1) have "length (aes_decrypt P kek ?in) = 16" "aes_encrypt P kek (aes_decrypt P kek ?in) = ?in"
    by (simp_all add: aes_ok_def)
  with len show ?thesis by (simp add: wrap_step_def unwrap_step_def Let_def)
qed

text \<open>Undoing a sequence of steps in reverse, for steps that keep a condition.\<close>

lemma fold_keeps: "(\<And>x s. x \<in> set xs \<Longrightarrow> Q s \<Longrightarrow> Q (f x s)) \<Longrightarrow> Q s \<Longrightarrow> Q (fold f xs s)"
  by (induction xs arbitrary: s) simp_all

lemma fold_undo:
  assumes "\<And>x s. x \<in> set xs \<Longrightarrow> Q s \<Longrightarrow> Q (f x s) \<and> g x (f x s) = s" "Q s"
  shows "fold g (rev xs) (fold f xs s) = s"
  using assms by (induction xs arbitrary: s) simp_all

definition wrap_pass :: "prims \<Rightarrow> bytes \<Rightarrow> nat \<Rightarrow> nat \<Rightarrow> bytes \<times> bytes list \<Rightarrow> bytes \<times> bytes list" where
  "wrap_pass P kek n j = fold (\<lambda>i. wrap_step P kek n j i) [1..<Suc n]"

definition unwrap_pass :: "prims \<Rightarrow> bytes \<Rightarrow> nat \<Rightarrow> nat \<Rightarrow> bytes \<times> bytes list \<Rightarrow> bytes \<times> bytes list" where
  "unwrap_pass P kek n j = fold (\<lambda>i. unwrap_step P kek n j i) (rev [1..<Suc n])"

lemma rounds_passes:
  "wrap_rounds P kek n = fold (wrap_pass P kek n) [0..<6]"
  "unwrap_rounds P kek n = fold (unwrap_pass P kek n) (rev [0..<6])"
  by (simp_all only: wrap_rounds_def unwrap_rounds_def wrap_pass_def [abs_def] unwrap_pass_def [abs_def])

lemma pass_index: "i \<in> set [1..<Suc n] \<Longrightarrow> 1 \<le> i" "i \<in> set [1..<Suc n] \<Longrightarrow> i \<le> n"
  by auto

lemma pass_regs:
  assumes aes: "aes_ok P" and "regs n s"
  shows "regs n (wrap_pass P kek n j s)" "regs n (unwrap_pass P kek n j s)"
proof -
  show "regs n (wrap_pass P kek n j s)"
    unfolding wrap_pass_def
    by (rule fold_keeps [where Q = "regs n", OF _ assms(2)])
      (rule wrap_step_regs [OF aes _ pass_index])
  show "regs n (unwrap_pass P kek n j s)"
    unfolding unwrap_pass_def
    by (rule fold_keeps [where Q = "regs n", OF _ assms(2)], unfold set_rev)
      (rule unwrap_step_regs [OF aes _ pass_index])
qed

lemma pass_undo:
  assumes aes: "aes_ok P" and "regs n s"
  shows "unwrap_pass P kek n j (wrap_pass P kek n j s) = s"
    "wrap_pass P kek n j (unwrap_pass P kek n j s) = s"
proof -
  show "unwrap_pass P kek n j (wrap_pass P kek n j s) = s"
    unfolding wrap_pass_def unwrap_pass_def
    by (rule fold_undo [where Q = "regs n", OF _ assms(2)], rule conjI)
      (rule wrap_step_regs [OF aes _ pass_index], assumption+,
       rule unwrap_wrap_step [OF aes _ pass_index])
  have "fold (\<lambda>i. wrap_step P kek n j i) (rev (rev [1..<Suc n]))
      (fold (\<lambda>i. unwrap_step P kek n j i) (rev [1..<Suc n]) s) = s"
    by (rule fold_undo [where Q = "regs n", OF _ assms(2)], unfold set_rev, rule conjI)
      (rule unwrap_step_regs [OF aes _ pass_index], assumption+,
       rule wrap_unwrap_step [OF aes _ pass_index])
  then show "wrap_pass P kek n j (unwrap_pass P kek n j s) = s"
    by (simp only: wrap_pass_def unwrap_pass_def rev_rev_ident)
qed

lemma wrap_rounds_regs: "aes_ok P \<Longrightarrow> regs n s \<Longrightarrow> regs n (wrap_rounds P kek n s)"
  unfolding rounds_passes by (rule fold_keeps [where Q = "regs n"]) (simp_all add: pass_regs)

lemma unwrap_rounds_regs: "aes_ok P \<Longrightarrow> regs n s \<Longrightarrow> regs n (unwrap_rounds P kek n s)"
  unfolding rounds_passes by (rule fold_keeps [where Q = "regs n"]) (simp_all add: pass_regs)

lemma unwrap_wrap_rounds:
  "aes_ok P \<Longrightarrow> regs n s \<Longrightarrow> unwrap_rounds P kek n (wrap_rounds P kek n s) = s"
  unfolding rounds_passes by (rule fold_undo [where Q = "regs n"]) (simp_all add: pass_regs pass_undo)

lemma wrap_unwrap_rounds:
  assumes "aes_ok P" "regs n s"
  shows "wrap_rounds P kek n (unwrap_rounds P kek n s) = s"
proof -
  have "fold (wrap_pass P kek n) (rev (rev [0..<6])) (fold (unwrap_pass P kek n) (rev [0..<6]) s) = s"
    by (rule fold_undo [where Q = "regs n"]) (use assms in \<open>simp_all add: pass_regs pass_undo\<close>)
  then show ?thesis by (simp only: rounds_passes rev_rev_ident)
qed

text \<open>Blocks and the bytes they were cut from.\<close>

lemma split_blocks_Suc: "split_blocks (Suc n) b = take 8 b # split_blocks n (drop 8 b)"
  by (simp add: split_blocks_def upt_rec [of 0] map_Suc_upt [symmetric] comp_def add.commute del: upt_Suc)

lemma concat_split_blocks: "length b = 8 * n \<Longrightarrow> concat (split_blocks n b) = b"
proof (induction n arbitrary: b)
  case (Suc n)
  then show ?case by (simp add: split_blocks_Suc)
qed (simp add: split_blocks_def)

lemma split_blocks_concat:
  "\<forall>b \<in> set r. length b = 8 \<Longrightarrow> split_blocks (length r) (concat r) = r"
proof (induction r)
  case (Cons b r)
  then show ?case by (simp add: split_blocks_Suc)
qed (simp add: split_blocks_def)

lemma split_blocks_regs:
  "length a = 8 \<Longrightarrow> length b = 8 * n \<Longrightarrow> regs n (a, split_blocks n b)"
  by (auto simp: regs_def split_blocks_def)

lemma length_concat_regs: "regs n s \<Longrightarrow> length (concat (snd s)) = 8 * n"
proof -
  have "length (concat r) = 8 * length r" if "\<forall>b \<in> set r. length b = 8" for r :: "bytes list"
    using that by (induction r) simp_all
  then show "regs n s \<Longrightarrow> ?thesis" by (simp add: regs_def)
qed

lemma aesKeyWrap_Inr:
  "aesKeyWrap P kek d = Inr w \<longleftrightarrow>
     d \<noteq> [] \<and> length d mod 8 = 0 \<and> length kek \<in> {16, 24, 32} \<and>
     w = (let s = wrap_rounds P kek (length d div 8) (aesKeyWrapIV, split_blocks (length d div 8) d)
          in fst s @ concat (snd s))"
  by (auto simp: aesKeyWrap_def aes_NewCipher_def Let_def split: prod.splits)

lemma aesKeyUnwrap_Inr:
  "aesKeyUnwrap P kek w = Inr d \<longleftrightarrow>
     16 \<le> length w \<and> length w mod 8 = 0 \<and> length kek \<in> {16, 24, 32} \<and>
     (let s = unwrap_rounds P kek (length w div 8 - 1) (take 8 w, split_blocks (length w div 8 - 1) (drop 8 w))
      in fst s = aesKeyWrapIV \<and> d = concat (snd s))"
  by (auto simp: aesKeyUnwrap_def aes_NewCipher_def Let_def split: prod.splits)

lemma length_IV [simp]: "length aesKeyWrapIV = 8"
  by (simp add: aesKeyWrapIV_def)

lemma aesKeyUnwrap_Wrap:
  assumes "aes_ok P" "aesKeyWrap P kek d = Inr w"
  shows "aesKeyUnwrap P kek w = Inr d" "length w = length d + 8"
proof -
  define n where "n = length d div 8"
  define s where "s = wrap_rounds P kek n (aesKeyWrapIV, split_blocks n d)"
  from assms(2) have d: "d \<noteq> []" "length d = 8 * n" "length kek \<in> {16, 24, 32}" "w = fst s @ concat (snd s)"
    by (auto simp: aesKeyWrap_Inr n_def s_def Let_def)
  then have n: "1 \<le> n" by (cases n) auto
  have r0: "regs n (aesKeyWrapIV, split_blocks n d)" using d(2) by (simp add: split_blocks_regs)
  then have r: "regs n s" unfolding s_def by (rule wrap_rounds_regs [OF assms(1)])
  have w: "length w = 8 * n + 8" "take 8 w = fst s" "drop 8 w = concat (snd s)"
    using r length_concat_regs [OF r] by (simp_all add: d(4) regs_def)
  have wn: "length w div 8 - 1 = n" using w(1) by simp
  have "split_blocks n (concat (snd s)) = snd s"
    using split_blocks_concat [of "snd s"] r by (simp add: regs_def)
  then have "unwrap_rounds P kek n (take 8 w, split_blocks n (drop 8 w)) = (aesKeyWrapIV, split_blocks n d)"
    using unwrap_wrap_rounds [OF assms(1) r0] by (simp add: w s_def)
  then show "aesKeyUnwrap P kek w = Inr d"
    unfolding aesKeyUnwrap_Inr wn using d(3) n w(1) concat_split_blocks [OF d(2)] by simp
  show "length w = length d + 8" using w(1) d(2) by simp
qed

text \<open>Unwrapping accepts nothing but the wrap of what it returns.\<close>

lemma aesKeyWrap_Unwrap:
  assumes "aes_ok P" "aesKeyUnwrap P kek w = Inr d"
  shows "aesKeyWrap P kek d = Inr w"
proof -
  define n where "n = length w div 8 - 1"
  define s where "s = unwrap_rounds P kek n (take 8 w, split_blocks n (drop 8 w))"
  from assms(2) have w: "16 \<le> length w" "length w mod 8 = 0" "length kek \<in> {16, 24, 32}"
    "fst s = aesKeyWrapIV" "d = concat (snd s)"
    by (auto simp: aesKeyUnwrap_Inr n_def s_def Let_def)
  then have n: "length w = 8 * n + 8" "1 \<le> n" unfolding n_def by presburger+
  have r0: "regs n (take 8 w, split_blocks n (drop 8 w))" using n by (intro split_blocks_regs) simp_all
  then have r: "regs n s" unfolding s_def by (rule unwrap_rounds_regs [OF assms(1)])
  have d: "length d = 8 * n" using length_concat_regs [OF r] w(5) by simp
  have "split_blocks n d = snd s"
    using split_blocks_concat [of "snd s"] r by (simp add: regs_def w(5))
  then have "wrap_rounds P kek n (aesKeyWrapIV, split_blocks n d) = (take 8 w, split_blocks n (drop 8 w))"
  proof -
    have "(aesKeyWrapIV, split_blocks n d) = s"
      using w(4) \<open>split_blocks n d = snd s\<close> by (simp add: prod_eq_iff)
    then show ?thesis using wrap_unwrap_rounds [OF assms(1) r0, of kek] by (simp add: s_def)
  qed
  moreover have "take 8 w @ concat (split_blocks n (drop 8 w)) = w"
    using concat_split_blocks [of "drop 8 w" n] n by simp
  ultimately show ?thesis
    unfolding aesKeyWrap_Inr using d n(2) w(3) by auto
qed

section \<open>The contract of the wrapper\<close>

definition wrapper_laws :: "prims \<Rightarrow> bool" where
  "wrapper_laws P \<longleftrightarrow> aes_ok P \<and> ecdh_ok P"

lemma Wrap_Inr:
  assumes "Wrap P pub dek w = (Inr (wrapped, epk), w')"
  obtains e shared where "length pub = 32" "rand_read 32 w = (Inr e, w')"
    "x25519_ecdh P e pub = Some shared" "aesKeyWrap P (derive_kek P shared) dek = Inr wrapped"
    "epk = x25519_public P e"
  using assms by (auto simp: Wrap_def ecdh_NewPublicKey_def ecdh_ECDH_def split: if_splits sum.splits prod.splits option.splits)

lemma Wrap_advances: "Wrap P pub dek w = (r, w') \<Longrightarrow> \<exists>es. advances w w' es \<and> (\<forall>e \<in> set es. \<exists>b. e = EvRand b)"
proof (cases "rand_read 32 w")
  fix x v assume rd: "rand_read 32 w = (x, v)" and wr: "Wrap P pub dek w = (r, w')"
  have "w' = w \<or> w' = v"
    using wr rd by (auto simp: Wrap_def split: sum.splits prod.splits)
  moreover have "\<exists>es. advances w v es \<and> (\<forall>e \<in> set es. \<exists>b. e = EvRand b)"
  proof (cases x)
    case (Inl e)
    with rd have "v = w" by (auto dest: rand_read_error)
    then show ?thesis by (auto intro: exI [of _ "[]"])
  next
    case (Inr b)
    with rd advances_rand [of 32 w b v] show ?thesis by (intro exI [of _ "[EvRand b]"]) simp
  qed
  ultimately show ?thesis by (auto intro: exI [of _ "[]"])
qed

lemma Wrap_Unwrap:
  assumes "wrapper_laws P" "PublicKey P priv = Inr pub" "Wrap P pub dek w = (Inr (wrapped, epk), w')"
  shows "Unwrap P priv epk wrapped = Inr dek"
proof -
  from assms(3) obtain e shared where e: "length pub = 32" "rand_read 32 w = (Inr e, w')"
    "x25519_ecdh P e pub = Some shared" "aesKeyWrap P (derive_kek P shared) dek = Inr wrapped"
    "epk = x25519_public P e" by (rule Wrap_Inr)
  have priv: "length priv = 32" "pub = x25519_public P priv"
    using assms(2) by (auto simp: PublicKey_def ecdh_NewPrivateKey_def split: if_splits)
  have "length e = 32" using advances_rand [OF e(2)] by simp
  with assms(1) priv e(3,5) have "x25519_ecdh P priv epk = Some shared" "length epk = 32"
    by (simp_all add: wrapper_laws_def ecdh_ok_def)
  moreover have "aesKeyUnwrap P (derive_kek P shared) wrapped = Inr dek"
    using assms(1) e(4) by (simp add: wrapper_laws_def aesKeyUnwrap_Wrap)
  ultimately show ?thesis
    using priv(1) by (simp add: Unwrap_def ecdh_NewPrivateKey_def ecdh_NewPublicKey_def ecdh_ECDH_def)
qed

text \<open>Every failure to unwrap is the one sentinel.\<close>

lemma Unwrap_error: "Unwrap P priv epk wrapped = Inl e \<Longrightarrow> e = Sentinel ErrUnwrapFailed"
  by (auto simp: Unwrap_def split: sum.splits)

text \<open>What unwraps was wrapped under the secret the two keys agree on.\<close>

lemma Unwrap_Inr:
  assumes "aes_ok P" "Unwrap P priv epk wrapped = Inr dek"
  shows "\<exists>shared. x25519_ecdh P priv epk = Some shared \<and>
    aesKeyWrap P (derive_kek P shared) dek = Inr wrapped"
  using assms(2) aesKeyWrap_Unwrap [OF assms(1)]
  by (auto simp: Unwrap_def ecdh_NewPrivateKey_def ecdh_NewPublicKey_def ecdh_ECDH_def
      split: sum.splits if_splits option.splits)

section \<open>The thumbprint is the RFC 7638 one\<close>

text \<open>A character neither \<^verbatim>\<open>%q\<close> nor JSON escapes; those of base64url are.\<close>

definition plain_char :: "char \<Rightarrow> bool" where
  "plain_char c \<longleftrightarrow> of_char c < (128 :: nat) \<and> quote_ascii c = [c] \<and> json_ascii c = [c]"

lemma plain_text:
  "list_all plain_char s \<Longrightarrow> quote_runes s = s \<and> json_escape s = s"
  by (induction s) (simp_all add: plain_char_def json_rune_ascii)

lemma url_alphabet_plain: "list_all plain_char url_alphabet"
  by (simp add: url_alphabet_def plain_char_def quote_ascii_def json_ascii_def)

lemma raw_url_plain: "list_all plain_char (raw_url_encode b)"
  using url_alphabet_plain b64_encode_chars [of url_alphabet _ b]
  by (auto simp: list_all_iff raw_url_encode_def alphabet_facts)

definition jwk_val :: "bytes \<Rightarrow> goval" where
  "jwk_val pub = VObj [(''crv'', VStr ''X25519''), (''kty'', VStr ''OKP''), (''x'', VStr (raw_url_encode pub))]"

lemma canonical_jwk_json: "canonical_jwk (raw_url_encode pub) = render (jwk_val pub)"
proof -
  have "list_all plain_char ''crv''" "list_all plain_char ''kty''" "list_all plain_char ''x''"
    "list_all plain_char ''X25519''" "list_all plain_char ''OKP''"
    by (simp_all add: plain_char_def quote_ascii_def json_ascii_def)
  then have "json_escape ''crv'' = ''crv''" "json_escape ''kty'' = ''kty''" "json_escape ''x'' = ''x''"
    "json_escape ''X25519'' = ''X25519''" "json_escape ''OKP'' = ''OKP''"
    using plain_text by blast+
  then show ?thesis
    using plain_text [OF raw_url_plain [of pub]]
    by (simp add: canonical_jwk_def jwk_val_def go_quote_def json_string_def)
qed

lemma jwk_val_wf: "wf_val (jwk_val pub)"
proof -
  have "utf8_valid (raw_url_encode pub)"
    using raw_url_plain [of pub] by (intro ascii_utf8) (auto simp: ascii_def plain_char_def list_all_iff)
  then show ?thesis by (simp add: jwk_val_def)
qed

lemma Thumbprint_inject:
  assumes "Thumbprint P p = Inr t" "Thumbprint P q = Inr t"
  shows "p = q \<or> sha_collision P (bytes_of (render (jwk_val p))) (bytes_of (render (jwk_val q)))"
proof -
  from assms have "sha256 P (bytes_of (render (jwk_val p))) = sha256 P (bytes_of (render (jwk_val q)))"
    by (auto simp: Thumbprint_def thumbprintOf_def canonical_jwk_json raw_url.enc_inject split: sum.splits)
  moreover have "p = q" if "render (jwk_val p) = render (jwk_val q)"
    using that render_inject [OF jwk_val_wf jwk_val_wf] by (simp add: jwk_val_def raw_url.enc_inject)
  ultimately show ?thesis by (auto simp: sha_collision_def)
qed

section \<open>The wrapper is a wrapping port\<close>

interpretation x25519: wrapping_port Wrapper wrapper_laws
  by unfold_locales (auto simp: Wrapper_def dest: Wrap_advances Wrap_Unwrap)

text \<open>A thumbprint stands for one key.\<close>

theorem thumbprint_binds:
  assumes "Thumbprint P p = Inr t" "Thumbprint P q = Inr t"
  shows "canonical_jwk (raw_url_encode p) = render (jwk_val p) \<and>
    (p = q \<or> sha_collision P (bytes_of (render (jwk_val p))) (bytes_of (render (jwk_val q))))"
  using canonical_jwk_json Thumbprint_inject [OF assms] by blast

end
