(* ===== verification/Go_Read.thy ===== *)
theory Go_Read
  imports Go_Json
begin

text \<open>
  \<^verbatim>\<open>encoding/json\<close>'s reader. The scanner is a pushdown machine over the characters, as in
  \<^verbatim>\<open>scanner.go\<close>, and leaves the literals of strings unread (\<open>jtext\<close>); the literals are
  unquoted when a value is decoded. The main facts: reading the text of a value gives the
  value's syntax back, whatever follows it in the stream (\<open>read_render\<close>), and unquoting an
  escaped string gives the string with its invalid bytes replaced (\<open>unquote_escape\<close>).
\<close>

section \<open>String literals\<close>

definition is_space :: "char \<Rightarrow> bool" where
  "is_space c \<longleftrightarrow> c = CHR '' '' \<or> c = CHR 0x09 \<or> c = CHR 0x0D \<or> c = CHR 0x0A"

definition is_digit :: "char \<Rightarrow> bool" where
  "is_digit c \<longleftrightarrow> c \<in> set ''0123456789''"

definition hex_value :: "char \<Rightarrow> nat option" where
  "hex_value c =
     (let n = of_char c in
      if 48 \<le> n \<and> n \<le> 57 then Some (n - 48)
      else if 97 \<le> n \<and> n \<le> 102 then Some (n - 87)
      else if 65 \<le> n \<and> n \<le> 70 then Some (n - 55)
      else None)"

text \<open>The characters a backslash may stand before, \<^verbatim>\<open>u\<close> apart.\<close>

definition is_escape :: "char \<Rightarrow> bool" where
  "is_escape c \<longleftrightarrow> c \<in> set ''bfnrt/'' \<or> c = CHR 0x5C \<or> c = CHR 0x22"

text \<open>
  The scanner inside a string: after a backslash, and with \<open>n\<close> hexadecimal digits to come.
  The result is the literal between the quotes, and what follows the closing one.
\<close>

datatype str_state = InString | InEscape | InHex nat

definition prefixed :: "string \<Rightarrow> (string \<times> 'a) option \<Rightarrow> (string \<times> 'a) option" where
  "prefixed p = map_option (\<lambda>(body, rest). (p @ body, rest))"

lemma prefixed_simps [simp]:
  "prefixed p None = None"
  "prefixed p (Some (b, r)) = Some (p @ b, r)"
  "prefixed [] x = x"
  "prefixed p (prefixed q x) = prefixed (p @ q) x"
  by (cases x; auto simp: prefixed_def)+

fun scan_string :: "str_state \<Rightarrow> string \<Rightarrow> (string \<times> string) option" where
  "scan_string st [] = None"
| "scan_string InString (c # cs) =
     (if c = CHR 0x22 then Some ([], cs)
      else if c = CHR 0x5C then prefixed [c] (scan_string InEscape cs)
      else if of_char c < (32 :: nat) then None
      else prefixed [c] (scan_string InString cs))"
| "scan_string InEscape (c # cs) =
     (if is_escape c then prefixed [c] (scan_string InString cs)
      else if c = CHR ''u'' then prefixed [c] (scan_string (InHex 4) cs)
      else None)"
| "scan_string (InHex n) (c # cs) =
     (if hex_value c = None then None
      else prefixed [c] (scan_string (if n \<le> 1 then InString else InHex (n - 1)) cs))"

text \<open>\<^verbatim>\<open>utf8.AppendRune\<close>, with U+FFFD for a surrogate half.\<close>

definition rune_bytes :: "nat \<Rightarrow> string" where
  "rune_bytes r =
     (if r < 0x80 then [char_of r]
      else if r < 0x800 then [char_of (0xC0 + r div 64), char_of (0x80 + r mod 64)]
      else if 0xD800 \<le> r \<and> r < 0xE000 then [CHR 0xEF, CHR 0xBF, CHR 0xBD]
      else if r < 0x10000
      then [char_of (0xE0 + r div 4096), char_of (0x80 + r div 64 mod 64), char_of (0x80 + r mod 64)]
      else [char_of (0xF0 + r div 262144), char_of (0x80 + r div 4096 mod 64),
            char_of (0x80 + r div 64 mod 64), char_of (0x80 + r mod 64)])"

text \<open>The code unit after \<^verbatim>\<open>\u\<close> (\<^verbatim>\<open>getu4\<close>): four hexadecimal digits.\<close>

definition hex4 :: "string \<Rightarrow> nat option" where
  "hex4 s =
     (case s of a # b # c # d # _ \<Rightarrow>
        (case (hex_value a, hex_value b, hex_value c, hex_value d) of
           (Some w, Some x, Some y, Some z) \<Rightarrow> Some (((w * 16 + x) * 16 + y) * 16 + z)
         | _ \<Rightarrow> None)
      | _ \<Rightarrow> None)"

definition getu4 :: "string \<Rightarrow> nat option" where
  "getu4 s = (case s of a # b # t \<Rightarrow> if a = CHR 0x5C \<and> b = CHR ''u'' then hex4 t else None | _ \<Rightarrow> None)"

definition unescape_char :: "char \<Rightarrow> char" where
  "unescape_char e =
     (if e = CHR ''b'' then CHR 0x08 else if e = CHR ''f'' then CHR 0x0C
      else if e = CHR ''n'' then CHR 0x0A else if e = CHR ''r'' then CHR 0x0D
      else if e = CHR ''t'' then CHR 0x09 else e)"

text \<open>
  \<^verbatim>\<open>unquote\<close> of a scanned literal: an escaped surrogate pair is one rune, a lone half and a
  byte that starts no rune become U+FFFD.
\<close>

function unquote :: "string \<Rightarrow> string" where
  "unquote [] = []"
| "unquote (c # cs) =
     (if c = CHR 0x5C then
        (case cs of
           [] \<Rightarrow> []
         | e # ds \<Rightarrow>
             if e = CHR ''u'' then
               (case hex4 ds of
                  None \<Rightarrow> []
                | Some r \<Rightarrow>
                    (case getu4 (drop 4 ds) of
                       Some r2 \<Rightarrow>
                         if 0xD800 \<le> r \<and> r < 0xDC00 \<and> 0xDC00 \<le> r2 \<and> r2 < 0xE000
                         then rune_bytes ((r - 0xD800) * 1024 + (r2 - 0xDC00) + 0x10000)
                              @ unquote (drop 10 ds)
                         else rune_bytes r @ unquote (drop 4 ds)
                     | None \<Rightarrow> rune_bytes r @ unquote (drop 4 ds)))
             else if is_escape e then unescape_char e # unquote ds
             else [])
      else
        (case rune_width (c # cs) of
           None \<Rightarrow> [CHR 0xEF, CHR 0xBF, CHR 0xBD] @ unquote cs
         | Some n \<Rightarrow> take n (c # cs) @ unquote (drop (n - 1) cs)))"
  by pat_completeness auto
termination by (relation "measure length") auto

subsection \<open>Reading an escaped string\<close>

lemma is_rune_append:
  assumes "is_rune r"
  shows "rune_width (r @ s) = Some (length r)"
proof -
  have ranges: "in_ranges rs (cs @ s)" if "in_ranges rs cs" for rs cs
    using that by (induction rs cs rule: in_ranges.induct) auto
  obtain c cs where "r = c # cs" using assms by (cases r) (auto simp: is_rune_def)
  with assms ranges show ?thesis
    by (auto simp: is_rune_def split: if_splits option.splits)
qed

lemma scan_plain:
  "list_all (\<lambda>c. 32 \<le> (of_char c :: nat) \<and> c \<noteq> CHR 0x22 \<and> c \<noteq> CHR 0x5C) p \<Longrightarrow>
     scan_string InString (p @ y) = prefixed p (scan_string InString y)"
  by (induction p) auto

lemma hex_value_digits: "i < 16 \<Longrightarrow> hex_value (hex_digits ! i) = Some i"
proof -
  have "list_all (\<lambda>i. hex_value (hex_digits ! i) = Some i) [0..<16]"
    by code_simp
  then show "i < 16 \<Longrightarrow> ?thesis" by (simp add: list_all_iff)
qed

lemma hex_value_literals [simp]:
  "hex_value (CHR ''0'') = Some 0" "hex_value (CHR ''2'') = Some 2" "hex_value (CHR ''8'') = Some 8"
  "hex_value (CHR ''9'') = Some 9" "hex_value (CHR ''f'') = Some 15" "hex_value (CHR ''d'') = Some 13"
  by (simp_all add: hex_value_def)

lemma multi_tail:
  assumes "is_rune (c # cs)"
  shows "list_all (\<lambda>c. 128 \<le> (of_char c :: nat)) cs"
proof -
  have high: "list_all (\<lambda>c. 128 \<le> (of_char c :: nat)) (take (length rs) cs)"
    if "in_ranges rs cs" "\<forall>r \<in> set rs. 128 \<le> fst r" for rs cs
    using that by (induction rs cs rule: in_ranges.induct) auto
  show ?thesis
  proof (cases "of_char c < (128 :: nat)")
    case True
    with assms show ?thesis by (auto simp: is_rune_def)
  next
    case False
    with assms obtain rs where rs: "lead_ranges (of_char c) = Some rs" "in_ranges rs cs" "length rs = length cs"
      by (auto simp: is_rune_def split: option.splits if_splits)
    then have "\<forall>r \<in> set rs. 128 \<le> fst r" by (auto simp: lead_ranges_def split: if_splits)
    from high [OF rs(2) this] rs(3) show ?thesis by simp
  qed
qed

lemma scan_ascii:
  assumes "of_char c < (128 :: nat)"
  shows "scan_string InString (json_ascii c @ y) = prefixed (json_ascii c) (scan_string InString y)"
proof -
  have "hex_byte (word_of_nat (of_char c)) = [hex_digits ! (of_char c div 16), hex_digits ! (of_char c mod 16)]"
    by (simp add: hex_byte_def)
  moreover have "of_char c div 16 < (16 :: nat)" using assms by simp
  ultimately show ?thesis
    by (simp add: json_ascii_def hex_value_digits is_escape_def)
qed

lemma scan_rune:
  assumes "is_rune r"
  shows "scan_string InString (json_rune r @ y) = prefixed (json_rune r) (scan_string InString y)"
  using assms
proof (cases r rule: rune_cases)
  case (ascii c)
  then show ?thesis by (simp add: json_rune_ascii scan_ascii)
next
  case (multi c cs)
  have "list_all (\<lambda>c. 128 \<le> (of_char c :: nat)) (c # cs)"
    using multi_tail [of c cs] multi assms by simp
  then have "list_all (\<lambda>c. 32 \<le> (of_char c :: nat) \<and> c \<noteq> CHR 0x22 \<and> c \<noteq> CHR 0x5C) (c # cs)"
    by (auto simp: list_all_iff)
  note plain = scan_plain [OF this]
  from json_rune_multi [OF multi(3,2)] show ?thesis
  proof (elim disjE exE conjE)
    assume "json_rune (c # cs) = c # cs"
    with plain multi(1) show ?thesis by simp
  next
    fix d
    assume "(c # cs, d) \<in> {([CHR 0xE2, CHR 0x80, CHR 0xA8], CHR ''8''), ([CHR 0xE2, CHR 0x80, CHR 0xA9], CHR ''9'')}"
      and r: "json_rune (c # cs) = [CHR 0x5C, CHR ''u'', CHR ''2'', CHR ''0'', CHR ''2'', d]"
    then have "hex_value d \<noteq> None" by auto
    then show ?thesis unfolding multi(1) r by (auto simp: is_escape_def)
  qed
qed

lemma scan_escape: "scan_string InString (json_escape s @ CHR 0x22 # x) = Some (json_escape s, x)"
proof (induction s rule: json_escape.induct)
  case (2 c cs)
  show ?case
  proof (cases "rune_width (c # cs)")
    case None
    with 2 show ?thesis by (simp add: is_escape_def del: rune_width.simps)
  next
    case (Some n)
    with rune_take have "is_rune (take n (c # cs))" by blast
    from scan_rune [OF this] Some "2.IH"(2) [OF Some] show ?thesis
      by (simp del: rune_width.simps)
  qed
qed simp

lemma unquote_hex:
  assumes "hex4 ds = Some n" "n < 0xD800"
  shows "unquote (CHR 0x5C # CHR ''u'' # ds) = rune_bytes n @ unquote (drop 4 ds)"
  using assms by (cases "getu4 (drop 4 ds)") simp_all

lemma unquote_simple: "is_escape e \<Longrightarrow> unquote (CHR 0x5C # e # ds) = unescape_char e # unquote ds"
  by (auto simp: is_escape_def)

lemma unquote_plain:
  "c \<noteq> CHR 0x5C \<Longrightarrow> rune_width (c # cs) = Some n \<Longrightarrow>
     unquote (c # cs) = take n (c # cs) @ unquote (drop (n - 1) cs)"
  by (simp del: rune_width.simps)

declare unquote.simps(2) [simp del]

lemma json_ascii_forms:
  obtains (hex) "json_ascii c = [CHR 0x5C, CHR ''u'', CHR ''0'', CHR ''0''] @ hex_byte (word_of_nat (of_char c))"
  | (simple) e where "json_ascii c = [CHR 0x5C, e]" "is_escape e" "unescape_char e = c"
  | (plain) "json_ascii c = [c]" "c \<noteq> CHR 0x5C"
proof (cases "c \<in> {CHR 0x22, CHR 0x5C, CHR 0x08, CHR 0x0C, CHR 0x0A, CHR 0x0D, CHR 0x09}")
  case True
  then show ?thesis using simple by (auto simp: json_ascii_def unescape_char_def is_escape_def)
next
  case False
  then show ?thesis
    using hex plain
    by (cases "of_char c < (32 :: nat) \<or> c = CHR ''<'' \<or> c = CHR ''>'' \<or> c = CHR ''&''")
      (simp_all add: json_ascii_def)
qed

lemma unquote_ascii:
  assumes "of_char c < (128 :: nat)"
  shows "unquote (json_ascii c @ y) = c # unquote y"
proof (cases c rule: json_ascii_forms)
  case hex
  have "hex_byte (word_of_nat (of_char c)) = [hex_digits ! (of_char c div 16), hex_digits ! (of_char c mod 16)]"
    by (simp add: hex_byte_def)
  moreover have "of_char c div 16 < (16 :: nat)" using assms by simp
  moreover have "(of_char c :: nat) div 16 * 16 + of_char c mod 16 = of_char c" by simp
  ultimately have hex4: "hex4 (CHR ''0'' # CHR ''0'' # hex_byte (word_of_nat (of_char c)) @ y) = Some (of_char c)"
    by (simp add: hex4_def hex_value_digits)
  have "rune_bytes (of_char c) = [c]" using assms by (simp add: rune_bytes_def)
  moreover have "drop 4 (CHR ''0'' # CHR ''0'' # hex_byte b @ y) = y" for b
    by (simp add: hex_byte_def)
  moreover have "of_char c < (0xD800 :: nat)" using assms by simp
  ultimately show ?thesis using unquote_hex [OF hex4] hex by simp
next
  case (simple e)
  then show ?thesis by (simp add: unquote_simple)
next
  case plain
  then show ?thesis using assms unquote_plain [of c y 1] by simp
qed

lemma unquote_rune:
  assumes "is_rune r"
  shows "unquote (json_rune r @ y) = r @ unquote y"
  using assms
proof (cases r rule: rune_cases)
  case (ascii c)
  then show ?thesis by (simp add: json_rune_ascii unquote_ascii)
next
  case (multi c cs)
  have plain: "unquote (c # cs @ y) = c # cs @ unquote y"
  proof -
    have "c \<noteq> CHR 0x5C" using multi(3) by auto
    moreover have "rune_width (c # cs @ y) = Some (Suc (length cs))"
      using is_rune_append [OF assms, of y] multi(1) by (simp del: rune_width.simps)
    ultimately show ?thesis using unquote_plain [of c "cs @ y" "Suc (length cs)"] by simp
  qed
  from json_rune_multi [OF multi(3,2)] show ?thesis
  proof (elim disjE exE conjE)
    assume "json_rune (c # cs) = c # cs"
    with plain multi(1) show ?thesis by (simp)
  next
    fix d
    assume d: "(c # cs, d) \<in> {([CHR 0xE2, CHR 0x80, CHR 0xA8], CHR ''8''), ([CHR 0xE2, CHR 0x80, CHR 0xA9], CHR ''9'')}"
      and r: "json_rune (c # cs) = [CHR 0x5C, CHR ''u'', CHR ''2'', CHR ''0'', CHR ''2'', d]"
    have "rune_bytes 8232 = [CHR 0xE2, CHR 0x80, CHR 0xA8]" "rune_bytes 8233 = [CHR 0xE2, CHR 0x80, CHR 0xA9]"
      by (simp_all add: rune_bytes_def char_of_def bit_0)
    then have "\<exists>n. hex4 (CHR ''2'' # CHR ''0'' # CHR ''2'' # d # y) = Some n \<and> n < 0xD800 \<and> rune_bytes n = c # cs"
      using d by (auto simp: hex4_def)
    then show ?thesis unfolding multi(1) r using unquote_hex by auto
  qed
qed

lemma unquote_escape: "unquote (json_escape s) = sanitize s"
proof (induction s rule: json_escape.induct)
  case (2 c cs)
  show ?case
  proof (cases "rune_width (c # cs)")
    case None
    have "hex4 (CHR ''f'' # CHR ''f'' # CHR ''f'' # CHR ''d'' # y) = Some 65533" for y
      by (simp add: hex4_def)
    moreover have "rune_bytes 65533 = [CHR 0xEF, CHR 0xBF, CHR 0xBD]"
      by (simp add: rune_bytes_def char_of_def bit_0)
    ultimately have "unquote ([CHR 0x5C, CHR ''u'', CHR ''f'', CHR ''f'', CHR ''f'', CHR ''d''] @ y)
        = [CHR 0xEF, CHR 0xBF, CHR 0xBD] @ unquote y" for y
      by (simp add: unquote.simps(2) split: option.split)
    with "2.IH"(1) [OF None] None show ?thesis by (simp del: rune_width.simps)
  next
    case (Some n)
    with rune_take have "is_rune (take n (c # cs))" by blast
    from unquote_rune [OF this] Some "2.IH"(2) [OF Some] show ?thesis
      by (simp del: rune_width.simps)
  qed
qed simp

subsection \<open>Whatever is read is valid UTF-8\<close>

lemma is_rune_bytes:
  assumes "r < 0x110000"
  shows "is_rune (rune_bytes r)"
proof -
  consider "r < 0x80" | "0x80 \<le> r" "r < 0x800" | "0xD800 \<le> r" "r < 0xE000"
    | "0x800 \<le> r" "r < 0x10000" "r < 0xD800 \<or> 0xE000 \<le> r" | "0x10000 \<le> r"
    by linarith
  then show ?thesis
  proof cases
    case 1
    then show ?thesis by (simp add: rune_bytes_def is_rune_def)
  next
    case 2
    then have "r div 64 < 32" "2 \<le> r div 64" by linarith+
    moreover have "r mod 64 < 64" by simp
    ultimately show ?thesis using 2 by (simp add: rune_bytes_def is_rune_def lead_ranges_def)
  next
    case 3
    then show ?thesis by (simp add: rune_bytes_def is_rune_def lead_ranges_def)
  next
    case 4
    define q b where "q = r div 4096" and "b = r div 64 mod 64"
    have "r div 64 div 64 = q" unfolding q_def by (simp flip: div_mult2_eq)
    then have d: "r div 64 = 64 * q + b" unfolding b_def by (metis mult_div_mod_eq)
    have "q < 16" "b < 64" using 4 by (auto simp: q_def b_def less_mult_imp_div_less)
    moreover have "32 \<le> b" if "q = 0" using d that 4(1) by linarith
    moreover have "b < 32" if "q = 13"
    proof -
      have "r < 57344" using that unfolding q_def by linarith
      with 4(3) have "r < 55296" by linarith
      with d that show "b < 32" by linarith
    qed
    moreover have "r mod 64 \<le> 63" by simp
    ultimately show ?thesis using 4
      by (auto simp: rune_bytes_def is_rune_def lead_ranges_def simp flip: q_def b_def)
  next
    case 5
    define q b where "q = r div 262144" and "b = r div 4096 mod 64"
    have "r div 4096 div 64 = q" unfolding q_def by (simp flip: div_mult2_eq)
    then have d: "r div 4096 = 64 * q + b" unfolding b_def by (metis mult_div_mod_eq)
    have "q < 5" "b < 64" using assms by (auto simp: q_def b_def less_mult_imp_div_less)
    moreover have "16 \<le> b" if "q = 0" using d that 5 by linarith
    moreover have "b < 16" if "q = 4" using d that assms by linarith
    moreover have "q < 4 \<or> q = 4" using \<open>q < 5\<close> by linarith
    moreover have "r mod 64 \<le> 63" "r div 64 mod 64 \<le> 63" by simp_all
    ultimately show ?thesis using 5
      by (auto simp: rune_bytes_def is_rune_def lead_ranges_def simp flip: q_def b_def)
  qed
qed

lemma utf8_rune_append: "is_rune r \<Longrightarrow> utf8_valid (r @ s) \<longleftrightarrow> utf8_valid s"
proof -
  assume r: "is_rune r"
  then obtain c cs where "r = c # cs" by (cases r) (auto simp: is_rune_def)
  with is_rune_append [OF r, of s] show ?thesis by (simp del: rune_width.simps)
qed

lemma hex_value_bound: "hex_value c = Some n \<Longrightarrow> n < 16"
  by (auto simp: hex_value_def Let_def split: if_splits)

lemma hex4_bound: "hex4 s = Some n \<Longrightarrow> n < 0x10000"
  by (auto simp: hex4_def dest!: hex_value_bound split: list.splits option.splits)

lemma is_rune_single: "of_char c < (128 :: nat) \<Longrightarrow> is_rune [c]"
  by (simp add: is_rune_def)

text \<open>Valid text after valid text is valid.\<close>

lemma utf8_append_iff: "utf8_valid s \<Longrightarrow> utf8_valid (s @ t) \<longleftrightarrow> utf8_valid t"
proof (induction s rule: utf8_valid.induct)
  case (2 c cs)
  from "2.prems" obtain n where n: "rune_width (c # cs) = Some n" "utf8_valid (drop (n - 1) cs)"
    by (auto simp del: rune_width.simps split: option.splits)
  from rune_take [OF n(1)] have rune: "is_rune (take n (c # cs))" "0 < n" "n \<le> length (c # cs)" by auto
  have "(c # cs) @ t = take n (c # cs) @ (drop n (c # cs) @ t)" by (simp only: append_assoc [symmetric] append_take_drop_id)
  then have "utf8_valid ((c # cs) @ t) \<longleftrightarrow> utf8_valid (drop n (c # cs) @ t)"
    by (simp only: utf8_rune_append [OF rune(1)])
  also have "drop n (c # cs) = drop (n - 1) cs" using rune(2) by (cases n) auto
  also have "utf8_valid (drop (n - 1) cs @ t) \<longleftrightarrow> utf8_valid t" using "2.IH" n by blast
  finally show ?case .
qed simp

lemma utf8_replacement: "is_rune [CHR 0xEF, CHR 0xBF, CHR 0xBD]"
  by (simp add: is_rune_def lead_ranges_def)

theorem utf8_unquote [simp]: "utf8_valid (unquote s)"
proof (induction s rule: unquote.induct)
  case (2 c cs)
  have pair: "(r - 0xD800) * 1024 + (r2 - 0xDC00) + 0x10000 < (0x110000 :: nat)"
    if "r < 0xDC00" "r2 < 0xE000" for r r2 using that by linarith
  have plain: "is_rune [unescape_char e]" if "is_escape e" for e
    using that unfolding is_escape_def list.set insert_iff empty_iff
    by (elim disjE FalseE) (simp_all add: unescape_char_def is_rune_single)
  show ?case
  proof (cases "c = CHR 0x5C")
    case True
    show ?thesis
    proof (cases cs)
      case (Cons e ds)
      show ?thesis
      proof (cases "e = CHR ''u''")
        case u: True
        show ?thesis
        proof (cases "hex4 ds")
          case (Some r)
          with hex4_bound have r: "is_rune (rune_bytes r)" by (intro is_rune_bytes) fastforce
          show ?thesis
          proof (cases "getu4 (drop 4 ds)")
            case None
            with "2.IH"(1) [OF True Cons u Some None] Some r True Cons u show ?thesis
              by (simp add: unquote.simps(2) utf8_rune_append)
          next
            case (Some r2)
            note IH = "2.IH"(2,3) [OF True Cons u \<open>hex4 ds = Some r\<close> Some]
            have "is_rune (rune_bytes ((r - 0xD800) * 1024 + (r2 - 0xDC00) + 0x10000))"
              if "0xD800 \<le> r \<and> r < 0xDC00 \<and> 0xDC00 \<le> r2 \<and> r2 < 0xE000"
              using that by (intro is_rune_bytes pair) simp_all
            with IH \<open>hex4 ds = Some r\<close> Some r True Cons u show ?thesis
              by (auto simp: unquote.simps(2) utf8_rune_append)
          qed
        qed (use True Cons u in \<open>simp add: unquote.simps(2)\<close>)
      next
        case False
        have "utf8_valid ([unescape_char e] @ unquote ds)" if "is_escape e"
          using "2.IH"(4) [OF True Cons False that] utf8_rune_append [OF plain [OF that]] by blast
        with True Cons False show ?thesis by (simp add: unquote.simps(2))
      qed
    qed (use True in \<open>simp add: unquote.simps(2)\<close>)
  next
    case False
    show ?thesis
    proof (cases "rune_width (c # cs)")
      case None
      from "2.IH"(5) [OF False None] utf8_rune_append [OF utf8_replacement] False None show ?thesis
        by (simp add: unquote.simps(2) del: rune_width.simps utf8_valid.simps(2))
    next
      case (Some n)
      with rune_take have "is_rune (take n (c # cs))" by blast
      from utf8_rune_append [OF this] "2.IH"(6) [OF False Some] False Some show ?thesis
        by (simp add: unquote_plain del: rune_width.simps utf8_valid.simps(2))
    qed
  qed
qed simp

section \<open>Numbers\<close>

text \<open>
  The longest prefix that the number grammar of JSON accepts; \<open>None\<close> where the grammar
  breaks off (a sign, a point or an exponent without a digit).
\<close>

definition scan_digits :: "string \<Rightarrow> string \<Rightarrow> (string \<times> string) option" where
  "scan_digits pre s =
     (let ds = takeWhile is_digit s
      in if ds = [] then None else Some (pre @ ds, drop (length ds) s))"

definition scan_exponent :: "string \<Rightarrow> string \<Rightarrow> (string \<times> string) option" where
  "scan_exponent pre s =
     (case s of [] \<Rightarrow> Some (pre, [])
      | e # t \<Rightarrow>
          if e = CHR ''e'' \<or> e = CHR ''E'' then
            (case t of
               [] \<Rightarrow> None
             | g # u \<Rightarrow> if g = CHR ''+'' \<or> g = CHR ''-'' then scan_digits (pre @ [e, g]) u
                       else scan_digits (pre @ [e]) t)
          else Some (pre, s))"

definition scan_fraction :: "string \<Rightarrow> string \<Rightarrow> (string \<times> string) option" where
  "scan_fraction pre s =
     (case s of [] \<Rightarrow> Some (pre, [])
      | p # t \<Rightarrow>
          if p = CHR ''.'' then
            (case scan_digits (pre @ [p]) t of None \<Rightarrow> None
             | Some (pre', u) \<Rightarrow> scan_exponent pre' u)
          else scan_exponent pre s)"

definition scan_integer :: "string \<Rightarrow> string \<Rightarrow> (string \<times> string) option" where
  "scan_integer pre s =
     (if s \<noteq> [] \<and> hd s = CHR ''0'' then scan_fraction (pre @ ''0'') (tl s)
      else case scan_digits pre s of None \<Rightarrow> None
           | Some (pre', u) \<Rightarrow> scan_fraction pre' u)"

definition scan_number :: "string \<Rightarrow> (string \<times> string) option" where
  "scan_number s =
     (if s \<noteq> [] \<and> hd s = CHR ''-'' then scan_integer ''-'' (tl s) else scan_integer [] s)"

lemma scan_digits_shorter: "scan_digits pre s = Some (n, r) \<Longrightarrow> length r < length s"
  by (cases s) (auto simp: scan_digits_def Let_def split: if_splits)

lemma scan_number_shorter: "scan_number s = Some (n, r) \<Longrightarrow> length r < length s"
proof -
  have e: "length r \<le> length s" if "scan_exponent pre s = Some (n, r)" for pre s
    using that scan_digits_shorter
    by (fastforce simp: scan_exponent_def split: list.splits if_splits)
  have f: "length r \<le> length s" if "scan_fraction pre s = Some (n, r)" for pre s
    using that e scan_digits_shorter
    by (fastforce simp: scan_fraction_def split: list.splits if_splits option.splits)
  have i: "length r < length s" if "scan_integer pre s = Some (n, r)" for pre s
    using that f scan_digits_shorter
    by (cases s) (fastforce simp: scan_integer_def split: option.splits if_splits)+
  show "scan_number s = Some (n, r) \<Longrightarrow> ?thesis"
    using i by (cases s) (fastforce simp: scan_number_def split: if_splits)+
qed

lemma scan_string_shorter: "scan_string st s = Some (b, r) \<Longrightarrow> length r < length s"
proof (induction st s arbitrary: b rule: scan_string.induct)
qed (auto simp: prefixed_def less_Suc_eq split: if_splits)

section \<open>The scanner\<close>

text \<open>
  The syntax of a value, its literals unread. \<open>frame\<close>s are what the scanner has open: the
  elements or members read so far (last first) and the key a member is waiting under.
\<close>

datatype jtext =
    RNull
  | RBool bool
  | RNum string
  | RStr string
  | RArr "jtext list"
  | RObj "(string \<times> jtext) list"

datatype frame = InArr "jtext list" | InObj "(string \<times> jtext) list" string

text \<open>What the scanner is waiting for; the flag says that the closing bracket may come instead.\<close>

datatype mode = WantValue bool | WantKey bool | WantColon | WantNext

definition maxNestingDepth :: nat where
  "maxNestingDepth = 10000"

text \<open>A finished value goes into the innermost frame, or is the result.\<close>

definition give :: "jtext \<Rightarrow> frame list \<Rightarrow> string \<Rightarrow> (jtext \<times> string) + (mode \<times> frame list \<times> string)" where
  "give v fs r =
     (case fs of
        [] \<Rightarrow> Inl (v, r)
      | InArr vs # gs \<Rightarrow> Inr (WantNext, InArr (v # vs) # gs, r)
      | InObj kvs k # gs \<Rightarrow> Inr (WantNext, InObj ((k, v) # kvs) [] # gs, r))"

definition close :: "char \<Rightarrow> frame list \<Rightarrow> string \<Rightarrow> ((jtext \<times> string) + (mode \<times> frame list \<times> string)) option" where
  "close c fs r =
     (case fs of
        InArr vs # gs \<Rightarrow> if c = CHR '']'' then Some (give (RArr (rev vs)) gs r) else None
      | InObj kvs k # gs \<Rightarrow> if c = CHR ''}'' then Some (give (RObj (rev kvs)) gs r) else None
      | [] \<Rightarrow> None)"

definition literal :: "string \<Rightarrow> jtext \<Rightarrow> frame list \<Rightarrow> string \<Rightarrow>
    ((jtext \<times> string) + (mode \<times> frame list \<times> string)) option" where
  "literal word v fs cs =
     (if take (length word) cs = word then Some (give v fs (drop (length word) cs)) else None)"

definition read_step ::
  "mode \<Rightarrow> frame list \<Rightarrow> char \<Rightarrow> string \<Rightarrow> ((jtext \<times> string) + (mode \<times> frame list \<times> string)) option" where
  "read_step m fs c cs =
     (if is_space c then Some (Inr (m, fs, cs))
      else case m of
        WantValue closing \<Rightarrow>
          if c = CHR 0x22 then
            (case scan_string InString cs of None \<Rightarrow> None | Some (b, r) \<Rightarrow> Some (give (RStr b) fs r))
          else if c = CHR ''{'' then
            (if maxNestingDepth \<le> length fs then None else Some (Inr (WantKey True, InObj [] [] # fs, cs)))
          else if c = CHR ''['' then
            (if maxNestingDepth \<le> length fs then None else Some (Inr (WantValue True, InArr [] # fs, cs)))
          else if c = CHR ''t'' then literal ''rue'' (RBool True) fs cs
          else if c = CHR ''f'' then literal ''alse'' (RBool False) fs cs
          else if c = CHR ''n'' then literal ''ull'' RNull fs cs
          else if c = CHR ''-'' \<or> is_digit c then
            (case scan_number (c # cs) of None \<Rightarrow> None | Some (n, r) \<Rightarrow> Some (give (RNum n) fs r))
          else if closing then close c fs cs else None
      | WantKey closing \<Rightarrow>
          if c = CHR 0x22 then
            (case (scan_string InString cs, fs) of
               (Some (b, r), InObj kvs _ # gs) \<Rightarrow> Some (Inr (WantColon, InObj kvs b # gs, r))
             | _ \<Rightarrow> None)
          else if closing then close c fs cs else None
      | WantColon \<Rightarrow> if c = CHR '':'' then Some (Inr (WantValue False, fs, cs)) else None
      | WantNext \<Rightarrow>
          if c = CHR '','' then
            (case fs of
               InArr _ # _ \<Rightarrow> Some (Inr (WantValue False, fs, cs))
             | InObj _ _ # _ \<Rightarrow> Some (Inr (WantKey False, fs, cs))
             | [] \<Rightarrow> None)
          else close c fs cs)"

lemma give_shorter: "give v fs r = Inr (m', fs', s') \<Longrightarrow> s' = r"
  by (auto simp: give_def split: list.splits frame.splits)

lemma close_shorter: "close c fs r = Some (Inr (m', fs', s')) \<Longrightarrow> s' = r"
  by (auto simp: close_def dest: give_shorter split: list.splits frame.splits if_splits)

lemma literal_shorter: "literal w v fs cs = Some (Inr (m', fs', s')) \<Longrightarrow> length s' \<le> length cs"
  by (auto simp: literal_def dest: give_shorter split: if_splits)

lemma read_step_shorter:
  assumes "read_step m fs c cs = Some (Inr (m', fs', s'))"
  shows "length s' \<le> length cs"
proof -
  have str: "length r \<le> length cs" if "scan_string InString cs = Some (b, r)" for b r
    using scan_string_shorter [OF that] by simp
  have num: "length r \<le> length cs" if "scan_number (c # cs) = Some (n, r)" for n r
    using scan_number_shorter [OF that] by simp
  show ?thesis
    using assms str num
    by (auto simp: read_step_def dest!: give_shorter close_shorter literal_shorter
        split: if_splits mode.splits option.splits prod.splits list.splits frame.splits)
qed

function read_run :: "mode \<Rightarrow> frame list \<Rightarrow> string \<Rightarrow> (jtext \<times> string) option" where
  "read_run m fs [] = None"
| "read_run m fs (c # cs) =
     (case read_step m fs c cs of
        None \<Rightarrow> None
      | Some (Inl vr) \<Rightarrow> Some vr
      | Some (Inr (m', fs', s')) \<Rightarrow> read_run m' fs' s')"
  by pat_completeness auto
termination
  by (relation "measure (\<lambda>(m, fs, s). length s)") (auto dest: read_step_shorter simp: less_Suc_eq_le)

text \<open>
  \<^verbatim>\<open>json.Decoder.Decode\<close> reads one value and leaves the rest of the stream; \<^verbatim>\<open>json.Unmarshal\<close>
  wants nothing but white space after it.
\<close>

definition read_value :: "string \<Rightarrow> (jtext \<times> string) option" where
  "read_value s = read_run (WantValue False) [] s"

definition read_whole :: "string \<Rightarrow> jtext option" where
  "read_whole s =
     (case read_value s of
        Some (v, rest) \<Rightarrow> if list_all is_space rest then Some v else None
      | None \<Rightarrow> None)"

section \<open>Reading what was written\<close>

text \<open>The syntax of a value's text, and the value of a syntax, every literal unquoted.\<close>

fun syntax_of :: "goval \<Rightarrow> jtext" where
  "syntax_of VNull = RNull"
| "syntax_of (VBool b) = RBool b"
| "syntax_of (VNum n) = RNum n"
| "syntax_of (VStr s) = RStr (json_escape s)"
| "syntax_of (VArr vs) = RArr (map syntax_of vs)"
| "syntax_of (VObj kvs) = RObj (map (\<lambda>(k, v). (json_escape k, syntax_of v)) kvs)"
| "syntax_of (VFail e) = RNull"

fun value_of :: "jtext \<Rightarrow> goval" where
  "value_of RNull = VNull"
| "value_of (RBool b) = VBool b"
| "value_of (RNum n) = VNum n"
| "value_of (RStr s) = VStr (unquote s)"
| "value_of (RArr vs) = VArr (map value_of vs)"
| "value_of (RObj kvs) = VObj (map (\<lambda>(k, v). (unquote k, value_of v)) kvs)"

text \<open>How many brackets a value opens at once, and the numbers the reader takes back.\<close>

fun depth :: "goval \<Rightarrow> nat"
  and depth_list :: "goval list \<Rightarrow> nat"
  and depth_members :: "(string \<times> goval) list \<Rightarrow> nat" where
  "depth (VArr vs) = Suc (depth_list vs)"
| "depth (VObj kvs) = Suc (depth_members kvs)"
| "depth _ = 0"
| "depth_list [] = 0"
| "depth_list (v # vs) = max (depth v) (depth_list vs)"
| "depth_members [] = 0"
| "depth_members ((k, v) # kvs) = max (depth v) (depth_members kvs)"

definition num_ok :: "string \<Rightarrow> bool" where
  "num_ok n \<longleftrightarrow> (\<forall>x. delim x \<longrightarrow> scan_number (n @ x) = Some (n, x))"

fun readable :: "goval \<Rightarrow> bool"
  and readable_list :: "goval list \<Rightarrow> bool"
  and readable_members :: "(string \<times> goval) list \<Rightarrow> bool" where
  "readable VNull \<longleftrightarrow> True"
| "readable (VBool b) \<longleftrightarrow> True"
| "readable (VNum n) \<longleftrightarrow> num_ok n"
| "readable (VStr s) \<longleftrightarrow> True"
| "readable (VArr vs) \<longleftrightarrow> readable_list vs"
| "readable (VObj kvs) \<longleftrightarrow> readable_members kvs"
| "readable (VFail e) \<longleftrightarrow> False"
| "readable_list [] \<longleftrightarrow> True"
| "readable_list (v # vs) \<longleftrightarrow> readable v \<and> readable_list vs"
| "readable_members [] \<longleftrightarrow> True"
| "readable_members ((k, v) # kvs) \<longleftrightarrow> readable v \<and> readable_members kvs"

text \<open>Going on after a value has been delivered.\<close>

definition resume :: "(jtext \<times> string) + (mode \<times> frame list \<times> string) \<Rightarrow> (jtext \<times> string) option" where
  "resume x = (case x of Inl vr \<Rightarrow> Some vr | Inr (m, fs, s) \<Rightarrow> read_run m fs s)"

lemma read_run_step:
  "read_step m fs c cs = Some x \<Longrightarrow> read_run m fs (c # cs) = resume x"
  by (auto simp: resume_def split: sum.split prod.split)

lemma resume_Inr: "resume (Inr (m, fs, s)) = read_run m fs s"
  by (simp add: resume_def)

declare read_run.simps(2) [simp del]

lemma not_space [simp]:
  "\<not> is_space (CHR ''{'')" "\<not> is_space (CHR ''}'')" "\<not> is_space (CHR ''['')" "\<not> is_space (CHR '']'')"
  "\<not> is_space (CHR '','')" "\<not> is_space (CHR '':'')" "\<not> is_space (CHR 0x22)" "\<not> is_space (CHR ''t'')"
  "\<not> is_space (CHR ''f'')" "\<not> is_space (CHR ''n'')"
  by (simp_all add: is_space_def)

lemma read_string:
  "read_run (WantValue e) fs (json_string s @ x) = resume (give (RStr (json_escape s)) fs x)"
proof -
  have "read_step (WantValue e) fs (CHR 0x22) (json_escape s @ CHR 0x22 # x)
      = Some (give (RStr (json_escape s)) fs x)"
    by (simp add: read_step_def scan_escape)
  from read_run_step [OF this] show ?thesis by (simp add: json_string_def)
qed

lemma read_key:
  "read_run (WantKey e) (InObj kvs k # fs) (json_string s @ CHR '':'' # x)
     = read_run (WantValue False) (InObj kvs (json_escape s) # fs) x"
proof -
  have key: "read_step (WantKey e) (InObj kvs k # fs) (CHR 0x22) (json_escape s @ CHR 0x22 # CHR '':'' # x)
      = Some (Inr (WantColon, InObj kvs (json_escape s) # fs, CHR '':'' # x))"
    by (simp add: read_step_def scan_escape)
  have colon: "read_step WantColon (InObj kvs (json_escape s) # fs) (CHR '':'') x
      = Some (Inr (WantValue False, InObj kvs (json_escape s) # fs, x))"
    by (simp add: read_step_def)
  from read_run_step [OF key] read_run_step [OF colon] show ?thesis
    by (simp add: json_string_def resume_Inr)
qed

lemma read_number:
  assumes "num_ok n" "delim x"
  shows "read_run (WantValue e) fs (n @ x) = resume (give (RNum n) fs x)"
proof -
  have scan: "scan_number (n @ x) = Some (n, x)" using assms by (simp add: num_ok_def)
  have "scan_number n = Some (n, [])"
    using assms(1) unfolding num_ok_def delim_def by (metis append_Nil2)
  then obtain c t where n: "n = c # t" "c = CHR ''-'' \<or> is_digit c"
    by (cases n) (auto simp: scan_number_def scan_integer_def scan_digits_def is_digit_def split: if_splits)
  then have "\<not> is_space c \<and> c \<notin> set ''{[tfn'' \<and> c \<noteq> CHR 0x22" by (auto simp: is_digit_def is_space_def)
  with n scan have "read_step (WantValue e) fs c (t @ x) = Some (give (RNum n) fs x)"
    by (simp add: read_step_def)
  from read_run_step [OF this] n(1) show ?thesis by simp
qed

lemma read_literal:
  assumes "(c, word, v) \<in> {(CHR ''t'', ''rue'', RBool True), (CHR ''f'', ''alse'', RBool False), (CHR ''n'', ''ull'', RNull)}"
  shows "read_run (WantValue e) fs (c # word @ x) = resume (give v fs x)"
proof -
  have "read_step (WantValue e) fs c (word @ x) = Some (give v fs x)"
    using assms by (auto simp: read_step_def literal_def)
  from read_run_step [OF this] show ?thesis .
qed

lemma read_open:
  assumes "length fs < maxNestingDepth"
  shows "read_run (WantValue e) fs (CHR ''['' # x) = read_run (WantValue True) (InArr [] # fs) x"
    and "read_run (WantValue e) fs (CHR ''{'' # x) = read_run (WantKey True) (InObj [] [] # fs) x"
proof -
  have "read_step (WantValue e) fs (CHR ''['') x = Some (Inr (WantValue True, InArr [] # fs, x))"
    "read_step (WantValue e) fs (CHR ''{'') x = Some (Inr (WantKey True, InObj [] [] # fs, x))"
    using assms by (simp_all add: read_step_def)
  from this [THEN read_run_step] show
    "read_run (WantValue e) fs (CHR ''['' # x) = read_run (WantValue True) (InArr [] # fs) x"
    "read_run (WantValue e) fs (CHR ''{'' # x) = read_run (WantKey True) (InObj [] [] # fs) x"
    by (simp_all add: resume_Inr)
qed

lemma read_close:
  "m = WantValue True \<or> m = WantNext \<Longrightarrow>
     read_run m (InArr vs # fs) (CHR '']'' # x) = resume (give (RArr (rev vs)) fs x)"
  "m = WantKey True \<or> m = WantNext \<Longrightarrow>
     read_run m (InObj kvs k # fs) (CHR ''}'' # x) = resume (give (RObj (rev kvs)) fs x)"
  by (rule read_run_step, auto simp: read_step_def close_def is_digit_def)+

lemma read_comma:
  "read_run WantNext (InArr vs # fs) (CHR '','' # x) = read_run (WantValue False) (InArr vs # fs) x"
  "read_run WantNext (InObj kvs k # fs) (CHR '','' # x) = read_run (WantKey False) (InObj kvs k # fs) x"
proof -
  have "read_step WantNext (InArr vs # fs) (CHR '','') x = Some (Inr (WantValue False, InArr vs # fs, x))"
    "read_step WantNext (InObj kvs k # fs) (CHR '','') x = Some (Inr (WantKey False, InObj kvs k # fs, x))"
    by (simp_all add: read_step_def)
  from this [THEN read_run_step] show
    "read_run WantNext (InArr vs # fs) (CHR '','' # x) = read_run (WantValue False) (InArr vs # fs) x"
    "read_run WantNext (InObj kvs k # fs) (CHR '','' # x) = read_run (WantKey False) (InObj kvs k # fs) x"
    by (simp_all add: resume_Inr)
qed

lemmas read_steps = read_string read_key read_number read_open read_close read_comma

lemma resume_give [simp]:
  "resume (give v [] r) = Some (v, r)"
  "resume (give v (InArr vs # fs) r) = read_run WantNext (InArr (v # vs) # fs) r"
  "resume (give v (InObj kvs k # fs) r) = read_run WantNext (InObj ((k, v) # kvs) [] # fs) r"
  by (simp_all add: resume_def give_def)

lemma read_render_at:
  "readable v \<Longrightarrow> depth v + length fs \<le> maxNestingDepth \<Longrightarrow> \<forall>n. v = VNum n \<longrightarrow> delim x \<Longrightarrow>
     read_run (WantValue e) fs (render v @ x) = resume (give (syntax_of v) fs x)"
  and read_render_rest:
  "readable_list vs \<Longrightarrow> Suc (depth_list vs) + length fs \<le> maxNestingDepth \<Longrightarrow>
     read_run WantNext (InArr us # fs) (render_rest vs @ x)
       = resume (give (RArr (rev us @ map syntax_of vs)) fs x)"
  and read_render_members:
  "readable_members kvs \<Longrightarrow> Suc (depth_members kvs) + length fs \<le> maxNestingDepth \<Longrightarrow>
     read_run WantNext (InObj kus [] # fs) (render_members kvs @ x)
       = resume (give (RObj (rev kus @ map (\<lambda>(k, v). (json_escape k, syntax_of v)) kvs)) fs x)"
proof (induction v and vs and kvs arbitrary: e fs x and us fs x and kus fs x
    rule: render_render_rest_render_members.induct)
  case 1
  then show ?case using read_literal [of "CHR ''n''" "''ull''" RNull e fs x] by simp
next
  case (2 b)
  then show ?case
    using read_literal [of "CHR ''t''" "''rue''" "RBool True" e fs x]
      read_literal [of "CHR ''f''" "''alse''" "RBool False" e fs x] by simp
next
  case (3 n)
  then show ?case by (simp add: read_number)
next
  case (4 s)
  then show ?case by (simp add: read_string)
next
  case 5
  then show ?case by (simp add: read_open read_close)
next
  case (6 v vs)
  then show ?case by (simp add: read_open)
next
  case 7
  then show ?case by (simp add: read_open read_close)
next
  case (8 k v kvs)
  then show ?case by (simp add: read_open read_key)
next
  case (9 e)
  then show ?case by simp
next
  case 10
  then show ?case by (simp add: read_close)
next
  case (11 v vs)
  then show ?case by (simp add: read_comma)
next
  case 12
  then show ?case by (simp add: read_close)
next
  case (13 k v kvs)
  then show ?case by (simp add: read_comma read_key)
qed

theorem read_render:
  assumes "readable v" "depth v \<le> maxNestingDepth" "\<forall>n. v = VNum n \<longrightarrow> delim x"
  shows "read_value (render v @ x) = Some (syntax_of v, x)"
  using read_render_at [OF assms(1) _ assms(3), of "[]"] assms(2) by (simp add: read_value_def)

text \<open>Unquoting everything gives the value back, invalid bytes replaced.\<close>

lemma value_of_syntax: "wf_val v \<Longrightarrow> value_of (syntax_of v) = v"
  by (induction v rule: syntax_of.induct)
    (auto simp: unquote_escape sanitize_valid intro!: map_idI)

lemma read_whole_render:
  "readable v \<Longrightarrow> depth v \<le> maxNestingDepth \<Longrightarrow> read_whole (render v) = Some (syntax_of v)"
  using read_render [of v "[]"] by (simp add: read_whole_def delim_def)

section \<open>Integers\<close>

lemma scan_integer_digits:
  assumes "list_all is_digit ds" "ds \<noteq> []" "hd ds = CHR ''0'' \<Longrightarrow> length ds = 1" "delim x"
  shows "scan_integer pre (ds @ x) = Some (pre @ ds, x)"
proof -
  have no_digit: "takeWhile is_digit x = []" and no_point: "scan_fraction pre' x = Some (pre', x)" for pre'
    using assms(4) by (cases x; auto simp: delim_def is_digit_def scan_fraction_def scan_exponent_def)+
  have tw: "takeWhile is_digit (ds @ x) = ds"
    using assms(1) no_digit by (simp add: takeWhile_append2 list_all_iff)
  show ?thesis
  proof (cases "hd ds = CHR ''0''")
    case True
    with assms(2,3) have "ds = ''0''" by (cases ds) auto
    then show ?thesis by (simp add: scan_integer_def no_point)
  next
    case False
    with assms(2) tw show ?thesis
      by (simp add: scan_integer_def scan_digits_def Let_def no_point)
  qed
qed

lemma num_ok_digits:
  assumes "list_all is_digit ds" "ds \<noteq> []" "hd ds = CHR ''0'' \<Longrightarrow> length ds = 1"
  shows "num_ok ds" and "num_ok (CHR ''-'' # ds)"
proof -
  have "hd (ds @ x) \<noteq> CHR ''-''" for x
    using assms(1,2) by (cases ds) (auto simp: is_digit_def)
  then show "num_ok ds"
    using scan_integer_digits [OF assms] assms(2) by (simp add: num_ok_def scan_number_def)
  show "num_ok (CHR ''-'' # ds)"
    using scan_integer_digits [OF assms] by (simp add: num_ok_def scan_number_def)
qed

end
