(* ===== verification/Go_Decode.thy ===== *)
theory Go_Decode
  imports Go_Read
begin

text \<open>
  \<^verbatim>\<open>encoding/json\<close>'s decoding into Go values: what a syntax leaves in a variable that
  already holds something, for the types the repository decodes into. The text of a decoding
  error is not modelled (it is one of two fixed ones); that there is an error is. Go reuses
  the elements of a slice that a repeated member overwrites; the model does as far as the
  slice's length goes, not its spare capacity.
\<close>

type_synonym 'a jdec = "jtext \<Rightarrow> 'a \<Rightarrow> 'a option"

section \<open>Scalars\<close>

text \<open>\<^verbatim>\<open>strconv.Atoi\<close>, and \<^verbatim>\<open>ParseInt\<close> in base ten for 64 bits.\<close>

definition read_digits :: "string \<Rightarrow> nat option" where
  "read_digits ds =
     (if ds = [] \<or> \<not> list_all is_digit ds then None
      else Some (foldl (\<lambda>n c. n * 10 + (of_char c - 48)) 0 ds))"

definition Atoi :: "string \<Rightarrow> int option" where
  "Atoi s =
     (let neg = (s \<noteq> [] \<and> hd s = CHR ''-'');
          ds = (if s \<noteq> [] \<and> (hd s = CHR ''-'' \<or> hd s = CHR ''+'') then tl s else s)
      in case read_digits ds of
           None \<Rightarrow> None
         | Some n \<Rightarrow>
             let i = (if neg then - int n else int n)
             in if - (2 ^ 63) \<le> i \<and> i < 2 ^ 63 then Some i else None)"

lemma digit_char_value: "is_digit (digit_char d)" "of_char (digit_char d) = 48 + d mod (10 :: nat)"
proof -
  have "list_all (\<lambda>d. is_digit (''0123456789'' ! d) \<and> of_char (''0123456789'' ! d) = 48 + d) [0..<10]"
    by code_simp
  then have "is_digit (''0123456789'' ! e) \<and> of_char (''0123456789'' ! e) = 48 + e" if "e < 10" for e :: nat
    using that by (simp only: list_all_iff set_upt) simp
  from this [of "d mod 10"] show "is_digit (digit_char d)" "of_char (digit_char d) = 48 + d mod (10 :: nat)"
    by (simp_all add: digit_char_def)
qed

lemma dec_nat_read: "list_all is_digit (dec_nat n) \<and> foldl (\<lambda>n c. n * 10 + (of_char c - 48)) 0 (dec_nat n) = n"
proof (induction n rule: less_induct)
  case (less n)
  have digit: "list_all is_digit (dec_nat k)" "foldl (\<lambda>n c. n * 10 + (of_char c - 48)) 0 (dec_nat k) = k"
    if "k = n div 10" "\<not> n < 10" for k
    using less.IH [of k] that by simp_all
  show ?case
    using digit [OF refl] by (subst dec_nat.simps, subst (2) dec_nat.simps) (simp add: digit_char_value)
qed

lemma read_dec_nat [simp]: "read_digits (dec_nat n) = Some n"
  using dec_nat_read [of n] by (simp add: read_digits_def)

lemma dec_nat_hd: "is_digit (hd (dec_nat n))" "hd (dec_nat n) = CHR ''0'' \<Longrightarrow> length (dec_nat n) = 1"
proof -
  show "is_digit (hd (dec_nat n))"
    using dec_nat_read [of n] by (cases "dec_nat n") (simp_all add: dec_nat_not_Nil)
  show "hd (dec_nat n) = CHR ''0'' \<Longrightarrow> length (dec_nat n) = 1"
  proof (induction n rule: less_induct)
    case (less n)
    show ?case
    proof (cases "n < 10")
      case True
      then show ?thesis by (subst dec_nat.simps) simp
    next
      case False
      then have d: "dec_nat n = dec_nat (n div 10) @ [digit_char n]" by (subst dec_nat.simps) simp
      with less.prems have "hd (dec_nat (n div 10)) = CHR ''0''" by simp
      with less.IH [of "n div 10"] False have "length (dec_nat (n div 10)) = 1" by simp
      with \<open>hd (dec_nat (n div 10)) = CHR ''0''\<close> have "dec_nat (n div 10) = ''0''"
        by (cases "dec_nat (n div 10)") auto
      then have "read_digits (dec_nat (n div 10)) = Some 0" by (simp add: read_digits_def is_digit_def)
      with False show ?thesis by simp
    qed
  qed
qed

lemma Atoi_dec_int: "- (2 ^ 63) \<le> i \<Longrightarrow> i < 2 ^ 63 \<Longrightarrow> Atoi (dec_int i) = Some i"
  using dec_nat_hd(1) [of "nat i"] by (auto simp: Atoi_def dec_int_def Let_def is_digit_def)

lemma num_ok_dec_int: "num_ok (dec_int i)"
  using num_ok_digits [of "dec_nat (nat i)"] num_ok_digits [of "dec_nat (nat (- i))"] dec_nat_read dec_nat_hd(2)
  by (simp add: dec_int_def)

definition dec_string :: "string jdec" where
  "dec_string j old = (case j of RNull \<Rightarrow> Some old | RStr b \<Rightarrow> Some (unquote b) | _ \<Rightarrow> None)"

definition dec_bool :: "bool jdec" where
  "dec_bool j old = (case j of RNull \<Rightarrow> Some old | RBool b \<Rightarrow> Some b | _ \<Rightarrow> None)"

definition dec_goint :: "int jdec" where
  "dec_goint j old = (case j of RNull \<Rightarrow> Some old | RNum n \<Rightarrow> Atoi n | _ \<Rightarrow> None)"

definition dec_int64 :: "64 word jdec" where
  "dec_int64 j old = (case j of RNull \<Rightarrow> Some old | RNum n \<Rightarrow> map_option word_of_int (Atoi n) | _ \<Rightarrow> None)"

section \<open>Slices and maps\<close>

fun dec_elems :: "'a jdec \<Rightarrow> 'a \<Rightarrow> 'a list \<Rightarrow> jtext list \<Rightarrow> 'a list option" where
  "dec_elems d zero olds [] = Some []"
| "dec_elems d zero olds (j # js) =
     (case d j (case olds of [] \<Rightarrow> zero | x # _ \<Rightarrow> x) of
        None \<Rightarrow> None
      | Some x \<Rightarrow> map_option (\<lambda>xs. x # xs) (dec_elems d zero (tl olds) js))"

definition dec_list :: "'a jdec \<Rightarrow> 'a \<Rightarrow> 'a list jdec" where
  \<comment> \<open>a slice whose nilness nothing depends on\<close>
  "dec_list d zero j old =
     (case j of RNull \<Rightarrow> Some [] | RArr js \<Rightarrow> dec_elems d zero old js | _ \<Rightarrow> None)"

definition dec_slice :: "'a jdec \<Rightarrow> 'a \<Rightarrow> 'a list option jdec" where
  "dec_slice d zero j old =
     (case j of
        RNull \<Rightarrow> Some None
      | RArr js \<Rightarrow> map_option Some (dec_elems d zero (case old of None \<Rightarrow> [] | Some xs \<Rightarrow> xs) js)
      | _ \<Rightarrow> None)"

fun dec_entries :: "'a jdec \<Rightarrow> 'a \<Rightarrow> (string, 'a) fmap \<Rightarrow> (string \<times> jtext) list \<Rightarrow> (string, 'a) fmap option" where
  "dec_entries d zero m [] = Some m"
| "dec_entries d zero m ((k, j) # kjs) =
     (case d j zero of
        None \<Rightarrow> None
      | Some v \<Rightarrow> dec_entries d zero (fmupd (unquote k) v m) kjs)"

definition dec_map :: "'a jdec \<Rightarrow> 'a \<Rightarrow> (string, 'a) fmap jdec" where
  \<comment> \<open>a map whose nilness nothing depends on\<close>
  "dec_map d zero j old =
     (case j of RNull \<Rightarrow> Some fmempty | RObj kjs \<Rightarrow> dec_entries d zero old kjs | _ \<Rightarrow> None)"

definition dec_nil_map :: "'a jdec \<Rightarrow> 'a \<Rightarrow> (string, 'a) fmap option jdec" where
  "dec_nil_map d zero j old =
     (case j of
        RNull \<Rightarrow> Some None
      | RObj kjs \<Rightarrow> map_option Some (dec_entries d zero (case old of None \<Rightarrow> fmempty | Some m \<Rightarrow> m) kjs)
      | _ \<Rightarrow> None)"

section \<open>Structs\<close>

text \<open>
  A member goes to the field of its very name, else to the first field of its name up to
  case. \<open>fold_key\<close> is \<^verbatim>\<open>foldName\<close> for names that are ASCII: the only other runes that fold
  to a letter are the Kelvin sign and the long s.
\<close>

fun fold_key :: "string \<Rightarrow> string" where
  "fold_key [] = []"
| "fold_key (c # cs) =
     (if take 3 (c # cs) = [CHR 0xE2, CHR 0x84, CHR 0xAA] then CHR ''K'' # fold_key (drop 2 cs)
      else if take 2 (c # cs) = [CHR 0xC5, CHR 0xBF] then CHR ''S'' # fold_key (drop 1 cs)
      else (if 97 \<le> (of_char c :: nat) \<and> of_char c \<le> (122 :: nat) then char_of (of_char c - 32 :: nat) else c)
           # fold_key cs)"

type_synonym 's fields = "(string \<times> 's jdec) list"

definition find_field :: "'s fields \<Rightarrow> string \<Rightarrow> 's jdec option" where
  "find_field fs k =
     (case map_of fs k of
        Some d \<Rightarrow> Some d
      | None \<Rightarrow> map_of (map (\<lambda>(n, d). (fold_key n, d)) fs) (fold_key k))"

definition at_field :: "('s \<Rightarrow> 'a) \<Rightarrow> (('a \<Rightarrow> 'a) \<Rightarrow> 's \<Rightarrow> 's) \<Rightarrow> 'a jdec \<Rightarrow> 's jdec" where
  "at_field get upd d j s = map_option (\<lambda>x. upd (\<lambda>_. x) s) (d j (get s))"

fun dec_members :: "'s fields \<Rightarrow> 's \<Rightarrow> (string \<times> jtext) list \<Rightarrow> 's option" where
  "dec_members fs s [] = Some s"
| "dec_members fs s ((k, j) # kjs) =
     (case find_field fs (unquote k) of
        None \<Rightarrow> dec_members fs s kjs
      | Some d \<Rightarrow> (case d j s of None \<Rightarrow> None | Some s' \<Rightarrow> dec_members fs s' kjs))"

definition dec_struct :: "'s fields \<Rightarrow> 's jdec" where
  "dec_struct fs j s =
     (case j of RNull \<Rightarrow> Some s | RObj kjs \<Rightarrow> dec_members fs s kjs | _ \<Rightarrow> None)"

section \<open>Unmarshal and Decode\<close>

definition decoded :: "'a jdec \<Rightarrow> 'a \<Rightarrow> jtext option \<Rightarrow> 'a res" where
  "decoded d zero j =
     (case j of
        None \<Rightarrow> Inl (LibErr ''json: invalid input'')
      | Some t \<Rightarrow> (case d t zero of
                     None \<Rightarrow> Inl (LibErr ''json: cannot unmarshal value'')
                   | Some x \<Rightarrow> Inr x))"

definition json_Unmarshal :: "'a jdec \<Rightarrow> 'a \<Rightarrow> bytes \<Rightarrow> 'a res" where
  "json_Unmarshal d zero raw = decoded d zero (read_whole (string_of raw))"

text \<open>The first value of a stream cut off after \<open>limit\<close> bytes.\<close>

definition json_Decode :: "'a jdec \<Rightarrow> 'a \<Rightarrow> nat \<Rightarrow> bytes \<Rightarrow> 'a res" where
  "json_Decode d zero limit raw =
     decoded d zero (map_option fst (read_value (string_of (take limit raw))))"

section \<open>Decoding what was written\<close>

text \<open>\<open>d\<close> takes the text of \<open>v\<close>, over any old content, to \<open>x\<close>.\<close>

definition decodes :: "'a jdec \<Rightarrow> goval \<Rightarrow> 'a \<Rightarrow> bool" where
  "decodes d v x \<longleftrightarrow> (\<forall>old. d (syntax_of v) old = Some x)"

lemma unquote_key [simp]: "utf8_valid k \<Longrightarrow> unquote (json_escape k) = k"
  by (simp add: unquote_escape sanitize_valid)

lemma decodes_string: "utf8_valid s \<Longrightarrow> decodes dec_string (VStr s) s"
  by (simp add: decodes_def dec_string_def)

lemma decodes_bool: "decodes dec_bool (VBool b) b"
  by (simp add: decodes_def dec_bool_def)

lemma dec_elems_written:
  "(\<And>x. x \<in> set xs \<Longrightarrow> decodes d (f x) x) \<Longrightarrow>
     dec_elems d zero olds (map (\<lambda>x. syntax_of (f x)) xs) = Some xs"
  by (induction xs arbitrary: olds) (simp_all add: decodes_def)

lemma decodes_list: "(\<And>x. x \<in> set xs \<Longrightarrow> decodes d (f x) x) \<Longrightarrow> decodes (dec_list d zero) (vlist f xs) xs"
  using dec_elems_written [of xs d f zero]
  by (simp add: decodes_def [of "dec_list d zero"] dec_list_def vlist_def comp_def)

lemma dec_entries_written:
  "\<forall>(k, v) \<in> set kvs. utf8_valid k \<and> decodes d (f v) v \<Longrightarrow>
     dec_entries d zero m (map (\<lambda>(k, v). (json_escape k, syntax_of (f v))) kvs)
       = Some (foldl (\<lambda>m (k, v). fmupd k v m) m kvs)"
  by (induction kvs arbitrary: m) (auto simp: decodes_def)

lemma foldl_fmupd:
  "distinct (map fst kvs) \<Longrightarrow>
     fmlookup (foldl (\<lambda>m (k, v). fmupd k v m) m kvs) = map_add (fmlookup m) (map_of kvs)"
proof (induction kvs arbitrary: m)
  case (Cons kv kvs)
  obtain k v where kv: "kv = (k, v)" by (cases kv)
  with Cons have none: "map_of kvs k = None" by (simp add: map_of_eq_None_iff)
  have "fmlookup (foldl (\<lambda>m (k, v). fmupd k v m) (fmupd k v m) kvs) = map_add (fmlookup (fmupd k v m)) (map_of kvs)"
    by (rule Cons.IH) (use Cons.prems kv in simp)
  with none show ?case by (auto simp: kv map_add_def fun_eq_iff split: option.split)
qed simp

lemma dec_entries_vmap:
  assumes "\<And>k v. fmlookup m k = Some v \<Longrightarrow> utf8_valid k \<and> decodes d (f v) v"
  shows "dec_entries d zero fmempty (map (\<lambda>(k, v). (json_escape k, syntax_of (f v))) (entries m)) = Some m"
proof -
  have "\<forall>(k, v) \<in> set (entries m). utf8_valid k \<and> decodes d (f v) v"
    using assms map_of_is_SomeI [of "entries m"] by (fastforce simp: fst_entries sorted_list_of_fset.rep_eq)
  moreover have "foldl (\<lambda>m (k, v). fmupd k v m) fmempty (entries m) = m"
    by (rule fmap_ext) (simp add: foldl_fmupd fst_entries sorted_list_of_fset.rep_eq map_add_def split: option.split)
  ultimately show ?thesis by (simp add: dec_entries_written)
qed

lemma dec_map_written:
  assumes "\<And>k v. fmlookup m k = Some v \<Longrightarrow> utf8_valid k \<and> decodes d (f v) v"
  shows "dec_map d zero (syntax_of (vmap f m)) fmempty = Some m"
    and "dec_nil_map d zero (syntax_of (vmap f m)) None = Some (Some m)"
  using dec_entries_vmap [where m = m and d = d and f = f and zero = zero, OF assms]
  by (simp_all add: dec_map_def dec_nil_map_def vmap_def comp_def case_prod_beta')

lemma decoded_written:
  "d (syntax_of v) zero = Some x \<Longrightarrow> decoded d zero (Some (syntax_of v)) = Inr x"
  by (simp add: decoded_def)

lemma Unmarshal_written:
  assumes "marshal v = Inr raw" "readable v" "depth v \<le> maxNestingDepth" "d (syntax_of v) zero = Some x"
  shows "json_Unmarshal d zero raw = Inr x"
  using assms read_whole_render [OF assms(2,3)]
  by (auto simp: json_Unmarshal_def decoded_def marshal_def split: option.splits)

text \<open>The encoder ends a value with a line feed; a decoder of the stream does not mind.\<close>

lemma Decode_written:
  assumes "marshal v = Inr raw" "readable v" "depth v \<le> maxNestingDepth" "d (syntax_of v) zero = Some x"
    and "length raw \<le> limit" "\<nexists>n. v = VNum n"
  shows "json_Decode d zero limit (raw @ rest) = Inr x"
proof -
  have "raw = bytes_of (render v)" using assms(1) by (auto simp: marshal_def split: option.splits)
  then have "string_of (take limit (raw @ rest)) = render v @ string_of (take (limit - length raw) rest)"
    using assms(5) by simp
  with read_render [OF assms(2,3)] assms(4,6) show ?thesis
    by (simp add: json_Decode_def decoded_def)
qed

section \<open>What decoding keeps\<close>

text \<open>Decoding keeps \<open>Q\<close>: of every variable with \<open>Q\<close> it makes one with \<open>Q\<close>, whatever the text.\<close>

definition keeps :: "('a \<Rightarrow> bool) \<Rightarrow> 'a jdec \<Rightarrow> bool" where
  "keeps Q d \<longleftrightarrow> (\<forall>j x y. Q x \<longrightarrow> d j x = Some y \<longrightarrow> Q y)"

named_theorems keep_rules

lemma keeps_string [keep_rules]: "keeps utf8_valid dec_string"
  by (auto simp: keeps_def dec_string_def split: jtext.splits)

lemma keeps_any [keep_rules]: "keeps (\<lambda>_. True) d"
  by (simp add: keeps_def)

lemma keepsD: "keeps Q d \<Longrightarrow> Q x \<Longrightarrow> d j x = Some y \<Longrightarrow> Q y"
  by (simp add: keeps_def)

lemma keeps_elems:
  assumes "keeps Q d" "Q zero"
  shows "list_all Q olds \<Longrightarrow> dec_elems d zero olds js = Some xs \<Longrightarrow> list_all Q xs"
proof (induction js arbitrary: olds xs)
  case (Cons j js)
  let ?old = "case olds of [] \<Rightarrow> zero | x # _ \<Rightarrow> x"
  have "Q ?old" "list_all Q (tl olds)" using Cons.prems(1) assms(2) by (cases olds; simp)+
  moreover from Cons.prems(2) obtain y ys where "d j ?old = Some y" "dec_elems d zero (tl olds) js = Some ys"
    "xs = y # ys" by (auto split: option.splits)
  ultimately show ?case using Cons.IH keepsD [OF assms(1)] by simp
qed simp

lemma keeps_slice [keep_rules]:
  assumes "keeps Q d" "Q zero"
  shows "keeps (\<lambda>xs. list_all Q (case xs of None \<Rightarrow> [] | Some ys \<Rightarrow> ys)) (dec_slice d zero)"
  unfolding keeps_def [of _ "dec_slice d zero"]
proof (intro allI impI)
  fix j x y
  assume x: "list_all Q (case x of None \<Rightarrow> [] | Some ys \<Rightarrow> ys)" and y: "dec_slice d zero j x = Some y"
  show "list_all Q (case y of None \<Rightarrow> [] | Some ys \<Rightarrow> ys)"
  proof (cases y)
    case (Some ys)
    with y obtain js where "dec_elems d zero (case x of None \<Rightarrow> [] | Some xs \<Rightarrow> xs) js = Some ys"
      by (auto simp: dec_slice_def split: jtext.splits)
    from keeps_elems [OF assms x this] Some show ?thesis by simp
  qed simp
qed

lemma keeps_list:
  assumes "keeps Q d" "Q x0"
  shows "keeps (list_all Q) (dec_list d x0)"
  using keeps_elems [OF assms] by (auto simp: keeps_def dec_list_def split: jtext.splits)

lemma keeps_field:
  assumes "keeps R d" "\<And>s. Q s \<Longrightarrow> R (get s)" "\<And>s x. Q s \<Longrightarrow> R x \<Longrightarrow> Q (upd (\<lambda>_. x) s)"
  shows "keeps Q (at_field get upd d)"
  unfolding keeps_def at_field_def using assms keepsD [OF assms(1)] by fastforce

lemma keeps_members:
  assumes "\<forall>(n, d) \<in> set fs. keeps Q d" "Q s" "dec_members fs s kjs = Some s'"
  shows "Q s'"
  using assms(2,3)
proof (induction kjs arbitrary: s)
  case (Cons kj kjs)
  obtain k j where kj: "kj = (k, j)" by (cases kj)
  show ?case
  proof (cases "find_field fs (unquote k)")
    case None
    with Cons kj show ?thesis by simp
  next
    case (Some d)
    then have "keeps Q d"
      using assms(1) by (auto simp: find_field_def split: option.splits dest!: map_of_SomeD)
    with Cons Some kj show ?thesis by (auto simp: keeps_def split: option.splits)
  qed
qed simp

lemma keeps_struct: "\<forall>(n, d) \<in> set fs. keeps Q d \<Longrightarrow> keeps Q (dec_struct fs)"
  using keeps_members [of fs Q] unfolding keeps_def [of Q "dec_struct fs"]
  by (auto simp: dec_struct_def split: jtext.splits)

lemma Decode_keeps: "keeps Q d \<Longrightarrow> Q zero \<Longrightarrow> json_Decode d zero limit raw = Inr x \<Longrightarrow> Q x"
  by (auto simp: json_Decode_def decoded_def keeps_def split: option.splits)

lemma Unmarshal_keeps: "keeps Q d \<Longrightarrow> Q zero \<Longrightarrow> json_Unmarshal d zero raw = Inr x \<Longrightarrow> Q x"
  by (auto simp: json_Unmarshal_def decoded_def keeps_def split: option.splits)

end
