(* ===== verification/Go_Time.thy ===== *)
theory Go_Time
  imports Package_Format Go_Decode
begin

text \<open>
  Reading a \<^verbatim>\<open>time.Time\<close> back: the strict parser of \<^verbatim>\<open>time/format_rfc3339.go\<close>, which
  \<^verbatim>\<open>UnmarshalJSON\<close> tries first. What it refuses is handed to \<^verbatim>\<open>time.Parse\<close>, which is laxer;
  that fallback is an argument, and no theorem depends on it. The main fact: the text of a
  valid time reads back as that time (\<open>parse_time_text\<close>).
\<close>

section \<open>The parser\<close>

definition leap_year :: "nat \<Rightarrow> bool" where
  "leap_year y \<longleftrightarrow> y mod 4 = 0 \<and> (y mod 100 \<noteq> 0 \<or> y mod 400 = 0)"

definition daysIn :: "nat \<Rightarrow> nat \<Rightarrow> nat" where
  "daysIn m y =
     (if m = 2 then (if leap_year y then 29 else 28)
      else if m \<in> {4, 6, 9, 11} then 30 else 31)"

text \<open>The digits at \<open>[i, i + w)\<close> as a number in a range.\<close>

definition digits_at :: "string \<Rightarrow> nat \<Rightarrow> nat \<Rightarrow> nat \<Rightarrow> nat \<Rightarrow> nat option" where
  "digits_at s i w lo hi =
     (case read_digits (take w (drop i s)) of
        Some n \<Rightarrow> if lo \<le> n \<and> n \<le> hi then Some n else None
      | None \<Rightarrow> None)"

definition parse_fraction :: "string \<Rightarrow> nat \<times> string" where
  "parse_fraction s =
     (let ds = takeWhile is_digit (tl s)
      in if s \<noteq> [] \<and> hd s = CHR ''.'' \<and> ds \<noteq> []
         then (the (read_digits (take 9 (ds @ replicate 9 (CHR ''0'')))), drop (Suc (length ds)) s)
         else (0, s))"

definition parse_zone :: "string \<Rightarrow> int option" where
  "parse_zone s =
     (if s = ''Z'' then Some 0
      else if length s = 6 \<and> (hd s = CHR ''+'' \<or> hd s = CHR ''-'') \<and> s ! 3 = CHR '':'' then
        (case (digits_at s 1 2 0 23, digits_at s 4 2 0 59) of
           (Some h, Some m) \<Rightarrow>
             Some ((if hd s = CHR ''-'' then - 1 else 1) * (int (h * 60 + m) * 60))
         | _ \<Rightarrow> None)
      else None)"

definition parseRFC3339 :: "string \<Rightarrow> gotime option" where
  "parseRFC3339 s =
     (if length s < 19 then None
      else
     (case (digits_at s 0 4 0 9999, digits_at s 5 2 1 12) of
        (Some year, Some month) \<Rightarrow>
     (case (digits_at s 8 2 1 (daysIn month year), digits_at s 11 2 0 23,
            digits_at s 14 2 0 59, digits_at s 17 2 0 59) of
        (Some day, Some hour, Some minute, Some second) \<Rightarrow>
          if s ! 4 = CHR ''-'' \<and> s ! 7 = CHR ''-'' \<and> s ! 10 = CHR ''T'' \<and> s ! 13 = CHR '':''
             \<and> s ! 16 = CHR '':''
          then (let (nano, rest) = parse_fraction (drop 19 s)
                in map_option (\<lambda>off. \<lparr> tm_year = int year, tm_month = month, tm_day = day, tm_hour = hour,
                     tm_minute = minute, tm_second = second, tm_nano = nano, tm_offset = off \<rparr>)
                     (parse_zone rest))
          else None
      | _ \<Rightarrow> None)
      | _ \<Rightarrow> None))"

text \<open>\<^verbatim>\<open>Time.UnmarshalJSON\<close> looks at the raw literal, escapes and all.\<close>

definition dec_time :: "(string \<Rightarrow> gotime option) \<Rightarrow> gotime jdec" where
  "dec_time lax j old =
     (case j of
        RNull \<Rightarrow> Some old
      | RStr b \<Rightarrow> (case parseRFC3339 b of Some t \<Rightarrow> Some t | None \<Rightarrow> lax b)
      | _ \<Rightarrow> None)"

definition gotime0 :: gotime where
  \<comment> \<open>the zero time\<close>
  "gotime0 = \<lparr> tm_year = 1, tm_month = 1, tm_day = 1, tm_hour = 0, tm_minute = 0, tm_second = 0,
     tm_nano = 0, tm_offset = 0 \<rparr>"

section \<open>Reading a written time\<close>

definition time_valid :: "gotime \<Rightarrow> bool" where
  "time_valid t \<longleftrightarrow>
     0 \<le> tm_year t \<and> tm_year t \<le> 9999 \<and> 1 \<le> tm_month t \<and> tm_month t \<le> 12 \<and>
     1 \<le> tm_day t \<and> tm_day t \<le> daysIn (tm_month t) (nat (tm_year t)) \<and>
     tm_hour t < 24 \<and> tm_minute t < 60 \<and> tm_second t < 60 \<and> tm_nano t < 10 ^ 9 \<and>
     \<bar>tm_offset t\<bar> < 24 * 3600 \<and> tm_offset t mod 60 = 0"

lemma length_fixed_dec [simp]: "length (fixed_dec w n) = w"
  by (induction w arbitrary: n) simp_all

lemma fixed_dec_digits: "list_all is_digit (fixed_dec w n)"
  by (induction w arbitrary: n) (simp_all add: digit_char_value)

lemma fold_fixed_dec:
  "foldl (\<lambda>n c. n * 10 + (of_char c - 48)) 0 (fixed_dec w n) = n mod 10 ^ w"
proof (induction w arbitrary: n)
  case (Suc w)
  have "n mod (10 * 10 ^ w) = 10 * (n div 10 mod 10 ^ w) + n mod 10"
    by (rule mod_mult2_eq)
  with Suc show ?case by (simp add: digit_char_value)
qed simp

lemma read_fixed_dec: "0 < w \<Longrightarrow> read_digits (fixed_dec w n) = Some (n mod 10 ^ w)"
proof -
  assume "0 < w"
  then have "fixed_dec w n \<noteq> []" by (metis length_fixed_dec length_0_conv less_numeral_extra(3))
  then show ?thesis by (simp add: read_digits_def fixed_dec_digits fold_fixed_dec)
qed

lemma digits_at_fixed:
  "take w (drop i s) = fixed_dec w n \<Longrightarrow> 0 < w \<Longrightarrow> n < 10 ^ w \<Longrightarrow> lo \<le> n \<Longrightarrow> n \<le> hi \<Longrightarrow>
     digits_at s i w lo hi = Some n"
  by (simp add: digits_at_def read_fixed_dec)

lemma strip_zeros:
  assumes "s = rev (dropWhile (\<lambda>c. c = CHR ''0'') (rev t))"
  shows "t = s @ replicate (length t - length s) (CHR ''0'')"
proof -
  have "takeWhile (\<lambda>c. c = CHR ''0'') (rev t)
      = replicate (length (takeWhile (\<lambda>c. c = CHR ''0'') (rev t))) (CHR ''0'')"
    by (rule replicate_eqI) (auto dest: set_takeWhileD)
  moreover have t: "t = s @ rev (takeWhile (\<lambda>c. c = CHR ''0'') (rev t))"
    unfolding assms by (metis rev_append rev_rev_ident takeWhile_dropWhile_id)
  moreover from t have "length (takeWhile (\<lambda>c. c = CHR ''0'') (rev t)) = length t - length s"
    by (metis add_diff_cancel_left' length_append length_rev)
  ultimately show ?thesis by (metis rev_replicate)
qed

lemma parse_fraction_text:
  assumes "ns < 10 ^ 9" "z \<noteq> [] \<and> \<not> is_digit (hd z) \<and> hd z \<noteq> CHR ''.''"
  shows "parse_fraction (fraction_text ns @ z) = (ns, z)"
proof (cases "ns = 0")
  case True
  with assms(2) show ?thesis by (cases z) (simp_all add: fraction_text_def parse_fraction_def)
next
  case False
  let ?t = "fixed_dec 9 ns"
  let ?s = "rev (dropWhile (\<lambda>c. c = CHR ''0'') (rev ?t))"
  note split = strip_zeros [OF refl, of ?t]
  have digits: "list_all is_digit ?s"
    using fixed_dec_digits [of 9 ns] by (auto simp: list_all_iff dest: set_dropWhileD)
  have ne: "?s \<noteq> []"
  proof
    assume "?s = []"
    with split have t: "?t = replicate 9 (CHR ''0'')" by simp
    have "foldl (\<lambda>n c. n * 10 + (of_char c - 48)) 0 (replicate k (CHR ''0'')) = (0 :: nat)" for k
      by (induction k) simp_all
    with fold_fixed_dec [of 9 ns] assms(1) False show False unfolding t by simp
  qed
  have len: "length ?s \<le> 9" using split by (metis length_append length_fixed_dec le_add1)
  have "takeWhile is_digit (?s @ z) = ?s"
    using digits assms(2) takeWhile_append2 [of ?s is_digit z] by (cases z) (simp_all add: list_all_iff)
  moreover have "take 9 (?s @ replicate 9 (CHR ''0'')) = ?t"
    using split len by (simp add: min_def)
  ultimately show ?thesis
    using False ne assms(1) read_fixed_dec [of 9 ns]
    by (simp add: fraction_text_def parse_fraction_def Let_def)
qed

lemma parse_zone_text:
  assumes "\<bar>off\<bar> < 24 * 3600" "off mod 60 = 0"
  shows "parse_zone (zone_text off) = Some off"
proof (cases "off = 0")
  case False
  define z where "z = nat (\<bar>off\<bar> div 60)"
  obtain k where "off = 60 * k" using assms(2) by (auto simp: mod_eq_0_iff_dvd dvd_def)
  then have z: "int z * 60 = \<bar>off\<bar>" by (simp add: z_def abs_mult)
  then have "z < 24 * 60" using assms(1) by linarith
  then have small: "z div 60 < 24" "z mod 60 < 60" by (auto simp: less_mult_imp_div_less)
  have "1 \<le> int z" using z False by (cases z) simp_all
  then have "off \<le> - 60" if "off < 0" using z that by linarith
  then have sign: "off \<le> - 60 \<longleftrightarrow> off < 0" by auto
  let ?c = "if off < 0 then CHR ''-'' else CHR ''+''"
  have zt: "zone_text off = ?c # fixed_dec 2 (z div 60) @ CHR '':'' # fixed_dec 2 (z mod 60)"
    using False sign by (simp add: zone_text_def Let_def z_def)
  have "digits_at (zone_text off) 1 2 0 23 = Some (z div 60)"
    unfolding zt by (rule digits_at_fixed) (use small in simp_all)
  moreover have "digits_at (zone_text off) 4 2 0 59 = Some (z mod 60)"
    unfolding zt by (rule digits_at_fixed) (use small in simp_all)
  moreover have "zone_text off \<noteq> ''Z''" "length (zone_text off) = 6" "zone_text off ! 3 = CHR '':''"
    "hd (zone_text off) = ?c"
    unfolding zt by (simp_all add: nth_append)
  moreover have "(z div 60 * 60 + z mod 60) = z" by simp
  ultimately show ?thesis
    using z False by (auto simp: parse_zone_def)
qed (simp add: zone_text_def parse_zone_def)

lemma zone_text_head: "zone_text off \<noteq> [] \<and> \<not> is_digit (hd (zone_text off)) \<and> hd (zone_text off) \<noteq> CHR ''.''"
  by (simp add: zone_text_def is_digit_def Let_def)

lemma parse_time_text:
  assumes "time_valid t"
  shows "parseRFC3339 (time_text t) = Some t"
proof -
  let ?z = "zone_text (tm_offset t)"
  let ?f = "fraction_text (tm_nano t)"
  let ?s = "time_text t"
  have day: "tm_day t < 100" "tm_month t < 100"
    using assms by (auto simp: time_valid_def daysIn_def split: if_splits)
  have at: "take 4 (drop 0 ?s) = fixed_dec 4 (nat (tm_year t))" "take 2 (drop 5 ?s) = fixed_dec 2 (tm_month t)"
    "take 2 (drop 8 ?s) = fixed_dec 2 (tm_day t)" "take 2 (drop 11 ?s) = fixed_dec 2 (tm_hour t)"
    "take 2 (drop 14 ?s) = fixed_dec 2 (tm_minute t)" "take 2 (drop 17 ?s) = fixed_dec 2 (tm_second t)"
    "drop 19 ?s = ?f @ ?z" "\<not> length ?s < 19"
    by (simp_all add: time_text_def)
  have seps: "?s ! 4 = CHR ''-''" "?s ! 7 = CHR ''-''" "?s ! 10 = CHR ''T''" "?s ! 13 = CHR '':''" "?s ! 16 = CHR '':''"
    by (simp_all add: time_text_def nth_append)
  have ds: "digits_at ?s 0 4 0 9999 = Some (nat (tm_year t))" "digits_at ?s 5 2 1 12 = Some (tm_month t)"
    "digits_at ?s 8 2 1 (daysIn (tm_month t) (nat (tm_year t))) = Some (tm_day t)"
    "digits_at ?s 11 2 0 23 = Some (tm_hour t)" "digits_at ?s 14 2 0 59 = Some (tm_minute t)"
    "digits_at ?s 17 2 0 59 = Some (tm_second t)"
    using assms day by (auto simp: time_valid_def intro!: digits_at_fixed at)
  have "parse_fraction (drop 19 ?s) = (tm_nano t, ?z)"
    unfolding at(7) by (rule parse_fraction_text) (use assms zone_text_head in \<open>simp_all add: time_valid_def\<close>)
  moreover have "parse_zone ?z = Some (tm_offset t)"
    using assms by (intro parse_zone_text) (simp_all add: time_valid_def)
  ultimately show ?thesis
    using assms
    by (simp add: parseRFC3339_def at(8) seps ds [unfolded One_nat_def] time_valid_def del: drop_drop)
qed

lemma time_plain: "json_escape (time_text t) = time_text t"
proof -
  have plain: "json_escape s = s" if "list_all (\<lambda>c. json_ascii c = [c] \<and> of_char c < (128 :: nat)) s" for s
    using that by (induction s) (simp_all add: json_rune_ascii)
  have ok: "list_all (\<lambda>c. json_ascii c = [c] \<and> of_char c < (128 :: nat)) ''0123456789-+T:.Z''"
    by (simp add: json_ascii_def)
  have "set (fixed_dec w n) \<subseteq> set ''0123456789''" for w n
    using fixed_dec_digits [of w n] by (auto simp: list_all_iff is_digit_def)
  moreover define T where "T = set ''0123456789-+T:.Z''"
  ultimately have dec: "set (fixed_dec w n) \<subseteq> T" for w n by fastforce
  have seps: "CHR ''-'' \<in> T" "CHR ''+'' \<in> T" "CHR ''T'' \<in> T" "CHR '':'' \<in> T" "CHR ''.'' \<in> T" "CHR ''Z'' \<in> T"
    by (simp_all add: T_def)
  have "set (fraction_text n) \<subseteq> T" for n
    unfolding fraction_text_def using dec [of 9 n] seps by (auto dest!: set_dropWhileD)
  moreover have "set (zone_text z) \<subseteq> T" for z
    unfolding zone_text_def Let_def using dec [of 2] seps by auto
  ultimately have "set (time_text t) \<subseteq> T"
    unfolding time_text_def set_append Un_subset_iff using dec seps by simp
  with ok show ?thesis unfolding T_def by (intro plain) (auto simp: list_all_iff simp del: set_simps)
qed

lemma decodes_time:
  assumes "time_valid t"
  shows "decodes (dec_time lax) (time_val t) t"
proof -
  have "time_val t = VStr (time_text t)" using assms by (auto simp: time_val_def time_valid_def)
  with parse_time_text [OF assms] show ?thesis by (simp add: decodes_def dec_time_def time_plain)
qed

end
