(* ===== verification/Go_Any.thy ===== *)
theory Go_Any
  imports Go_Json
begin

text \<open>
  What \<^verbatim>\<open>encoding/json\<close> leaves in a variable of type \<^verbatim>\<open>any\<close>, and the JSON value it writes
  for it again. Used by the mock authority, whose rules and projections are decoded that
  way, and by the decoder of a package, for its disclosures.
\<close>

section \<open>Decoded JSON\<close>

text \<open>
  What \<^verbatim>\<open>json.Unmarshal\<close> leaves in an \<^verbatim>\<open>any\<close>. A finite \<^verbatim>\<open>float64\<close> is the rational it stands
  for. \<open>float_lib\<close> are the three number routines of the standard library the file relies
  on: parsing to the nearest \<^verbatim>\<open>float64\<close> (an error when out of range), the text JSON writes
  for one, and the \<^verbatim>\<open>%v\<close> of a value in a reason.
\<close>

datatype jval =
    JNull
  | JBool bool
  | JNum rat
  | JStr string
  | JArr "jval list"
  | JObj "(string \<times> jval) list"

record float_lib =
  fl_parse :: "string \<Rightarrow> rat option"
  fl_json :: "rat \<Rightarrow> string"
  fl_show :: "jval \<Rightarrow> string"

fun decode_any :: "float_lib \<Rightarrow> goval \<Rightarrow> jval option"
  and decode_anys :: "float_lib \<Rightarrow> goval list \<Rightarrow> jval list option"
  and decode_pairs :: "float_lib \<Rightarrow> (string \<times> goval) list \<Rightarrow> (string \<times> jval) list option" where
  "decode_any F VNull = Some JNull"
| "decode_any F (VBool b) = Some (JBool b)"
| "decode_any F (VNum n) = map_option JNum (fl_parse F n)"
| "decode_any F (VStr s) = Some (JStr (sanitize s))"
| "decode_any F (VArr vs) = map_option JArr (decode_anys F vs)"
| "decode_any F (VObj kvs) = map_option JObj (decode_pairs F kvs)"
| "decode_any F (VFail e) = None"
| "decode_anys F [] = Some []"
| "decode_anys F (v # vs) =
     (case decode_any F v of None \<Rightarrow> None
      | Some j \<Rightarrow> map_option (\<lambda>js. j # js) (decode_anys F vs))"
| "decode_pairs F [] = Some []"
| "decode_pairs F ((k, v) # kvs) =
     (case decode_any F v of None \<Rightarrow> None
      | Some j \<Rightarrow> map_option (\<lambda>js. (sanitize k, j) # js) (decode_pairs F kvs))"

text \<open>Written again: a map in the order of its keys, the last of two equal ones winning.\<close>

fun jval_val :: "float_lib \<Rightarrow> jval \<Rightarrow> goval"
  and jval_pairs :: "float_lib \<Rightarrow> (string \<times> jval) list \<Rightarrow> (string \<times> goval) list" where
  "jval_val F JNull = VNull"
| "jval_val F (JBool b) = VBool b"
| "jval_val F (JNum q) = VNum (fl_json F q)"
| "jval_val F (JStr s) = VStr s"
| "jval_val F (JArr js) = VArr (map (jval_val F) js)"
| "jval_val F (JObj kvs) = VObj (entries (fmap_of_list (rev (jval_pairs F kvs))))"
| "jval_pairs F [] = []"
| "jval_pairs F ((k, j) # kvs) = (k, jval_val F j) # jval_pairs F kvs"

end
