(* ===== verification/Package_Wire.thy ===== *)
theory Package_Wire
  imports Go_Time Go_Any
begin

text \<open>
  A whole package as JSON, as the API and the command line exchange it: the value
  \<^verbatim>\<open>json.Marshal\<close> makes of a \<open>Package\<close>, and what decoding such a text leaves in one. The
  main fact is the round trip: a package of valid text, whose bindings do not collide, is
  read back as it was written.
\<close>

section \<open>Writing\<close>

definition epk_val :: "epk \<Rightarrow> goval" where
  "epk_val e = VObj [(''kty'', VStr (ep_kty e)), (''crv'', VStr (ep_crv e)), (''x'', VStr (ep_x e))]"

definition sealed_segment_val :: "sealed_segment \<Rightarrow> goval" where
  "sealed_segment_val s = VObj [(''epk'', epk_val (ss_epk s)), (''dek_wrapped'', VStr (ss_dek_wrapped s)),
     (''nonce'', VStr (ss_nonce s)), (''ciphertext'', VStr (ss_ciphertext s)), (''tag'', VStr (ss_tag s))]"

definition signature_val :: "signature \<Rightarrow> goval" where
  "signature_val s = VObj [(''alg'', VStr (sn_alg s)), (''kid'', VStr (sn_kid s)),
     (''signed_fields'', vlist VStr (sn_signed_fields s)), (''value'', VStr (sn_value s))]"

definition package_val :: "package \<Rightarrow> goval" where
  "package_val p = VObj [(''spec_version'', VStr (pk_spec_version p)), (''profile'', VStr (pk_profile p)),
     (''package_id'', VStr (pk_package_id p)), (''issued_at'', time_val (pk_issued_at p)),
     (''issuer'', issuer_val (pk_issuer p)), (''intent'', intent_val (pk_intent p)),
     (''cnf'', cnf_val (pk_cnf p)), (''bindings'', bindings_val (pk_bindings p)),
     (''manifest'', manifest_val (pk_manifest p)),
     (''segments'', vmap sealed_segment_val (pk_segments p)),
     (''signature'', signature_val (pk_signature p))]"

section \<open>Reading\<close>

text \<open>The zero values a decoder starts from.\<close>

definition issuer0 :: issuer where "issuer0 = \<lparr> iss_iss = [], iss_kid = [] \<rparr>"

definition intent0 :: intent where
  "intent0 = \<lparr> in_intent_ref = [], in_authority = [], in_constraints_hash = [] \<rparr>"

definition key_confirmation0 :: key_confirmation where
  "key_confirmation0 = \<lparr> kc_kid = [], kc_jkt = [], kc_method = [] \<rparr>"

definition bindings0 :: bindings where
  "bindings0 = \<lparr> bd_segments_root = [], bd_intent_commitment = [], bd_extra = fmempty \<rparr>"

definition aad_context0 :: aad_context where
  "aad_context0 = \<lparr> ac_package_id = [], ac_tenant_id = [], ac_environment = [] \<rparr>"

definition zero_segment :: segment where
  "zero_segment = \<lparr> sg_audience = [], sg_kid = [], sg_alg = [], sg_wrap_alg = [], sg_plain_hash = [],
     sg_cipher_hash = [] \<rparr>"

definition manifest0 :: manifest where
  "manifest0 = \<lparr> mf_schema = [], mf_hash_alg = [], mf_canonicalization = [], mf_segment_order = [],
     mf_aad_context = aad_context0, mf_segments = fmempty, mf_disclosures = [] \<rparr>"

definition epk0 :: epk where "epk0 = \<lparr> ep_kty = [], ep_crv = [], ep_x = [] \<rparr>"

definition zero_sealed :: sealed_segment where
  "zero_sealed = \<lparr> ss_epk = epk0, ss_dek_wrapped = [], ss_nonce = [], ss_ciphertext = [], ss_tag = [] \<rparr>"

definition zero_signature :: signature where
  "zero_signature = \<lparr> sn_alg = [], sn_kid = [], sn_signed_fields = [], sn_value = [] \<rparr>"

definition package0 :: package where
  "package0 = \<lparr> pk_spec_version = [], pk_profile = [], pk_package_id = [], pk_issued_at = gotime0,
     pk_issuer = issuer0, pk_intent = intent0, pk_cnf = None, pk_bindings = bindings0,
     pk_manifest = manifest0, pk_segments = fmempty, pk_signature = zero_signature \<rparr>"

text \<open>The fields by their tags.\<close>

definition dec_issuer :: "issuer jdec" where
  "dec_issuer = dec_struct
     [(''iss'', at_field iss_iss iss_iss_update dec_string), (''kid'', at_field iss_kid iss_kid_update dec_string)]"

definition dec_intent :: "intent jdec" where
  "dec_intent = dec_struct
     [(''intent_ref'', at_field in_intent_ref in_intent_ref_update dec_string),
      (''authority'', at_field in_authority in_authority_update dec_string),
      (''constraints_hash'', at_field in_constraints_hash in_constraints_hash_update dec_string)]"

definition dec_key_confirmation :: "key_confirmation jdec" where
  "dec_key_confirmation = dec_struct
     [(''kid'', at_field kc_kid kc_kid_update dec_string), (''jkt'', at_field kc_jkt kc_jkt_update dec_string),
      (''method'', at_field kc_method kc_method_update dec_string)]"

definition dec_aad_context :: "aad_context jdec" where
  "dec_aad_context = dec_struct
     [(''package_id'', at_field ac_package_id ac_package_id_update dec_string),
      (''tenant_id'', at_field ac_tenant_id ac_tenant_id_update dec_string),
      (''environment'', at_field ac_environment ac_environment_update dec_string)]"

definition dec_segment :: "segment jdec" where
  "dec_segment = dec_struct
     [(''audience'', at_field sg_audience sg_audience_update dec_string),
      (''kid'', at_field sg_kid sg_kid_update dec_string), (''alg'', at_field sg_alg sg_alg_update dec_string),
      (''wrap_alg'', at_field sg_wrap_alg sg_wrap_alg_update dec_string),
      (''plain_hash'', at_field sg_plain_hash sg_plain_hash_update dec_string),
      (''cipher_hash'', at_field sg_cipher_hash sg_cipher_hash_update dec_string)]"

text \<open>An element of the disclosures is an \<^verbatim>\<open>any\<close>: what it will be written as again.\<close>

definition dec_any :: "float_lib \<Rightarrow> goval jdec" where
  "dec_any F j old = map_option (jval_val F) (decode_any F (value_of j))"

definition dec_manifest :: "float_lib \<Rightarrow> manifest jdec" where
  "dec_manifest F = dec_struct
     [(''schema'', at_field mf_schema mf_schema_update dec_string),
      (''hash_alg'', at_field mf_hash_alg mf_hash_alg_update dec_string),
      (''canonicalization'', at_field mf_canonicalization mf_canonicalization_update dec_string),
      (''segment_order'', at_field mf_segment_order mf_segment_order_update (dec_list dec_string [])),
      (''aad_context'', at_field mf_aad_context mf_aad_context_update dec_aad_context),
      (''segments'', at_field mf_segments mf_segments_update (dec_map dec_segment zero_segment)),
      (''disclosures'', at_field mf_disclosures mf_disclosures_update (dec_list (dec_any F) VNull))]"

definition dec_bindings :: "bindings jdec" where
  "dec_bindings j old = (case bindings_UnmarshalJSON (value_of j) of Inr b \<Rightarrow> Some b | Inl _ \<Rightarrow> None)"

definition dec_epk :: "epk jdec" where
  "dec_epk = dec_struct
     [(''kty'', at_field ep_kty ep_kty_update dec_string), (''crv'', at_field ep_crv ep_crv_update dec_string),
      (''x'', at_field ep_x ep_x_update dec_string)]"

definition dec_sealed_segment :: "sealed_segment jdec" where
  "dec_sealed_segment = dec_struct
     [(''epk'', at_field ss_epk ss_epk_update dec_epk),
      (''dek_wrapped'', at_field ss_dek_wrapped ss_dek_wrapped_update dec_string),
      (''nonce'', at_field ss_nonce ss_nonce_update dec_string),
      (''ciphertext'', at_field ss_ciphertext ss_ciphertext_update dec_string),
      (''tag'', at_field ss_tag ss_tag_update dec_string)]"

definition dec_signature :: "signature jdec" where
  "dec_signature = dec_struct
     [(''alg'', at_field sn_alg sn_alg_update dec_string), (''kid'', at_field sn_kid sn_kid_update dec_string),
      (''signed_fields'', at_field sn_signed_fields sn_signed_fields_update (dec_list dec_string [])),
      (''value'', at_field sn_value sn_value_update dec_string)]"

text \<open>What the reader needs of the standard library: its floats, and the lax time parser.\<close>

record read_lib =
  rd_floats :: float_lib
  rd_time :: "string \<Rightarrow> gotime option"

definition dec_package :: "read_lib \<Rightarrow> package jdec" where
  "dec_package R = dec_struct
     [(''spec_version'', at_field pk_spec_version pk_spec_version_update dec_string),
      (''profile'', at_field pk_profile pk_profile_update dec_string),
      (''package_id'', at_field pk_package_id pk_package_id_update dec_string),
      (''issued_at'', at_field pk_issued_at pk_issued_at_update (dec_time (rd_time R))),
      (''issuer'', at_field pk_issuer pk_issuer_update dec_issuer),
      (''intent'', at_field pk_intent pk_intent_update dec_intent),
      (''cnf'', at_field pk_cnf pk_cnf_update (dec_nil_map dec_key_confirmation key_confirmation0)),
      (''bindings'', at_field pk_bindings pk_bindings_update dec_bindings),
      (''manifest'', at_field pk_manifest pk_manifest_update (dec_manifest (rd_floats R))),
      (''segments'', at_field pk_segments pk_segments_update (dec_map dec_sealed_segment zero_sealed)),
      (''signature'', at_field pk_signature pk_signature_update dec_signature)]"

section \<open>The round trip\<close>

text \<open>
  The values that hold only text: no number, every string valid and every object without a
  repeated member. \<^verbatim>\<open>json.Marshal\<close> and the reader are inverse on them.
\<close>

fun text_val :: "goval \<Rightarrow> bool" where
  "text_val VNull \<longleftrightarrow> True"
| "text_val (VBool b) \<longleftrightarrow> True"
| "text_val (VNum n) \<longleftrightarrow> False"
| "text_val (VStr s) \<longleftrightarrow> utf8_valid s"
| "text_val (VArr vs) \<longleftrightarrow> list_all text_val vs"
| "text_val (VObj kvs) \<longleftrightarrow> distinct (map fst kvs) \<and> list_all (\<lambda>(k, v). utf8_valid k \<and> text_val v) kvs"
| "text_val (VFail e) \<longleftrightarrow> False"

lemma text_wf: "text_val v \<Longrightarrow> wf_val v"
  by (induction v) (auto simp: list_all_iff)

lemma text_readable:
  "text_val v \<Longrightarrow> readable v"
  "list_all text_val vs \<Longrightarrow> readable_list vs"
  "list_all (\<lambda>(k, v). text_val v) kvs \<Longrightarrow> readable_members kvs"
  by (induction v and vs and kvs rule: readable_readable_list_readable_members.induct)
    (auto simp: list_all_iff)

definition package_text :: "package \<Rightarrow> bool" where
  "package_text p \<longleftrightarrow>
     text_val (package_val p) \<and> time_valid (pk_issued_at p) \<and> mf_disclosures (pk_manifest p) = []"

named_theorems decoders

lemmas [decoders] = dec_struct_def find_field_def at_field_def

declare json_escape.simps(2) [simp del]

lemma decodes_small:
  "text_val (issuer_val i) \<Longrightarrow> decodes dec_issuer (issuer_val i) i"
  "text_val (intent_val n) \<Longrightarrow> decodes dec_intent (intent_val n) n"
  "text_val (key_confirmation_val k) \<Longrightarrow> decodes dec_key_confirmation (key_confirmation_val k) k"
  "text_val (aad_context_val c) \<Longrightarrow> decodes dec_aad_context (aad_context_val c) c"
  "text_val (segment_val s) \<Longrightarrow> decodes dec_segment (segment_val s) s"
  "text_val (epk_val e) \<Longrightarrow> decodes dec_epk (epk_val e) e"
  by (auto simp: decodes_def val_defs epk_val_def decoders dec_string_def dec_issuer_def dec_intent_def
      dec_key_confirmation_def dec_aad_context_def dec_segment_def dec_epk_def
      intro!: issuer.equality intent.equality key_confirmation.equality aad_context.equality
        segment.equality epk.equality)

lemma decodes_strings: "list_all utf8_valid xs \<Longrightarrow> decodes (dec_list dec_string []) (vlist VStr xs) xs"
  by (intro decodes_list decodes_string) (simp add: list_all_iff)

lemma decodes_bindings:
  assumes "text_val (bindings_val b)"
  shows "decodes dec_bindings (bindings_val b) b"
proof -
  obtain m where m: "bindings_MarshalJSON b = Inr m" "bindings_val b = vmap VStr m"
    using assms by (cases "bindings_MarshalJSON b") (simp_all add: bindings_val_def)
  with assms have "value_of (syntax_of (vmap VStr m)) = vmap VStr m"
    by (simp add: value_of_syntax text_wf)
  with m bindings_roundtrip [OF m(1)] show ?thesis by (simp add: decodes_def dec_bindings_def)
qed

lemma text_vmap_entry:
  assumes "text_val (vmap f m)" "fmlookup m k = Some v"
  shows "utf8_valid k \<and> text_val (f v)"
proof -
  have "(k, v) \<in> set (entries m)"
    using assms(2) map_of_SomeD [of "entries m" k v] by simp
  with assms(1) show ?thesis by (fastforce simp: vmap_def list_all_iff)
qed

lemma text_vlist_elem: "text_val (vlist f xs) \<Longrightarrow> x \<in> set xs \<Longrightarrow> text_val (f x)"
  by (simp add: vlist_def list_all_iff)

lemma dec_map_text:
  assumes "text_val (vmap f m)" "\<And>v. text_val (f v) \<Longrightarrow> decodes d (f v) v"
  shows "dec_map d zero (syntax_of (vmap f m)) fmempty = Some m"
    and "dec_nil_map d zero (syntax_of (vmap f m)) None = Some (Some m)"
proof -
  have "utf8_valid k \<and> decodes d (f v) v" if "fmlookup m k = Some v" for k v
    using text_vmap_entry [OF assms(1) that] assms(2) by simp
  note entry = this
  show "dec_map d zero (syntax_of (vmap f m)) fmempty = Some m"
    by (rule dec_map_written(1)) (rule entry)
  show "dec_nil_map d zero (syntax_of (vmap f m)) None = Some (Some m)"
    by (rule dec_map_written(2)) (rule entry)
qed

lemma dec_cnf_written:
  assumes "text_val (cnf_val c)"
  shows "dec_nil_map dec_key_confirmation z (syntax_of (cnf_val c)) None = Some c"
proof (cases c)
  case (Some m)
  with assms have "text_val (vmap key_confirmation_val m)" by (simp add: cnf_val_def)
  from dec_map_text(2) [OF this decodes_small(3)] Some show ?thesis by (simp add: cnf_val_def)
qed (simp add: cnf_val_def dec_nil_map_def)

lemma decodes_sealed_segment:
  "text_val (sealed_segment_val s) \<Longrightarrow> decodes dec_sealed_segment (sealed_segment_val s) s"
  using decodes_small(6) [of "ss_epk s"]
  by (auto simp: decodes_def sealed_segment_val_def decoders dec_string_def dec_sealed_segment_def
      intro!: sealed_segment.equality)

lemma text_strings: "text_val (vlist VStr xs) \<Longrightarrow> list_all utf8_valid xs"
  by (simp add: vlist_def list_all_iff)

lemma decodes_signature:
  "text_val (signature_val s) \<Longrightarrow> decodes dec_signature (signature_val s) s"
  using decodes_strings [OF text_strings, of "sn_signed_fields s"]
  by (auto simp: decodes_def signature_val_def decoders dec_string_def dec_signature_def
      intro!: signature.equality)

text \<open>The manifest and the package have maps, so they are read into their zero values.\<close>

lemma dec_manifest_written:
  assumes "text_val (manifest_val m)" "mf_disclosures m = []"
  shows "dec_manifest F (syntax_of (manifest_val m)) manifest0 = Some m"
  using assms decodes_strings [OF text_strings, of "mf_segment_order m"]
    decodes_small(4) [of "mf_aad_context m"] dec_map_text(1) [OF _ decodes_small(5), of "mf_segments m" zero_segment]
  by (auto simp: decodes_def manifest_val_def decoders dec_string_def dec_manifest_def manifest0_def
      dec_list_def [of "dec_any F"] intro!: manifest.equality)

theorem package_read_back:
  assumes "package_text p"
  shows "dec_package R (syntax_of (package_val p)) package0 = Some p"
proof -
  have tv: "utf8_valid (pk_spec_version p)" "utf8_valid (pk_profile p)" "utf8_valid (pk_package_id p)"
    "text_val (issuer_val (pk_issuer p))" "text_val (intent_val (pk_intent p))" "text_val (cnf_val (pk_cnf p))"
    "text_val (bindings_val (pk_bindings p))" "text_val (manifest_val (pk_manifest p))"
    "text_val (vmap sealed_segment_val (pk_segments p))" "text_val (signature_val (pk_signature p))"
    and time: "time_valid (pk_issued_at p)" and none: "mf_disclosures (pk_manifest p) = []"
    using assms by (simp_all add: package_text_def package_val_def)
  note parts = decodes_small(1) [OF tv(4)] decodes_small(2) [OF tv(5)] decodes_bindings [OF tv(7)]
    decodes_signature [OF tv(10)] decodes_time [OF time, of "rd_time R"]
  show ?thesis
    using parts dec_cnf_written [OF tv(6)] dec_manifest_written [OF tv(8) none]
      dec_map_text(1) [OF tv(9) decodes_sealed_segment, of zero_sealed] tv(1-3)
    by (simp add: decodes_def package_val_def decoders dec_string_def dec_package_def package0_def)
qed

section \<open>The text as bytes\<close>

lemma depth_list_le: "(\<And>v. v \<in> set vs \<Longrightarrow> depth v \<le> n) \<Longrightarrow> depth_list vs \<le> n"
  by (induction vs) auto

lemma depth_members_le: "\<forall>kv \<in> set kvs. depth (snd kv) \<le> n \<Longrightarrow> depth_members kvs \<le> n"
  by (induction kvs) auto

lemma depth_vmap: "(\<And>v. depth (f v) \<le> n) \<Longrightarrow> depth (vmap f m) \<le> Suc n"
  by (auto simp: vmap_def intro!: depth_members_le)

lemma depth_vlist: "(\<And>v. depth (f v) \<le> n) \<Longrightarrow> depth (vlist f xs) \<le> Suc n"
  by (auto simp: vlist_def intro!: depth_list_le)

lemma depth_package:
  assumes "mf_disclosures (pk_manifest p) = []"
  shows "depth (package_val p) \<le> maxNestingDepth"
proof -
  have small: "depth (vlist VStr xs) \<le> 1" "depth (vmap segment_val ms) \<le> 2" "depth (cnf_val c) \<le> 2"
    "depth (bindings_val b) \<le> 1" "depth (vmap sealed_segment_val ss) \<le> 3" "depth (time_val t) = 0"
    for xs ms c b ss t
    using depth_vlist [of VStr 0 xs] depth_vmap [of segment_val 1 ms] depth_vmap [of sealed_segment_val 2 ss]
      depth_vmap [of key_confirmation_val 1] depth_vmap [of VStr 0]
    by (auto simp: segment_val_def sealed_segment_val_def epk_val_def key_confirmation_val_def cnf_val_def
        bindings_val_def time_val_def numeral_2_eq_2 numeral_3_eq_3 split: option.split sum.split)
  have "depth (manifest_val (pk_manifest p)) \<le> 3"
    using assms small(1) [of "mf_segment_order (pk_manifest p)"] small(2) [of "mf_segments (pk_manifest p)"]
    by (simp add: manifest_val_def aad_context_val_def)
  with small(1) [of "sn_signed_fields (pk_signature p)"] small(3) [of "pk_cnf p"] small(4) [of "pk_bindings p"]
    small(5) [of "pk_segments p"] small(6) [of "pk_issued_at p"]
  have "depth (package_val p) \<le> 4"
    by (simp add: package_val_def issuer_val_def intent_val_def signature_val_def)
  then show ?thesis by (simp add: maxNestingDepth_def)
qed

text \<open>
  What \<^verbatim>\<open>json.Unmarshal\<close> and a decoder over a stream, cut off at \<open>limit\<close> bytes, make of a
  written package.
\<close>

theorem package_roundtrip:
  assumes "package_text p" "marshal (package_val p) = Inr raw"
  shows "json_Unmarshal (dec_package R) package0 raw = Inr p"
    and "length raw \<le> limit \<Longrightarrow> json_Decode (dec_package R) package0 limit (raw @ rest) = Inr p"
proof -
  have "readable (package_val p)" "depth (package_val p) \<le> maxNestingDepth"
    using assms(1) text_readable(1) depth_package by (simp_all add: package_text_def)
  note w = assms(2) this package_read_back [OF assms(1), of R]
  show "json_Unmarshal (dec_package R) package0 raw = Inr p"
    by (rule Unmarshal_written [where d = "dec_package R", OF w])
  show "length raw \<le> limit \<Longrightarrow> json_Decode (dec_package R) package0 limit (raw @ rest) = Inr p"
    by (rule Decode_written [where d = "dec_package R", OF w]) (simp_all add: package_val_def)
qed

end
