(* ===== verification/Seal_Live.thy ===== *)
theory Seal_Live
  imports Lifecycle Key_Wrap Package_Wire
begin

text \<open>
  When \<open>Seal\<close> succeeds: an authorized, well-formed request, enough entropy, keys that can
  be agreed with and a signer that answers always give a package. This is the liveness side
  of the fail-closed lemmas of \<open>Seal\<close>.
\<close>

section \<open>When canonicalization succeeds\<close>

text \<open>
  The values sealing canonicalizes hold only text (\<open>text_val\<close>). \<^verbatim>\<open>jcs.Transform\<close> succeeds on
  the JSON of such a value.
\<close>

definition jcs_total :: "prims \<Rightarrow> bool" where
  "jcs_total P \<longleftrightarrow> (\<forall>v. text_val v \<longrightarrow> (\<exists>c. jcs_transform P (bytes_of (render v)) = Inr c))"

lemma JCS_total: "jcs_total P \<Longrightarrow> text_val v \<Longrightarrow> \<exists>c. JCS P v = Inr c"
  by (auto simp: JCS_def jcs_total_def marshal_wf text_wf split: sum.split)

lemma demo_jcs_total: "jcs_total demo_prims"
  by (simp add: jcs_total_def demo_prims_def)

lemma text_vmap:
  "(\<And>k v. fmlookup m k = Some v \<Longrightarrow> utf8_valid k \<and> text_val (f v)) \<Longrightarrow> text_val (vmap f m)"
proof -
  assume val: "\<And>k v. fmlookup m k = Some v \<Longrightarrow> utf8_valid k \<and> text_val (f v)"
  have "utf8_valid k \<and> text_val (f v)" if "(k, v) \<in> set (entries m)" for k v
    using that val entries_mem [of k v m] by blast
  then show ?thesis
    by (auto simp: vmap_def list_all_iff comp_def case_prod_beta)
qed

lemma text_vlist: "(\<And>x. x \<in> set xs \<Longrightarrow> text_val (f x)) \<Longrightarrow> text_val (vlist f xs)"
  by (auto simp: vlist_def list_all_iff)

lemma ascii_std_encode: "ascii (std_encode b)"
proof -
  have "ascii std_alphabet" by (simp add: std_alphabet_def)
  then have "ascii (b64_encode std_alphabet [] b)"
    using ascii_subset [of "b64_encode std_alphabet [] b" std_alphabet]
      b64_encode_chars [of std_alphabet _ b] alphabet_facts by blast
  then show ?thesis by (simp add: std_encode_def b64_encode_pad pad_of_def)
qed

lemma text_vbytes: "text_val (vbytes g)"
  by (cases g) (simp_all add: vbytes_def ascii_utf8 ascii_std_encode)

section \<open>One segment\<close>

definition ctx_text :: "aad_context \<Rightarrow> bool" where
  "ctx_text c \<longleftrightarrow> utf8_valid (ac_package_id c) \<and> utf8_valid (ac_tenant_id c) \<and> utf8_valid (ac_environment c)"

text \<open>A recipient key of the right length that every ephemeral key can agree with.\<close>

definition agreeable :: "prims \<Rightarrow> bytes \<Rightarrow> bool" where
  "agreeable P pub \<longleftrightarrow> length pub = 32 \<and> (\<forall>e. length e = 32 \<longrightarrow> x25519_ecdh P e pub \<noteq> None)"

definition sealing_laws :: "prims \<Rightarrow> bool" where
  "sealing_laws P \<longleftrightarrow> jcs_total P \<and> gcm_ok P \<and> sha256_ok P"

lemma rand_read_enough:
  assumes "n \<le> length (entropy s)"
  obtains b s' where "rand_read n s = (Inr b, s')" "length b = n"
    "length (entropy s') = length (entropy s) - n"
  using assms by (simp add: rand_read_def)

lemma Wrap_live:
  assumes "sha256_ok P" "agreeable P pub" "length dek = 32" "32 \<le> length (entropy s)"
  obtains wrapped epk s' where "Wrap P pub dek s = (Inr (wrapped, epk), s')"
    "length (entropy s') = length (entropy s) - 32"
proof -
  from assms(4) obtain e s' where e: "rand_read 32 s = (Inr e, s')" "length e = 32"
    "length (entropy s') = length (entropy s) - 32" by (rule rand_read_enough)
  from assms(2) e(2) obtain shared where sh: "x25519_ecdh P e pub = Some shared" "length pub = 32"
    by (auto simp: agreeable_def)
  have "length (derive_kek P shared) = 32"
    by (simp add: derive_kek_def length_concatKDF [OF assms(1)] kekLenBits_def)
  moreover from this obtain wrapped where "aesKeyWrap P (derive_kek P shared) dek = Inr wrapped"
    using assms(3) aesKeyWrap_Inr [of P "derive_kek P shared" dek] by force
  ultimately show thesis
    using e sh by (intro that) (simp_all add: Wrap_def ecdh_NewPublicKey_def ecdh_ECDH_def)
qed

lemma sealSegment_live:
  assumes "sealing_laws P" "ctx_text aadCtx" "utf8_valid (au_Name aud)" "agreeable P (au_PublicKey aud)"
    and "76 \<le> length (entropy s)"
  obtains x s' where "sealSegment P (Wrapper P) aadCtx aud g s = (Inr x, s')"
    "length (entropy s') = length (entropy s) - 76"
proof -
  have laws: "jcs_total P" "gcm_ok P" "sha256_ok P" using assms(1) by (simp_all add: sealing_laws_def)
  from assms(5) have "dekSize \<le> length (entropy s)" by (simp add: dekSize_def)
  then obtain dek s1 where dek: "rand_read dekSize s = (Inr dek, s1)" "length dek = dekSize"
    "length (entropy s1) = length (entropy s) - dekSize" by (rule rand_read_enough)
  then have "NewDEK s = (Inr dek, s1)" "length dek = 32" by (simp_all add: NewDEK_def dekSize_def)
  have "text_val (aad_input_val aadCtx (au_Name aud) SupportedSpecVersion)"
    using assms(2,3) by (simp add: aad_input_val_def ctx_text_def SupportedSpecVersion_def)
  from JCS_total [OF laws(1) this] obtain aad where aad: "AAD P aadCtx (au_Name aud) SupportedSpecVersion = Inr aad"
    by (auto simp: AAD_def)
  have "nonceSize \<le> length (entropy s1)" using dek(3) assms(5) by (simp add: nonceSize_def dekSize_def)
  then obtain nonce s2 where nonce: "rand_read nonceSize s1 = (Inr nonce, s2)" "length nonce = nonceSize"
    "length (entropy s2) = length (entropy s1) - nonceSize" by (rule rand_read_enough)
  let ?c = "gcm_seal P dek nonce (raw_bytes g) aad"
  have enc: "Encrypt P dek (raw_bytes g) aad s1 = (Inr (?c, nonce), emit (EvEncrypt dek nonce aad) s2)"
    using nonce(1) \<open>length dek = 32\<close> by (simp add: Encrypt_def newGCM_cases)
  have "length ?c = length (raw_bytes g) + 16"
    using laws(2) \<open>length dek = 32\<close> nonce(2) by (simp add: gcm_ok_def nonceSize_def)
  then have len: "\<not> length ?c < gcmTagSize" by (simp add: gcmTagSize_def)
  from JCS_total [OF laws(1) text_vbytes] obtain canon where canon: "JCS P (vbytes g) = Inr canon" by blast
  have "32 \<le> length (entropy (emit (EvEncrypt dek nonce aad) s2))"
    using dek(3) nonce(3) assms(5) by (simp add: nonceSize_def dekSize_def)
  with laws(3) assms(4) \<open>length dek = 32\<close> obtain wrapped epk s3 where
    wrap: "Wrap P (au_PublicKey aud) dek (emit (EvEncrypt dek nonce aad) s2) = (Inr (wrapped, epk), s3)"
    "length (entropy s3) = length (entropy (emit (EvEncrypt dek nonce aad) s2)) - 32"
    by (rule Wrap_live)
  let ?s4 = "emit (EvZero dek) (emit (EvWrap (au_PublicKey aud) dek) s3)"
  have "\<exists>x. sealSegment P (Wrapper P) aadCtx aud g s = (Inr x, ?s4)"
    using \<open>NewDEK s = (Inr dek, s1)\<close> aad enc len canon wrap(1)
    by (simp add: sealSegment_def seal_segment_with_def Wrapper_def Let_def)
  moreover have "length (entropy ?s4) = length (entropy s) - 76"
    using wrap(2) dek(3) nonce(3) by (simp add: nonceSize_def dekSize_def)
  ultimately show thesis using that by blast
qed

lemma seal_loop_live:
  assumes "sealing_laws P" "ctx_text aadCtx"
    and "\<forall>aud \<in> set auds. utf8_valid (au_Name aud) \<and> agreeable P (au_PublicKey aud)"
    and "76 * length auds \<le> length (entropy s)"
  shows "\<exists>acc' s'. seal_loop P (Wrapper P) aadCtx segs auds acc s = (Inr acc', s')"
  using assms(3,4)
proof (induction auds arbitrary: acc s)
  case (Cons aud auds)
  from Cons.prems have aud: "utf8_valid (au_Name aud)" "agreeable P (au_PublicKey aud)" "76 \<le> length (entropy s)"
    by simp_all
  obtain x s1 where x: "sealSegment P (Wrapper P) aadCtx aud (segment_plaintext segs (au_Name aud)) s = (Inr x, s1)"
    "length (entropy s1) = length (entropy s) - 76"
    by (rule sealSegment_live [OF assms(1,2) aud])
  obtain jkt where jkt: "kw_Thumbprint (Wrapper P) (au_PublicKey aud) = Inr jkt"
    using aud(2) by (simp add: Wrapper_def Thumbprint_def ecdh_NewPublicKey_def agreeable_def)
  obtain seg sealed ph where "x = (seg, sealed, ph)" by (cases x)
  with x jkt Cons.IH [of "emit (EvThumbprint (au_PublicKey aud)) s1"] Cons.prems show ?case by simp
qed simp

section \<open>The whole request\<close>

text \<open>
  A request \<open>Seal\<close> can carry out: its audiences are the names of its order, each once and
  with a plaintext, all its text is valid, its time can be written, and its bindings compute.
\<close>

definition time_ok :: "gotime \<Rightarrow> bool" where
  "time_ok t \<longleftrightarrow> 0 \<le> tm_year t \<and> tm_year t \<le> 9999 \<and> \<bar>tm_offset t\<bar> < 24 * 3600"

definition request_text :: "seal_request \<Rightarrow> bool" where
  "request_text req \<longleftrightarrow>
     list_all utf8_valid [sr_IntentRef req, sr_Authority req, sr_Issuer req, sr_TenantID req,
       sr_Environment req, sr_Profile req] \<and>
     (\<forall>aud \<in> set (sr_Audiences req). utf8_valid (au_Name aud) \<and> utf8_valid (au_Kid aud))"

definition sealable :: "prims \<Rightarrow> seal_request \<Rightarrow> bool" where
  "sealable P req \<longleftrightarrow>
     sr_Audiences req \<noteq> [] \<and> distinct (map au_Name (sr_Audiences req)) \<and>
     distinct (sr_SegmentOrder req) \<and> set (sr_SegmentOrder req) = au_Name ` set (sr_Audiences req) \<and>
     (\<forall>aud \<in> set (sr_Audiences req). fmlookup (sr_Segments req) (au_Name aud) \<noteq> None \<and>
        agreeable P (au_PublicKey aud)) \<and>
     request_text req \<and> time_ok (sr_IssuedAt req)"

text \<open>
  A binding spec computes valid text, and not a core name, over every context whose hashes
  are those of the request's audiences.
\<close>

definition computes :: "seal_request \<Rightarrow> binding_spec \<Rightarrow> bool" where
  "computes req spec \<longleftrightarrow>
     utf8_valid (bs_name spec) \<and> bs_name spec \<noteq> bindingsFieldSegmentsRoot \<and>
     bs_name spec \<noteq> bindingsFieldIntentCommitment \<and>
     (\<forall>ctx. fset (fmdom (bc_plain_hash ctx)) = au_Name ` set (sr_Audiences req) \<longrightarrow>
        (\<forall>h \<in> fmran' (bc_plain_hash ctx). utf8_valid h) \<longrightarrow>
        list_all utf8_valid [bc_intent_ref ctx, bc_constraints_hash ctx, bc_segments_root ctx] \<longrightarrow>
        (\<exists>v. bs_compute spec ctx = Inr v \<and> utf8_valid v))"

definition answers :: "signer \<Rightarrow> bool" where
  "answers si \<longleftrightarrow> (\<exists>kid. signer_Kid si = Inr kid \<and> utf8_valid kid) \<and> (\<forall>m. \<exists>sig. signer_Sign si m = Inr sig)"

lemma compute_loop_text:
  "compute_loop ctx specs out = Inr m \<Longrightarrow>
   (\<forall>s \<in> set specs. \<forall>v. bs_compute s ctx = Inr v \<longrightarrow> utf8_valid (bs_name s) \<and> utf8_valid v) \<Longrightarrow>
   (\<forall>k v. fmlookup out k = Some v \<longrightarrow> utf8_valid k \<and> utf8_valid v) \<Longrightarrow>
   fmlookup m k = Some v \<Longrightarrow> utf8_valid k \<and> utf8_valid v"
  by (induction specs arbitrary: out) (fastforce split: sum.splits if_splits)+

lemma loop_done_text:
  assumes "loop_done P w aadCtx req acc" "fmlookup (sa_plainHash acc) n = Some h"
  shows "utf8_valid h"
proof -
  have "n \<in> fset (fmdom (sa_plainHash acc))" using assms(2) by (simp add: fmdom_iff)
  with assms(1) obtain aud where aud: "aud \<in> set (sr_Audiences req)" "n = au_Name aud"
    by (auto simp: loop_done_def same_keys_def)
  with assms(1) have "audience_sealed P w aadCtx (sr_Segments req) acc aud" by (simp add: loop_done_def)
  with assms(2) aud(2) show ?thesis by (auto simp: audience_sealed_def segment_sealed_def)
qed

text \<open>The thumbprints and hashes of the finished maps are plain text, so the view is.\<close>

lemma utf8_Thumbprint: "Thumbprint P pub = Inr t \<Longrightarrow> utf8_valid t"
proof -
  have "ascii (raw_url_encode b)" for b
    using raw_url_plain [of b] by (auto simp: ascii_def plain_char_def list_all_iff)
  then show "Thumbprint P pub = Inr t \<Longrightarrow> utf8_valid t"
    by (auto simp: Thumbprint_def thumbprintOf_def ascii_utf8 split: sum.splits)
qed

lemma loop_done_segments_text:
  assumes "loop_done P (Wrapper P) aadCtx req acc" "request_text req"
  shows "fmlookup (sa_manifestSegments acc) n = Some seg \<Longrightarrow> utf8_valid n \<and> text_val (segment_val seg)"
    and "fmlookup (sa_cnf acc) n = Some k \<Longrightarrow> utf8_valid n \<and> text_val (key_confirmation_val k)"
proof -
  have aud: "\<exists>aud \<in> set (sr_Audiences req). n = au_Name aud \<and> utf8_valid n \<and> utf8_valid (au_Kid aud) \<and>
      audience_sealed P (Wrapper P) aadCtx (sr_Segments req) acc aud"
    if "n \<in> fset (fmdom (sa_manifestSegments acc)) \<or> n \<in> fset (fmdom (sa_cnf acc))"
  proof -
    from that assms(1) obtain aud where "aud \<in> set (sr_Audiences req)" "n = au_Name aud"
      by (auto simp: loop_done_def same_keys_def)
    with assms show ?thesis by (auto simp: loop_done_def request_text_def)
  qed
  {
    assume seg: "fmlookup (sa_manifestSegments acc) n = Some seg"
    then have "n \<in> fset (fmdom (sa_manifestSegments acc))" by (simp add: fmdom_iff)
    with aud obtain aud where "n = au_Name aud" "utf8_valid n" "utf8_valid (au_Kid aud)"
      "audience_sealed P (Wrapper P) aadCtx (sr_Segments req) acc aud" by blast
    with seg show "utf8_valid n \<and> text_val (segment_val seg)"
      by (auto simp: audience_sealed_def segment_sealed_def segment_val_def segmentAlg_def segmentWrapAlg_def)
  }
  {
    assume k: "fmlookup (sa_cnf acc) n = Some k"
    then have "n \<in> fset (fmdom (sa_cnf acc))" by (simp add: fmdom_iff)
    with aud obtain aud where "n = au_Name aud" "utf8_valid n" "utf8_valid (au_Kid aud)"
      "audience_sealed P (Wrapper P) aadCtx (sr_Segments req) acc aud" by blast
    with k show "utf8_valid n \<and> text_val (key_confirmation_val k)"
      by (auto simp: audience_sealed_def key_confirmation_val_def Wrapper_def dest!: utf8_Thumbprint)
  }
qed

lemma ascii_time_val: "time_ok t \<Longrightarrow> text_val (time_val t)"
  by (auto simp: time_ok_def time_val_def ascii_utf8)

lemma utf8_IntentCommitment: "IntentCommitment P r c s = Inr x \<Longrightarrow> utf8_valid x"
  by (auto simp: IntentCommitment_def intro!: ascii_utf8 split: sum.splits)

lemma utf8_SegmentsRoot: "SegmentsRoot P order ph = Inr r \<Longrightarrow> utf8_valid r"
  by (auto simp: SegmentsRoot_Inr)

definition extra_text :: "(string, string) fmap \<Rightarrow> bool" where
  "extra_text extra \<longleftrightarrow>
     fmlookup extra bindingsFieldSegmentsRoot = None \<and> fmlookup extra bindingsFieldIntentCommitment = None \<and>
     (\<forall>k v. fmlookup extra k = Some v \<longrightarrow> utf8_valid k \<and> utf8_valid v)"

lemma bindings_text:
  assumes "extra_text extra" "utf8_valid root" "utf8_valid commitment"
  shows "text_val (bindings_val \<lparr> bd_segments_root = root, bd_intent_commitment = commitment, bd_extra = extra \<rparr>)"
proof -
  let ?b = "\<lparr> bd_segments_root = root, bd_intent_commitment = commitment, bd_extra = extra \<rparr>"
  let ?m = "fmupd bindingsFieldIntentCommitment commitment (fmupd bindingsFieldSegmentsRoot root extra)"
  have "bindings_MarshalJSON ?b = Inr ?m"
    using assms(1) by (simp add: bindings_MarshalJSON_ok no_collision_def extra_text_def)
  moreover have "utf8_valid bindingsFieldSegmentsRoot" "utf8_valid bindingsFieldIntentCommitment"
    by (simp_all add: bindingsFieldSegmentsRoot_def bindingsFieldIntentCommitment_def)
  then have "text_val (vmap VStr ?m)"
    using assms by (intro text_vmap) (auto simp: extra_text_def split: if_splits)
  ultimately show ?thesis by (simp add: bindings_val_def)
qed

text \<open>The nine signed parts of a package hold only text.\<close>

definition view_parts_text :: "package \<Rightarrow> bool" where
  "view_parts_text p \<longleftrightarrow>
     utf8_valid (pk_spec_version p) \<and> utf8_valid (pk_profile p) \<and> utf8_valid (pk_package_id p) \<and>
     text_val (time_val (pk_issued_at p)) \<and> text_val (issuer_val (pk_issuer p)) \<and>
     text_val (intent_val (pk_intent p)) \<and> text_val (cnf_val (pk_cnf p)) \<and>
     text_val (bindings_val (pk_bindings p)) \<and> text_val (manifest_val (pk_manifest p))"

lemma view_text:
  assumes "view_parts_text p"
  shows "text_val (view_val p)"
  unfolding view_val_def
proof (rule text_vmap)
  fix n v assume "fmlookup (selectFields (signingViewFields p) RequiredSignedFields) n = Some v"
  then have v: "n \<in> set RequiredSignedFields"
    "v = (case fmlookup (signingViewFields p) n of None \<Rightarrow> VNull | Some v \<Rightarrow> v)"
    by (simp_all add: selectFields_lookup split: if_splits)
  from v(1) show "utf8_valid n \<and> text_val v"
    unfolding v(2) RequiredSignedFields_def set_simps insert_iff empty_iff
    by (elim disjE FalseE) (simp_all add: assms [unfolded view_parts_text_def])
qed

lemma unsigned_parts:
  assumes "loop_done P (Wrapper P) aadCtx req acc" "request_text req" "time_ok (sr_IssuedAt req)"
    and "ctx_text aadCtx" "extra_text extra" "utf8_valid kid" "utf8_valid ch" "utf8_valid pid"
    and "utf8_valid root" "utf8_valid commitment" "\<forall>a \<in> set (sr_SegmentOrder req). utf8_valid a"
  shows "view_parts_text ((unsigned_package req pid aadCtx ch acc root commitment extra)
           \<lparr>pk_issuer := \<lparr> iss_iss = sr_Issuer req, iss_kid = kid \<rparr>\<rparr>)"
proof -
  let ?p = "(unsigned_package req pid aadCtx ch acc root commitment extra)
           \<lparr>pk_issuer := \<lparr> iss_iss = sr_Issuer req, iss_kid = kid \<rparr>\<rparr>"
  have flds: "pk_spec_version ?p = ''1.0.0''" "pk_profile ?p = sr_Profile req" "pk_package_id ?p = pid"
    "pk_issued_at ?p = sr_IssuedAt req" "pk_issuer ?p = \<lparr> iss_iss = sr_Issuer req, iss_kid = kid \<rparr>"
    "pk_intent ?p = \<lparr> in_intent_ref = sr_IntentRef req, in_authority = sr_Authority req, in_constraints_hash = ch \<rparr>"
    "pk_cnf ?p = Some (sa_cnf acc)"
    "pk_bindings ?p = \<lparr> bd_segments_root = root, bd_intent_commitment = commitment, bd_extra = extra \<rparr>"
    "pk_manifest ?p = \<lparr> mf_schema = manifestSchema, mf_hash_alg = manifestHashAlg,
                       mf_canonicalization = manifestCanonicalization,
                       mf_segment_order = sr_SegmentOrder req, mf_aad_context = aadCtx,
                       mf_segments = sa_manifestSegments acc, mf_disclosures = [] \<rparr>"
    by (simp_all add: unsigned_package_def SupportedSpecVersion_def)
  have cnf: "text_val (cnf_val (Some (sa_cnf acc)))"
    unfolding cnf_val_def option.case using loop_done_segments_text(2) [OF assms(1,2)] by (rule text_vmap)
  have segs: "text_val (vmap segment_val (sa_manifestSegments acc))"
    using loop_done_segments_text(1) [OF assms(1,2)] by (rule text_vmap)
  have order: "text_val (vlist VStr (sr_SegmentOrder req))"
    using assms(11) by (intro text_vlist) simp
  have manifest: "text_val (manifest_val (pk_manifest ?p))"
    unfolding flds using segs order assms(4)
    by (simp add: manifest_val_def aad_context_val_def ctx_text_def manifestSchema_def manifestHashAlg_def
        manifestCanonicalization_def)
  show ?thesis
    unfolding view_parts_text_def
    by (intro conjI; unfold flds)
      (use assms(2,6-8) bindings_text [OF assms(5,9,10)] ascii_time_val [OF assms(3)] cnf manifest in
        \<open>simp_all add: flds(9) request_text_def issuer_val_def intent_val_def\<close>)
qed

lemma view_live:
  assumes "jcs_total P" "loop_done P (Wrapper P) aadCtx req acc" "request_text req" "time_ok (sr_IssuedAt req)"
    and "ctx_text aadCtx" "extra_text extra" "utf8_valid kid" "utf8_valid ch" "utf8_valid pid"
    and "utf8_valid root" "utf8_valid commitment" "\<forall>a \<in> set (sr_SegmentOrder req). utf8_valid a"
  shows "\<exists>view. BuildSigningView P ((unsigned_package req pid aadCtx ch acc root commitment extra)
           \<lparr>pk_issuer := \<lparr> iss_iss = sr_Issuer req, iss_kid = kid \<rparr>\<rparr>) = Inr view"
  using JCS_total [OF assms(1) view_text [OF unsigned_parts [OF assms(2-12)]]]
  by (simp add: BuildSigningView_Inr)

text \<open>What the authority must answer: it allows the request and gives a hash that is text.\<close>

definition authorizes :: "intent_verifier \<Rightarrow> seal_request \<Rightarrow> bool" where
  "authorizes iv req \<longleftrightarrow>
     (\<exists>d ch. iv_Check iv (sr_IntentRef req) (sr_Projection req) = Inr d \<and> id_Allowed d \<and>
        iv_ConstraintsHash iv (sr_IntentRef req) = Inr ch \<and> utf8_valid ch)"

definition entropy_needed :: "seal_request \<Rightarrow> nat" where
  "entropy_needed req = 16 + 76 * length (sr_Audiences req)"

lemma root_text:
  assumes "set order = fset (fmdom ph)" "\<And>k v. fmlookup ph k = Some v \<Longrightarrow> utf8_valid k \<and> utf8_valid v"
  shows "text_val (root_val order ph)"
  unfolding root_val_def
proof (rule text_vlist)
  fix e assume "e \<in> set (map (\<lambda>a. (a, lookup_or_empty ph a)) order)"
  then obtain a where a: "a \<in> fset (fmdom ph)" "e = (a, lookup_or_empty ph a)" using assms(1) by auto
  then obtain h where "fmlookup ph a = Some h" by (auto simp: fmdom_iff)
  with assms(2) [OF this] a(2) show "text_val (segment_root_entry_val e)"
    by (simp add: segment_root_entry_val_def lookup_or_empty_def)
qed

lemma bindings_live:
  assumes "\<forall>spec \<in> set specs. computes req spec" "fset (fmdom (bc_plain_hash ctx)) = au_Name ` set (sr_Audiences req)"
    and "\<forall>h \<in> fmran' (bc_plain_hash ctx). utf8_valid h"
    and "list_all utf8_valid [bc_intent_ref ctx, bc_constraints_hash ctx, bc_segments_root ctx]"
  shows "\<exists>extra. ComputeBindings ctx specs = Inr extra \<and> extra_text extra"
proof -
  have ok: "\<exists>v. bs_compute spec ctx = Inr v \<and> utf8_valid v" if "spec \<in> set specs" for spec
    using that assms unfolding computes_def by blast
  then obtain extra where extra: "ComputeBindings ctx specs = Inr extra"
    using compute_loop_ok [of ctx specs fmempty] unfolding ComputeBindings_loop by blast
  have "utf8_valid k \<and> utf8_valid v" if "fmlookup extra k = Some v" for k v
  proof (rule compute_loop_text)
    show "compute_loop ctx specs fmempty = Inr extra" using extra by (simp add: ComputeBindings_loop)
    show "\<forall>s \<in> set specs. \<forall>v. bs_compute s ctx = Inr v \<longrightarrow> utf8_valid (bs_name s) \<and> utf8_valid v"
    proof (intro ballI allI impI conjI)
      fix spec v assume sp: "spec \<in> set specs" "bs_compute spec ctx = Inr v"
      from sp(1) assms(1) show "utf8_valid (bs_name spec)" by (simp add: computes_def)
      from ok [OF sp(1)] sp(2) show "utf8_valid v" by auto
    qed
  qed (use that in simp_all)
  moreover have "fmlookup extra bindingsFieldSegmentsRoot = None" "fmlookup extra bindingsFieldIntentCommitment = None"
    using assms(1) by (auto simp: computes_def intro!: ComputeBindings_other [OF extra])
  ultimately show ?thesis using extra by (auto simp: extra_text_def)
qed

lemma Seal_live:
  assumes laws: "sealing_laws P" and req: "sealable P req" "\<forall>spec \<in> set (sr_BindingSpecs req). computes req spec"
    and ports: "answers si" "authorizes iv req" and ent: "entropy_needed req \<le> length (entropy s)"
  shows "\<exists>p s'. Seal P req si (Wrapper P) iv s = (Inr p, s')"
proof -
  have jcs: "jcs_total P" using laws by (simp add: sealing_laws_def)
  from req(1) have utf: "request_text req" and time: "time_ok (sr_IssuedAt req)"
    and order: "distinct (sr_SegmentOrder req)" "set (sr_SegmentOrder req) = au_Name ` set (sr_Audiences req)"
    and auds: "sr_Audiences req \<noteq> []" "checkAudiences req = Inr ()"
    by (auto simp: sealable_def checkAudiences_Inr)
  from utf have names: "\<forall>aud \<in> set (sr_Audiences req). utf8_valid (au_Name aud)"
    and ref: "utf8_valid (sr_IntentRef req)" by (simp_all add: request_text_def)
  from ports(2) obtain d ch where iv: "iv_Check iv (sr_IntentRef req) (sr_Projection req) = Inr d"
    "id_Allowed d" "iv_ConstraintsHash iv (sr_IntentRef req) = Inr ch" "utf8_valid ch"
    by (auto simp: authorizes_def)
  let ?s1 = "emit (EvConstraintsHash (sr_IntentRef req)) (emit (EvCheck (sr_IntentRef req)) s)"
  have "packageIDBytes \<le> length (entropy ?s1)" using ent by (simp add: packageIDBytes_def entropy_needed_def)
  then obtain b s2 where b: "rand_read packageIDBytes ?s1 = (Inr b, s2)"
    "length (entropy s2) = length (entropy ?s1) - packageIDBytes" by (rule rand_read_enough)
  let ?pid = "''pkg_'' @ hex_encode b"
  let ?ctx = "\<lparr> ac_package_id = ?pid, ac_tenant_id = sr_TenantID req, ac_environment = sr_Environment req \<rparr>"
  have pid: "newPackageID ?s1 = (Inr ?pid, s2)" using b(1) by (simp add: newPackageID_def)
  have pid_text: "utf8_valid ?pid" by (rule ascii_utf8) simp
  then have ctx: "ctx_text ?ctx" using utf by (simp add: ctx_text_def request_text_def)
  have "76 * length (sr_Audiences req) \<le> length (entropy s2)"
    using ent b(2) by (simp add: packageIDBytes_def entropy_needed_def)
  then obtain acc s3 where loop: "seal_loop P (Wrapper P) ?ctx (sr_Segments req) (sr_Audiences req) seal_acc0 s2 = (Inr acc, s3)"
    using seal_loop_live [OF laws ctx, of "sr_Audiences req" s2 "sr_Segments req" seal_acc0] req(1) names
    by (auto simp: sealable_def)
  have ld: "loop_done P (Wrapper P) ?ctx req acc"
    unfolding loop_done_def
    using seal_loop_keys [OF loop same_keys0] seal_loop_audiences [OF loop] auds(2)
    by (simp add: checkAudiences_Inr)
  then have keys: "fset (fmdom (sa_plainHash acc)) = au_Name ` set (sr_Audiences req)"
    by (simp add: loop_done_def same_keys_def)
  have hashes: "utf8_valid k \<and> utf8_valid v" if "fmlookup (sa_plainHash acc) k = Some v" for k v
  proof -
    have "k \<in> fset (fmdom (sa_plainHash acc))" using that by (simp add: fmdom_iff)
    then have "utf8_valid k" using keys names by auto
    with loop_done_text [OF ld that] show ?thesis by simp
  qed
  have "text_val (root_val (sr_SegmentOrder req) (sa_plainHash acc))"
    by (rule root_text) (use keys order(2) hashes in simp_all)
  from JCS_total [OF jcs this] obtain root where root: "SegmentsRoot P (sr_SegmentOrder req) (sa_plainHash acc) = Inr root"
    using order keys by (auto simp: SegmentsRoot_Inr)
  note root_u = utf8_SegmentsRoot [OF root]
  have "text_val (intent_commitment_val (sr_IntentRef req) ch root)"
    using ref iv(4) root_u by (simp add: intent_commitment_val_def)
  from JCS_total [OF jcs this] obtain commitment where
    commitment: "IntentCommitment P (sr_IntentRef req) ch root = Inr commitment"
    by (auto simp: IntentCommitment_def)
  let ?bctx = "\<lparr> bc_plain_hash = sa_plainHash acc, bc_intent_ref = sr_IntentRef req,
    bc_constraints_hash = ch, bc_segments_root = root \<rparr>"
  have "\<forall>h \<in> fmran' (sa_plainHash acc). utf8_valid h"
    using hashes by (auto elim!: fmran'E)
  then obtain extra where extra: "ComputeBindings ?bctx (sr_BindingSpecs req) = Inr extra" "extra_text extra"
    using bindings_live [OF req(2), of ?bctx] keys ref iv(4) root_u by auto
  from ports(1) obtain kid where kid: "signer_Kid si = Inr kid" "utf8_valid kid" by (auto simp: answers_def)
  let ?u = "unsigned_package req ?pid ?ctx ch acc root commitment extra"
  have "\<forall>a \<in> set (sr_SegmentOrder req). utf8_valid a" using order(2) names by auto
  from view_live [OF jcs ld utf time ctx extra(2) kid(2) iv(4) pid_text root_u utf8_IntentCommitment [OF commitment] this]
  obtain view where view: "BuildSigningView P (?u\<lparr>pk_issuer := \<lparr> iss_iss = sr_Issuer req, iss_kid = kid \<rparr>\<rparr>) = Inr view"
    by blast
  from ports(1) obtain sig where sig: "signer_Sign si view = Inr sig" by (auto simp: answers_def)
  have iss: "(pk_issuer ?u)\<lparr>iss_kid := kid\<rparr> = \<lparr> iss_iss = sr_Issuer req, iss_kid = kid \<rparr>"
    by (simp add: unsigned_package_def)
  have "\<exists>p s'. signPackage P si ?u s3 = (Inr p, s')"
    unfolding signPackage_def Let_def kid(1) sum.case iss view sig by simp
  then obtain p s' where sign: "signPackage P si ?u s3 = (Inr p, s')" by blast
  have "seal_authorized P req si (Wrapper P) ch ?s1 = (Inr p, s')"
    unfolding seal_authorized_def Let_def pid prod.case sum.case loop root commitment extra(1) sign ..
  then show ?thesis
    using auds iv(1-3) by (auto simp: Seal_def Let_def)
qed

end
