(* ===== verification/Checkout_Profile.thy ===== *)
theory Checkout_Profile
  imports Seal
begin

text \<open>
  \<^verbatim>\<open>pkg/chainbind/profile/agenticcheckout/profile.go\<close>: the agentic-checkout profile. Its
  payload splits into one segment per audience, a projection of three fields goes to the
  authority, and three bindings are computed from the core's hashes.
\<close>

section \<open>The payload\<close>

definition Name :: string where
  "Name = ''agentic-checkout/v1''"

definition AudienceUser :: string where
  "AudienceUser = ''user''"

definition AudienceMerchant :: string where
  "AudienceMerchant = ''merchant''"

definition AudienceGateway :: string where
  "AudienceGateway = ''gateway''"

record request_context =
  rc_TenantID :: string
  rc_Environment :: string
  rc_RequestID :: string
  rc_CorrelationID :: string
  rc_IssuedBy :: string

record checkout_intent =
  ci_IntentRef :: string
  ci_Authority :: string

record subject =
  sb_UserID :: string
  sb_AccountID :: string
  sb_Name :: string
  sb_Email :: string
  sb_Roles :: "string list option"
  sb_Permissions :: "string list option"
  sb_AccountStatus :: string

record item =
  it_SKU :: string
  it_Name :: string
  it_Quantity :: "64 word"
  it_UnitPrice :: "64 word"

record checkout =
  co_CheckoutID :: string
  co_MerchantID :: string
  co_MerchantName :: string
  co_Currency :: string
  co_Items :: "item list option"
  co_Subtotal :: "64 word"
  co_Shipping :: "64 word"
  co_Discount :: "64 word"
  co_Total :: "64 word"

record payment =
  py_PaymentID :: string
  py_PaymentMethod :: string
  py_BankAccountMasked :: string
  py_BankCode :: string
  py_PaymentReference :: string
  py_TransactionStatus :: string
  py_Amount :: "64 word"

record payload =
  pl_RequestContext :: request_context
  pl_Intent :: checkout_intent
  pl_Subject :: subject
  pl_Checkout :: checkout
  pl_Payment :: payment

record projection =
  pj_Amount :: "64 word"
  pj_Currency :: string
  pj_MerchantID :: string

text \<open>What an \<^verbatim>\<open>any\<close> may hold, as far as the profile can tell.\<close>

datatype any_payload = PayloadValue payload | PayloadPointer "payload option" | OtherValue

section \<open>JSON of the sections\<close>

text \<open>An \<^verbatim>\<open>int64\<close> in decimal, and a slice that is null when nil.\<close>

definition int64_text :: "64 word \<Rightarrow> string" where
  "int64_text n = (if sint n < 0 then ''-'' @ dec_nat (nat (- sint n)) else dec_nat (nat (sint n)))"

definition vint :: "64 word \<Rightarrow> goval" where
  "vint n = VNum (int64_text n)"

definition vslice :: "('a \<Rightarrow> goval) \<Rightarrow> 'a list option \<Rightarrow> goval" where
  "vslice f xs = (case xs of None \<Rightarrow> VNull | Some ys \<Rightarrow> vlist f ys)"

definition subject_val :: "subject \<Rightarrow> goval" where
  "subject_val s = VObj [(''user_id'', VStr (sb_UserID s)), (''account_id'', VStr (sb_AccountID s)),
     (''name'', VStr (sb_Name s)), (''email'', VStr (sb_Email s)),
     (''roles'', vslice VStr (sb_Roles s)), (''permissions'', vslice VStr (sb_Permissions s)),
     (''account_status'', VStr (sb_AccountStatus s))]"

definition item_val :: "item \<Rightarrow> goval" where
  "item_val i = VObj [(''sku'', VStr (it_SKU i)), (''name'', VStr (it_Name i)),
     (''quantity'', vint (it_Quantity i)), (''unit_price'', vint (it_UnitPrice i))]"

definition checkout_val :: "checkout \<Rightarrow> goval" where
  "checkout_val c = VObj [(''checkout_id'', VStr (co_CheckoutID c)),
     (''merchant_id'', VStr (co_MerchantID c)), (''merchant_name'', VStr (co_MerchantName c)),
     (''currency'', VStr (co_Currency c)), (''items'', vslice item_val (co_Items c)),
     (''subtotal'', vint (co_Subtotal c)), (''shipping'', vint (co_Shipping c)),
     (''discount'', vint (co_Discount c)), (''total'', vint (co_Total c))]"

definition payment_val :: "payment \<Rightarrow> goval" where
  "payment_val p = VObj [(''payment_id'', VStr (py_PaymentID p)),
     (''payment_method'', VStr (py_PaymentMethod p)),
     (''bank_account_masked'', VStr (py_BankAccountMasked p)), (''bank_code'', VStr (py_BankCode p)),
     (''payment_reference'', VStr (py_PaymentReference p)),
     (''transaction_status'', VStr (py_TransactionStatus p)), (''amount'', vint (py_Amount p))]"

definition projection_val :: "projection \<Rightarrow> goval" where
  "projection_val p = VObj [(''amount'', vint (pj_Amount p)), (''currency'', VStr (pj_Currency p)),
     (''merchant_id'', VStr (pj_MerchantID p))]"

section \<open>Split and Project\<close>

definition profile_SegmentOrder :: "string list" where
  "profile_SegmentOrder = [AudienceUser, AudienceMerchant, AudienceGateway]"

definition asPayload :: "any_payload \<Rightarrow> payload res" where
  "asPayload a =
     (case a of
        PayloadValue v \<Rightarrow> Inr v
      | PayloadPointer None \<Rightarrow> Inl (Sentinel ErrUnsupportedPayload)
      | PayloadPointer (Some v) \<Rightarrow> Inr v
      | OtherValue \<Rightarrow> Inl (Sentinel ErrUnsupportedPayload))"

definition Split :: "any_payload \<Rightarrow> (string, gobytes) fmap res" where
  "Split payload =
     (case asPayload payload of
        Inl e \<Rightarrow> Inl e
      | Inr p \<Rightarrow>
     (case marshal (subject_val (pl_Subject p)) of
        Inl e \<Rightarrow> Inl (errorf ''agenticcheckout: split: '' e)
      | Inr user \<Rightarrow>
     (case marshal (checkout_val (pl_Checkout p)) of
        Inl e \<Rightarrow> Inl (errorf ''agenticcheckout: split: '' e)
      | Inr merchant \<Rightarrow>
     (case marshal (payment_val (pl_Payment p)) of
        Inl e \<Rightarrow> Inl (errorf ''agenticcheckout: split: '' e)
      | Inr gateway \<Rightarrow>
          Inr (fmap_of_list [(AudienceUser, Some user), (AudienceMerchant, Some merchant),
                             (AudienceGateway, Some gateway)])))))"

definition Project :: "any_payload \<Rightarrow> projection res" where
  "Project payload =
     (case asPayload payload of
        Inl e \<Rightarrow> Inl e
      | Inr p \<Rightarrow> Inr \<lparr> pj_Amount = py_Amount (pl_Payment p),
                      pj_Currency = co_Currency (pl_Checkout p),
                      pj_MerchantID = co_MerchantID (pl_Checkout p) \<rparr>)"

section \<open>The bindings\<close>

definition transaction_id_val :: "string \<Rightarrow> string \<Rightarrow> goval" where
  "transaction_id_val checkoutHash gatewayPlainHash =
     VObj [(''checkout_hash'', VStr checkoutHash), (''gateway_plain_hash'', VStr gatewayPlainHash)]"

definition computeCheckoutHash :: "binding_context \<Rightarrow> string res" where
  "computeCheckoutHash bctx =
     (case fmlookup (bc_plain_hash bctx) AudienceMerchant of
        None \<Rightarrow> Inl (Sentinel ErrMissingSegmentHash) | Some h \<Rightarrow> Inr h)"

definition computeTransactionID :: "prims \<Rightarrow> binding_context \<Rightarrow> string res" where
  "computeTransactionID P bctx =
     (case fmlookup (bc_plain_hash bctx) AudienceMerchant of
        None \<Rightarrow> Inl (Sentinel ErrMissingSegmentHash)
      | Some checkoutHash \<Rightarrow>
     (case fmlookup (bc_plain_hash bctx) AudienceGateway of
        None \<Rightarrow> Inl (Sentinel ErrMissingSegmentHash)
      | Some gatewayPlainHash \<Rightarrow>
     (case JCS P (transaction_id_val checkoutHash gatewayPlainHash) of
        Inl e \<Rightarrow> Inl (errorf ''agenticcheckout: transaction_id: '' e)
      | Inr canon \<Rightarrow> Inr (''txn:'' @ H P canon))))"

definition computeConditionalTransactionID :: "prims \<Rightarrow> binding_context \<Rightarrow> string res" where
  "computeConditionalTransactionID P bctx =
     (case IntentCommitment P (bc_intent_ref bctx) (bc_constraints_hash bctx) (bc_segments_root bctx) of
        Inl e \<Rightarrow> Inl (errorf ''agenticcheckout: conditional_transaction_id: '' e)
      | Inr commitment \<Rightarrow> Inr commitment)"

definition BindingSpecs :: "prims \<Rightarrow> binding_spec list" where
  "BindingSpecs P =
     [\<lparr> bs_name = ''checkout_hash'', bs_compute = computeCheckoutHash \<rparr>,
      \<lparr> bs_name = ''transaction_id'', bs_compute = computeTransactionID P \<rparr>,
      \<lparr> bs_name = ''conditional_transaction_id'', bs_compute = computeConditionalTransactionID P \<rparr>]"

section \<open>What a split says\<close>

lemma int64_text_inject: "int64_text m = int64_text n \<longleftrightarrow> m = n"
proof
  assume eq: "int64_text m = int64_text n"
  have minus: "''-'' @ s \<noteq> dec_nat k" for s k
  proof
    assume "''-'' @ s = dec_nat k"
    then have "CHR ''-'' \<in> set (dec_nat k)" by (metis append_Cons list.set_intros(1))
    then show False using dec_nat_digits [of "CHR ''-''" k] by simp
  qed
  from eq have "sint m = sint n"
    using minus minus [symmetric] dec_nat_inject
    by (auto simp: int64_text_def split: if_splits dest!: dec_nat_inject)
  then show "m = n" by (simp add: signed_word_eqI)
qed simp

lemma vint_inject [simp]: "vint m = vint n \<longleftrightarrow> m = n"
  by (simp add: vint_def int64_text_inject)

lemma vslice_inject:
  "(\<And>x y. f x = f y \<Longrightarrow> x = y) \<Longrightarrow> vslice f xs = vslice f ys \<Longrightarrow> xs = ys"
  using vlist_inject [of f] by (cases xs; cases ys) (auto simp: vslice_def vlist_def)

lemma item_val_inject: "item_val i = item_val j \<Longrightarrow> i = j"
  by (simp add: item_val_def)

lemma section_val_injects:
  "subject_val s = subject_val s' \<Longrightarrow> s = s'"
  "checkout_val c = checkout_val c' \<Longrightarrow> c = c'"
  "payment_val p = payment_val p' \<Longrightarrow> p = p'"
proof -
  assume "subject_val s = subject_val s'"
  then show "s = s'"
    using vslice_inject [of VStr "sb_Roles s" "sb_Roles s'"]
      vslice_inject [of VStr "sb_Permissions s" "sb_Permissions s'"]
    by (simp add: subject_val_def)
next
  assume "checkout_val c = checkout_val c'"
  then show "c = c'"
    using vslice_inject [of item_val "co_Items c" "co_Items c'"] item_val_inject
    by (simp add: checkout_val_def)
next
  assume "payment_val p = payment_val p'"
  then show "p = p'" by (simp add: payment_val_def)
qed

text \<open>Marshalling a section cannot fail, so a split fails only on a foreign payload.\<close>

lemma no_fail_vslice: "(\<And>x. first_fail (f x) = None) \<Longrightarrow> first_fail (vslice f xs) = None"
proof -
  assume f: "\<And>x. first_fail (f x) = None"
  have "first_fail_list (map f ys) = None" for ys by (induction ys) (simp_all add: f)
  then show ?thesis by (simp add: vslice_def vlist_def split: option.split)
qed

lemma no_fail_sections:
  "first_fail (subject_val s) = None" "first_fail (checkout_val c) = None"
  "first_fail (payment_val p) = None" "first_fail (projection_val q) = None"
proof -
  have "first_fail (item_val i) = None" for i by (simp add: item_val_def vint_def)
  then show "first_fail (subject_val s) = None" "first_fail (checkout_val c) = None"
    "first_fail (payment_val p) = None" "first_fail (projection_val q) = None"
    by (simp_all add: subject_val_def checkout_val_def payment_val_def projection_val_def vint_def
        no_fail_vslice)
qed

definition section_bytes :: "goval \<Rightarrow> gobytes" where
  "section_bytes v = Some (bytes_of (render v))"

definition split_of :: "payload \<Rightarrow> (string, gobytes) fmap" where
  "split_of p = fmap_of_list
     [(AudienceUser, section_bytes (subject_val (pl_Subject p))),
      (AudienceMerchant, section_bytes (checkout_val (pl_Checkout p))),
      (AudienceGateway, section_bytes (payment_val (pl_Payment p)))]"

lemma Split_eq:
  "Split a = (case asPayload a of Inl e \<Rightarrow> Inl e | Inr p \<Rightarrow> Inr (split_of p))"
  by (simp add: Split_def split_of_def section_bytes_def marshal_def no_fail_sections split: sum.split)

lemma asPayload_Inl: "asPayload a = Inl e \<Longrightarrow> e = Sentinel ErrUnsupportedPayload"
  by (auto simp: asPayload_def split: any_payload.splits option.splits)

lemma audience_names [simp]:
  "AudienceUser \<noteq> AudienceMerchant" "AudienceUser \<noteq> AudienceGateway" "AudienceMerchant \<noteq> AudienceGateway"
  "AudienceMerchant \<noteq> AudienceUser" "AudienceGateway \<noteq> AudienceUser" "AudienceGateway \<noteq> AudienceMerchant"
  by (simp_all add: AudienceUser_def AudienceMerchant_def AudienceGateway_def)

lemma split_of_lookup:
  "fmlookup (split_of p) AudienceUser = Some (section_bytes (subject_val (pl_Subject p)))"
  "fmlookup (split_of p) AudienceMerchant = Some (section_bytes (checkout_val (pl_Checkout p)))"
  "fmlookup (split_of p) AudienceGateway = Some (section_bytes (payment_val (pl_Payment p)))"
  by (simp_all add: split_of_def)

text \<open>One segment per audience of the profile's order, and no other.\<close>

lemma split_of_dom: "fset (fmdom (split_of p)) = set profile_SegmentOrder"
  by (auto simp: split_of_def profile_SegmentOrder_def)

text \<open>Each segment carries its section and nothing else: the segments give the sections back.\<close>

definition sections_wf :: "payload \<Rightarrow> bool" where
  "sections_wf p \<longleftrightarrow> wf_val (subject_val (pl_Subject p)) \<and> wf_val (checkout_val (pl_Checkout p))
     \<and> wf_val (payment_val (pl_Payment p))"

interpretation checkout: profile_port Split Project profile_SegmentOrder
  by unfold_locales (auto simp: Split_eq Project_def split_of_dom split: sum.splits)

lemma split_of_inject:
  assumes "sections_wf p" "sections_wf q" "split_of p = split_of q"
  shows "pl_Subject p = pl_Subject q \<and> pl_Checkout p = pl_Checkout q \<and> pl_Payment p = pl_Payment q"
proof -
  have "section_bytes (subject_val (pl_Subject p)) = section_bytes (subject_val (pl_Subject q))"
    "section_bytes (checkout_val (pl_Checkout p)) = section_bytes (checkout_val (pl_Checkout q))"
    "section_bytes (payment_val (pl_Payment p)) = section_bytes (payment_val (pl_Payment q))"
    using split_of_lookup [of p] split_of_lookup [of q] assms(3) by simp_all
  then show ?thesis
    using assms(1,2) section_val_injects
    by (simp add: section_bytes_def sections_wf_def render_inject)
qed

text \<open>A section's segment does not depend on the other sections.\<close>

lemma split_of_local:
  "pl_Payment p = pl_Payment q \<Longrightarrow> fmlookup (split_of p) AudienceGateway = fmlookup (split_of q) AudienceGateway"
  "pl_Checkout p = pl_Checkout q \<Longrightarrow> fmlookup (split_of p) AudienceMerchant = fmlookup (split_of q) AudienceMerchant"
  "pl_Subject p = pl_Subject q \<Longrightarrow> fmlookup (split_of p) AudienceUser = fmlookup (split_of q) AudienceUser"
  by (simp_all add: split_of_lookup)

section \<open>What the bindings say\<close>

lemma BindingSpecs_distinct: "distinct (map bs_name (BindingSpecs P))"
  by (simp add: BindingSpecs_def)

lemma profile_bindings:
  assumes "ComputeBindings bctx (BindingSpecs P) = Inr m"
  obtains ch gh canon where
    "fmlookup (bc_plain_hash bctx) AudienceMerchant = Some ch"
    "fmlookup (bc_plain_hash bctx) AudienceGateway = Some gh"
    "JCS P (transaction_id_val ch gh) = Inr canon"
    "lookup_or_empty m ''checkout_hash'' = ch"
    "lookup_or_empty m ''transaction_id'' = ''txn:'' @ H P canon"
    "IntentCommitment P (bc_intent_ref bctx) (bc_constraints_hash bctx) (bc_segments_root bctx)
       = Inr (lookup_or_empty m ''conditional_transaction_id'')"
proof -
  note spec = ComputeBindings_spec [OF assms BindingSpecs_distinct]
  have c: "computeCheckoutHash bctx = Inr (lookup_or_empty m ''checkout_hash'')"
    "computeTransactionID P bctx = Inr (lookup_or_empty m ''transaction_id'')"
    "computeConditionalTransactionID P bctx = Inr (lookup_or_empty m ''conditional_transaction_id'')"
    using spec [of "BindingSpecs P ! 0"] spec [of "BindingSpecs P ! 1"] spec [of "BindingSpecs P ! 2"]
    by (simp_all add: BindingSpecs_def)
  from c(1) obtain ch where ch: "fmlookup (bc_plain_hash bctx) AudienceMerchant = Some ch"
    "lookup_or_empty m ''checkout_hash'' = ch"
    by (auto simp: computeCheckoutHash_def split: option.splits)
  with c(2) obtain gh canon where gh: "fmlookup (bc_plain_hash bctx) AudienceGateway = Some gh"
    "JCS P (transaction_id_val ch gh) = Inr canon" "lookup_or_empty m ''transaction_id'' = ''txn:'' @ H P canon"
    by (auto simp: computeTransactionID_def split: option.splits sum.splits)
  from c(3) have "IntentCommitment P (bc_intent_ref bctx) (bc_constraints_hash bctx) (bc_segments_root bctx)
      = Inr (lookup_or_empty m ''conditional_transaction_id'')"
    by (auto simp: computeConditionalTransactionID_def split: sum.splits)
  with ch gh show thesis by (intro that [of ch gh canon])
qed

lemma transaction_id_inject:
  assumes "computeTransactionID P b = Inr t" "computeTransactionID P b' = Inr t"
  obtains ch gh ch' gh' where
    "fmlookup (bc_plain_hash b) AudienceMerchant = Some ch" "fmlookup (bc_plain_hash b) AudienceGateway = Some gh"
    "fmlookup (bc_plain_hash b') AudienceMerchant = Some ch'" "fmlookup (bc_plain_hash b') AudienceGateway = Some gh'"
    "(ch = ch' \<and> gh = gh') \<or> digest_collision P (transaction_id_val ch gh) (transaction_id_val ch' gh')"
proof -
  from assms obtain ch gh c ch' gh' c' where a:
    "fmlookup (bc_plain_hash b) AudienceMerchant = Some ch" "fmlookup (bc_plain_hash b) AudienceGateway = Some gh"
    "JCS P (transaction_id_val ch gh) = Inr c"
    "fmlookup (bc_plain_hash b') AudienceMerchant = Some ch'" "fmlookup (bc_plain_hash b') AudienceGateway = Some gh'"
    "JCS P (transaction_id_val ch' gh') = Inr c'" "H P c = H P c'"
    by (auto simp: computeTransactionID_def split: option.splits sum.splits)
  from digest_inject [OF a(3) a(6) a(7)]
  have "(ch = ch' \<and> gh = gh') \<or> digest_collision P (transaction_id_val ch gh) (transaction_id_val ch' gh')"
    by (simp add: transaction_id_val_def)
  with a show thesis by (intro that)
qed

text \<open>The three sections of a payload are its three segments and nothing else is.\<close>

lemma split_partitions:
  assumes "Split (PayloadValue p) = Inr m" "Split (PayloadPointer (Some q)) = Inr m" "sections_wf p" "sections_wf q"
  shows "fset (fmdom m) = set profile_SegmentOrder \<and>
    pl_Subject p = pl_Subject q \<and> pl_Checkout p = pl_Checkout q \<and> pl_Payment p = pl_Payment q"
proof -
  have "m = split_of p" "m = split_of q" using assms(1,2) by (simp_all add: Split_eq asPayload_def)
  with split_of_inject [OF assms(3,4)] split_of_dom [of p] show ?thesis by simp
qed

end
