(* ===== verification/Checkout_Seal.thy ===== *)
theory Checkout_Seal
  imports Seal_Live Checkout_Profile
begin

text \<open>
  The checkout profile in a sealed package: its three bindings always compute, and what
  the package's bindings then say of its manifest and its intent commitment.
\<close>

section \<open>The bindings compute\<close>

lemma utf8_names [simp]: "utf8_valid AudienceUser" "utf8_valid AudienceMerchant" "utf8_valid AudienceGateway"
  by (simp_all add: AudienceUser_def AudienceMerchant_def AudienceGateway_def)

lemma profile_computes:
  assumes "jcs_total P" "{AudienceMerchant, AudienceGateway} \<subseteq> au_Name ` set (sr_Audiences req)"
  shows "\<forall>spec \<in> set (BindingSpecs P). computes req spec"
proof -
  have bound: "\<exists>h. fmlookup (bc_plain_hash ctx) a = Some h \<and> utf8_valid h"
    if "a \<in> {AudienceMerchant, AudienceGateway}" "fset (fmdom (bc_plain_hash ctx)) = au_Name ` set (sr_Audiences req)"
      "\<forall>h \<in> fmran' (bc_plain_hash ctx). utf8_valid h" for a ctx
  proof -
    have "a \<in> fset (fmdom (bc_plain_hash ctx))" using that(1,2) assms(2) by auto
    then obtain h where "fmlookup (bc_plain_hash ctx) a = Some h" by (auto simp: fmdom_iff)
    with that(3) show ?thesis by (auto intro: fmran'I)
  qed
  let ?spec = "\<lambda>n f. \<lparr> bs_name = n, bs_compute = f \<rparr>"
  have "computes req (?spec ''checkout_hash'' computeCheckoutHash)"
    unfolding computes_def
    by (auto simp: computeCheckoutHash_def bindingsFieldSegmentsRoot_def bindingsFieldIntentCommitment_def
        dest!: bound [of AudienceMerchant, simplified])
  moreover have "computes req (?spec ''transaction_id'' (computeTransactionID P))"
    unfolding computes_def
  proof (intro conjI allI impI)
    fix ctx :: binding_context
    assume ctx: "fset (fmdom (bc_plain_hash ctx)) = au_Name ` set (sr_Audiences req)"
      "\<forall>h \<in> fmran' (bc_plain_hash ctx). utf8_valid h"
    obtain h g where hg: "fmlookup (bc_plain_hash ctx) AudienceMerchant = Some h" "utf8_valid h"
      "fmlookup (bc_plain_hash ctx) AudienceGateway = Some g" "utf8_valid g"
      using bound [OF _ ctx] by blast
    then have "text_val (transaction_id_val h g)" by (simp add: transaction_id_val_def)
    from JCS_total [OF assms(1) this] hg show "\<exists>v. bs_compute (?spec ''transaction_id'' (computeTransactionID P)) ctx = Inr v \<and> utf8_valid v"
      by (auto simp: computeTransactionID_def intro!: ascii_utf8)
  qed (simp_all add: bindingsFieldSegmentsRoot_def bindingsFieldIntentCommitment_def)
  moreover have "computes req (?spec ''conditional_transaction_id'' (computeConditionalTransactionID P))"
    unfolding computes_def
  proof (intro conjI allI impI)
    fix ctx :: binding_context
    assume "list_all utf8_valid [bc_intent_ref ctx, bc_constraints_hash ctx, bc_segments_root ctx]"
    then have "text_val (intent_commitment_val (bc_intent_ref ctx) (bc_constraints_hash ctx) (bc_segments_root ctx))"
      by (simp add: intent_commitment_val_def)
    from JCS_total [OF assms(1) this]
    show "\<exists>v. bs_compute (?spec ''conditional_transaction_id'' (computeConditionalTransactionID P)) ctx = Inr v \<and> utf8_valid v"
      by (auto simp: computeConditionalTransactionID_def IntentCommitment_def intro!: ascii_utf8)
  qed (simp_all add: bindingsFieldSegmentsRoot_def bindingsFieldIntentCommitment_def)
  ultimately show ?thesis by (simp add: BindingSpecs_def)
qed

section \<open>What they say in a package\<close>

lemma sealed_checkout:
  assumes "Seal P req si w iv s = (Inr p, s')" "sr_BindingSpecs req = BindingSpecs P"
  obtains merchant gateway canon where
    "fmlookup (mf_segments (pk_manifest p)) AudienceMerchant = Some merchant"
    "fmlookup (mf_segments (pk_manifest p)) AudienceGateway = Some gateway"
    "lookup_or_empty (bd_extra (pk_bindings p)) ''checkout_hash'' = sg_plain_hash merchant"
    "JCS P (transaction_id_val (sg_plain_hash merchant) (sg_plain_hash gateway)) = Inr canon"
    "lookup_or_empty (bd_extra (pk_bindings p)) ''transaction_id'' = ''txn:'' @ H P canon"
    "lookup_or_empty (bd_extra (pk_bindings p)) ''conditional_transaction_id''
       = bd_intent_commitment (pk_bindings p)"
proof -
  from Seal_Inr [OF assms(1)] obtain ch idb acc root commitment extra kid view sig aadCtx where
    loop: "loop_done P w aadCtx req acc" and
    commitment: "IntentCommitment P (sr_IntentRef req) ch root = Inr commitment" and
    extra: "ComputeBindings \<lparr> bc_plain_hash = sa_plainHash acc, bc_intent_ref = sr_IntentRef req,
       bc_constraints_hash = ch, bc_segments_root = root \<rparr> (sr_BindingSpecs req) = Inr extra" and
    p: "p = (unsigned_package req (''pkg_'' @ hex_encode idb) aadCtx ch acc root commitment extra)
           \<lparr>pk_issuer := \<lparr> iss_iss = sr_Issuer req, iss_kid = kid \<rparr>,
            pk_signature := \<lparr> sn_alg = signatureAlg, sn_kid = kid,
              sn_signed_fields = RequiredSignedFields, sn_value = EncodeSignatureValue sig \<rparr>\<rparr>"
    by (rule sealed_obtain)
  from extra assms(2) obtain mh gh canon where b:
    "fmlookup (sa_plainHash acc) AudienceMerchant = Some mh"
    "fmlookup (sa_plainHash acc) AudienceGateway = Some gh"
    "JCS P (transaction_id_val mh gh) = Inr canon"
    "lookup_or_empty extra ''checkout_hash'' = mh"
    "lookup_or_empty extra ''transaction_id'' = ''txn:'' @ H P canon"
    "IntentCommitment P (sr_IntentRef req) ch root = Inr (lookup_or_empty extra ''conditional_transaction_id'')"
    by (simp only: assms(2)) (erule profile_bindings, simp)
  have seg: "\<exists>seg. fmlookup (sa_manifestSegments acc) a = Some seg \<and> sg_plain_hash seg = h"
    if "fmlookup (sa_plainHash acc) a = Some h" for a h
    using that unfolding loop_done_plain [OF loop, symmetric] by auto
  from seg [OF b(1)] seg [OF b(2)] obtain m g where
    "fmlookup (sa_manifestSegments acc) AudienceMerchant = Some m" "sg_plain_hash m = mh"
    "fmlookup (sa_manifestSegments acc) AudienceGateway = Some g" "sg_plain_hash g = gh" by blast
  with b commitment show thesis
    by (intro that [of m g canon]) (simp_all add: p unsigned_package_def)
qed

end
