(* ===== verification/Local_Signer.thy ===== *)
theory Local_Signer
  imports Ports
begin

text \<open>
  \<^verbatim>\<open>internal/adapters/signer/local/signer.go\<close>: an in-process Ed25519 signer. A context is
  its error: \<open>None\<close> while it is live. The signer meets the contract \<open>signing_port\<close> for the
  public half of its key.
\<close>

record local_signer =
  ls_priv :: bytes
  ls_kid :: string

definition PrivateKeySize :: nat where
  "PrivateKeySize = 64"

definition PublicKeySize :: nat where
  "PublicKeySize = 32"

definition SignatureSize :: nat where
  "SignatureSize = 64"

definition local_New :: "bytes \<Rightarrow> string \<Rightarrow> local_signer res" where
  "local_New priv kid =
     (if length priv \<noteq> PrivateKeySize
      then Inl (Wrapped '''' (Sentinel ErrKeySize)
                  ('': got '' @ dec_nat (length priv) @ '' bytes, want '' @ dec_nat PrivateKeySize))
      else Inr \<lparr> ls_priv = priv, ls_kid = kid \<rparr>)"

definition local_Kid :: "local_signer \<Rightarrow> err option \<Rightarrow> string res" where
  "local_Kid s ctx =
     (case ctx of Some e \<Rightarrow> Inl (errorf ''chainbind/signer/local: '' e) | None \<Rightarrow> Inr (ls_kid s))"

definition local_Sign :: "prims \<Rightarrow> local_signer \<Rightarrow> err option \<Rightarrow> bytes \<Rightarrow> bytes res" where
  "local_Sign P s ctx message =
     (case ctx of Some e \<Rightarrow> Inl (errorf ''chainbind/signer/local: '' e)
      | None \<Rightarrow> Inr (ed25519_sign P (ls_priv s) message))"

definition local_Verify :: "prims \<Rightarrow> bytes \<Rightarrow> bytes \<Rightarrow> bytes \<Rightarrow> bool" where
  "local_Verify P pub message sig =
     (if length pub \<noteq> PublicKeySize \<or> length sig \<noteq> SignatureSize then False
      else ed25519_verify P pub message sig)"

text \<open>The signer and the context its calls run under, as the port.\<close>

definition local_port :: "prims \<Rightarrow> local_signer \<times> err option \<Rightarrow> signer" where
  "local_port P s = \<lparr> signer_Kid = local_Kid (fst s) (snd s), signer_Sign = local_Sign P (fst s) (snd s) \<rparr>"

definition local_pair :: "prims \<Rightarrow> local_signer \<times> err option \<Rightarrow> bytes \<Rightarrow> bool" where
  "local_pair P s pub \<longleftrightarrow> ed25519_pair P (ls_priv (fst s)) pub"

section \<open>The contract\<close>

lemma local_New_Inr: "local_New priv kid = Inr s \<longleftrightarrow> length priv = 64 \<and> s = \<lparr> ls_priv = priv, ls_kid = kid \<rparr>"
  by (auto simp: local_New_def PrivateKeySize_def)

lemma local_New_Inl: "local_New priv kid = Inl e \<Longrightarrow> err_is e ErrKeySize"
  by (auto simp: local_New_def split: if_splits)

lemma local_Sign_Verify:
  assumes "ed25519_pair P (ls_priv s) pub" "local_Sign P s ctx m = Inr sig"
  shows "local_Verify P pub m sig" "length pub = 32" "length sig = 64"
  using assms
  by (auto simp: local_Sign_def local_Verify_def ed25519_pair_def PublicKeySize_def SignatureSize_def
      split: option.splits)

interpretation local_signer: signing_port local_port local_pair
proof unfold_locales
  fix P s pub m sig
  assume "local_pair P s pub" "signer_Sign (local_port P s) m = Inr sig"
  then show "length pub = 32 \<and> length sig = 64 \<and> ed25519_verify P pub m sig"
    using local_Sign_Verify [of P "fst s" pub "snd s" m sig]
    by (simp add: local_pair_def local_port_def local_Verify_def PublicKeySize_def SignatureSize_def)
qed

text \<open>A signer over a key pair.\<close>

theorem local_signer_verifies:
  assumes "local_New priv kid = Inr s" "ed25519_pair P priv pub"
  shows "local_Kid s None = Inr kid \<and>
    (\<exists>sig. local_Sign P s None m = Inr sig \<and> length sig = 64 \<and> local_Verify P pub m sig)"
proof -
  from assms(1) have s: "s = \<lparr> ls_priv = priv, ls_kid = kid \<rparr>" by (simp add: local_New_Inr)
  obtain sig where sig: "local_Sign P s None m = Inr sig" by (simp add: local_Sign_def)
  have "ed25519_pair P (ls_priv s) pub" using assms(2) s by simp
  from local_Sign_Verify [OF this sig] sig s show ?thesis by (simp add: local_Kid_def)
qed

end
