(* ===== verification/Mock_Intent.thy ===== *)
theory Mock_Intent
  imports Ports Go_Any
begin

text \<open>
  \<^verbatim>\<open>internal/adapters/intent/mock/verifier.go\<close>: the in-memory intent authority. Rules are
  evaluated over the fields of the projection in whatever order Go ranges over the map, so
  the order is an argument; a comparison of two values of an uncomparable type panics, so a
  verdict may be missing. The lemmas show that the verdict does not depend on the order and
  that the constraints hash depends on nothing but the pinned document: the mock meets the
  contract \<open>authority_port\<close>.
\<close>

text \<open>\<^verbatim>\<open>projectionFields\<close>: a later duplicate of a name wins; null leaves no field.\<close>

definition projectionFields :: "float_lib \<Rightarrow> goval \<Rightarrow> (string, jval) fmap res" where
  "projectionFields F projection =
     (case marshal projection of
        Inl e \<Rightarrow> Inl (errorf ''encode projection: '' e)
      | Inr raw \<Rightarrow>
          (case projection of
             VNull \<Rightarrow> Inr fmempty
           | VObj kvs \<Rightarrow>
               (case decode_pairs F kvs of
                  None \<Rightarrow> Inl (errorf ''decode projection: '' (LibErr ''json: cannot unmarshal number''))
                | Some js \<Rightarrow> Inr (fmap_of_list (rev js)))
           | _ \<Rightarrow> Inl (errorf ''decode projection: ''
                        (LibErr ''json: cannot unmarshal value into Go value of type map[string]interface {}''))))"

section \<open>Rules\<close>

record mock_rule =
  rl_Equals :: "jval list"
  rl_Max :: "rat option"
  rl_Min :: "rat option"

text \<open>Go's \<^verbatim>\<open>==\<close> on two interface values: \<open>None\<close> is the panic on an uncomparable type.\<close>

fun go_eq :: "jval \<Rightarrow> jval \<Rightarrow> bool option" where
  "go_eq JNull JNull = Some True"
| "go_eq (JBool a) (JBool b) = Some (a = b)"
| "go_eq (JNum a) (JNum b) = Some (a = b)"
| "go_eq (JStr a) (JStr b) = Some (a = b)"
| "go_eq (JArr a) (JArr b) = None"
| "go_eq (JObj a) (JObj b) = None"
| "go_eq _ _ = Some False"

datatype verdict = Holds | Broken string | Panics

fun equals_loop :: "jval list \<Rightarrow> jval \<Rightarrow> bool option" where
  "equals_loop [] val = Some False"
| "equals_loop (a # as) val =
     (case go_eq a val of None \<Rightarrow> None
      | Some True \<Rightarrow> Some True
      | Some False \<Rightarrow> equals_loop as val)"

definition evaluate :: "float_lib \<Rightarrow> mock_rule \<Rightarrow> string \<Rightarrow> jval \<Rightarrow> verdict" where
  "evaluate F r field val =
     (if rl_Equals r \<noteq> [] then
        (case equals_loop (rl_Equals r) val of
           None \<Rightarrow> Panics
         | Some True \<Rightarrow> Holds
         | Some False \<Rightarrow> Broken (''field '' @ go_quote field @ '': value '' @ fl_show F val
                                @ '' is not in the allowed set''))
      else if rl_Max r \<noteq> None \<or> rl_Min r \<noteq> None then
        (case val of
           JNum num \<Rightarrow>
             (if rl_Max r \<noteq> None \<and> num > the (rl_Max r)
              then Broken (''field '' @ go_quote field @ '': value '' @ fl_show F val
                           @ '' exceeds maximum '' @ fl_show F (JNum (the (rl_Max r))))
              else if rl_Min r \<noteq> None \<and> num < the (rl_Min r)
              then Broken (''field '' @ go_quote field @ '': value '' @ fl_show F val
                           @ '' is below minimum '' @ fl_show F (JNum (the (rl_Min r))))
              else Holds)
         | _ \<Rightarrow> Broken (''field '' @ go_quote field @ '': expected a numeric value''))
      else Holds)"

section \<open>The authority\<close>

record mock_constraints =
  mc_Version :: int
  mc_Rules :: "(string, mock_rule) fmap option"

text \<open>A document without rules has a nil map: no rule to check, and null in its JSON.\<close>

definition rules_of :: "mock_constraints \<Rightarrow> (string, mock_rule) fmap" where
  "rules_of c = (case mc_Rules c of None \<Rightarrow> fmempty | Some m \<Rightarrow> m)"

record mock_authorization =
  ma_doc :: mock_constraints
  ma_consumed :: int

type_synonym mock_state = "(string, mock_authorization) fmap"

definition mock_lookup :: "mock_state \<Rightarrow> string \<Rightarrow> mock_constraints res" where
  "mock_lookup s intentRef =
     (case fmlookup s intentRef of
        None \<Rightarrow> Inl (errorf ''mock: '' (Sentinel ErrUnknownIntentRef))
      | Some auth \<Rightarrow> Inr (ma_doc auth))"

definition recordUse :: "string \<Rightarrow> mock_state \<Rightarrow> mock_state" where
  "recordUse intentRef s =
     (case fmlookup s intentRef of
        None \<Rightarrow> s
      | Some auth \<Rightarrow> fmupd intentRef (auth\<lparr>ma_consumed := ma_consumed auth + 1\<rparr>) s)"

text \<open>
  The loop of \<^verbatim>\<open>Check\<close> over the rules in the order \<open>rules\<close>: the first broken rule decides.
\<close>

fun check_rules :: "float_lib \<Rightarrow> (string, jval) fmap \<Rightarrow> (string \<times> mock_rule) list \<Rightarrow> intent_decision option" where
  "check_rules F flds [] = Some \<lparr> id_Allowed = True, id_Reason = [] \<rparr>"
| "check_rules F flds ((field, rule) # rules) =
     (case fmlookup flds field of
        None \<Rightarrow> Some \<lparr> id_Allowed = False,
                     id_Reason = ''required field '' @ go_quote field @ '' not present in projection'' \<rparr>
      | Some val \<Rightarrow>
          (case evaluate F rule field val of
             Panics \<Rightarrow> None
           | Broken reason \<Rightarrow> Some \<lparr> id_Allowed = False, id_Reason = reason \<rparr>
           | Holds \<Rightarrow> check_rules F flds rules))"

text \<open>\<open>order\<close> lists the document's rules in the order this call ranges over them.\<close>

definition mock_Check ::
  "float_lib \<Rightarrow> (mock_constraints \<Rightarrow> (string \<times> mock_rule) list) \<Rightarrow> err option \<Rightarrow> mock_state \<Rightarrow> string \<Rightarrow>
     goval \<Rightarrow> intent_decision res option" where
  "mock_Check F order ctx s intentRef projection =
     (case ctx of
        Some e \<Rightarrow> Some (Inl (errorf ''mock: check: '' e))
      | None \<Rightarrow>
     (case mock_lookup s intentRef of
        Inl e \<Rightarrow> Some (Inl e)
      | Inr doc \<Rightarrow>
     (case projectionFields F projection of
        Inl e \<Rightarrow> Some (Inl (errorf ''mock: check: '' e))
      | Inr flds \<Rightarrow> map_option Inr (check_rules F flds (order doc)))))"

subsection \<open>The constraints hash\<close>

definition rule_val :: "float_lib \<Rightarrow> mock_rule \<Rightarrow> goval" where
  "rule_val F r = VObj
     ((if rl_Equals r = [] then [] else [(''equals'', VArr (map (jval_val F) (rl_Equals r)))])
      @ (case rl_Max r of None \<Rightarrow> [] | Some q \<Rightarrow> [(''max'', VNum (fl_json F q))])
      @ (case rl_Min r of None \<Rightarrow> [] | Some q \<Rightarrow> [(''min'', VNum (fl_json F q))]))"

definition constraints_val :: "float_lib \<Rightarrow> mock_constraints \<Rightarrow> goval" where
  "constraints_val F c =
     VObj [(''version'', VNum (dec_int (mc_Version c))), 
           (''rules'', case mc_Rules c of None \<Rightarrow> VNull | Some m \<Rightarrow> vmap (rule_val F) m)]"

definition hashConstraints :: "prims \<Rightarrow> float_lib \<Rightarrow> mock_constraints \<Rightarrow> string res" where
  "hashConstraints P F doc =
     (case JCS P (constraints_val F doc) of
        Inl e \<Rightarrow> Inl (errorf ''mock: hash constraints: '' e)
      | Inr canon \<Rightarrow> Inr (H P canon))"

definition mock_ConstraintsHash ::
  "prims \<Rightarrow> float_lib \<Rightarrow> err option \<Rightarrow> mock_state \<Rightarrow> string \<Rightarrow> string res" where
  "mock_ConstraintsHash P F ctx s intentRef =
     (case ctx of
        Some e \<Rightarrow> Inl (errorf ''mock: constraints hash: '' e)
      | None \<Rightarrow>
     (case mock_lookup s intentRef of
        Inl e \<Rightarrow> Inl e
      | Inr doc \<Rightarrow> hashConstraints P F doc))"

definition mock_Ping :: "err option \<Rightarrow> err option" where
  "mock_Ping ctx = ctx"

section \<open>Loading the seed directory\<close>

text \<open>
  A directory entry, with what reading it and decoding it gives: \<open>de_read\<close> is the outcome of
  \<^verbatim>\<open>os.ReadFile\<close>, \<open>decode\<close> that of \<^verbatim>\<open>json.Unmarshal\<close> into the seed document.
\<close>

record seed_doc =
  sd_Ref :: string
  sd_constraints :: mock_constraints

record dir_entry =
  de_name :: string
  de_is_dir :: bool
  de_read :: "bytes res"

text \<open>\<^verbatim>\<open>filepath.Ext\<close> of a bare name: from its last dot on.\<close>

definition file_ext :: "string \<Rightarrow> string" where
  "file_ext name =
     (if CHR ''.'' \<in> set name
      then ''.'' @ rev (takeWhile (\<lambda>c. c \<noteq> CHR ''.'') (rev name)) else [])"

fun load_entries ::
  "(bytes \<Rightarrow> seed_doc res) \<Rightarrow> dir_entry list \<Rightarrow> mock_state \<Rightarrow> mock_state res" where
  "load_entries decode [] auths = Inr auths"
| "load_entries decode (entry # es) auths =
     (if de_is_dir entry \<or> file_ext (de_name entry) \<noteq> ''.json'' then load_entries decode es auths
      else
     (case de_read entry of
        Inl e \<Rightarrow> Inl (errorf (''mock: read seed file '' @ go_quote (de_name entry) @ '': '') e)
      | Inr raw \<Rightarrow>
     (case decode raw of
        Inl e \<Rightarrow> Inl (errorf (''mock: parse seed file '' @ go_quote (de_name entry) @ '': '') e)
      | Inr doc \<Rightarrow>
        if sd_Ref doc = []
        then Inl (errorf (''mock: seed file '' @ go_quote (de_name entry) @ '': '')
                    (Sentinel ErrUnknownIntentRef))
        else if fmlookup auths (sd_Ref doc) \<noteq> None
        then Inl (errorf (''mock: seed file '' @ go_quote (de_name entry) @ '': '')
                    (Sentinel ErrDuplicateIntentRef))
        else load_entries decode es
               (fmupd (sd_Ref doc) \<lparr> ma_doc = sd_constraints doc, ma_consumed = 0 \<rparr> auths))))"

definition mock_New :: "(bytes \<Rightarrow> seed_doc res) \<Rightarrow> dir_entry list res \<Rightarrow> mock_state res" where
  "mock_New decode dir =
     (case dir of
        Inl e \<Rightarrow> Inl (errorf ''mock: read seed dir: '' e)
      | Inr es \<Rightarrow> load_entries decode es fmempty)"

section \<open>The verdict does not depend on the order\<close>

text \<open>A projection satisfies the rules if every ruled field is there and its rule holds.\<close>

definition satisfies :: "float_lib \<Rightarrow> (string, jval) fmap \<Rightarrow> (string \<times> mock_rule) set \<Rightarrow> bool" where
  "satisfies F flds rules \<longleftrightarrow>
     (\<forall>(field, rule) \<in> rules. \<exists>val. fmlookup flds field = Some val \<and> evaluate F rule field val = Holds)"

lemma check_rules_allowed:
  "(\<exists>d. check_rules F flds rules = Some d \<and> id_Allowed d) \<longleftrightarrow> satisfies F flds (set rules)"
  by (induction rules) (auto simp: satisfies_def split: option.splits verdict.splits)

lemma check_rules_verdict:
  assumes "check_rules F flds rules = Some d"
  shows "id_Allowed d \<longleftrightarrow> satisfies F flds (set rules)"
  using assms check_rules_allowed [of F flds rules] by auto

text \<open>Rules that only allow scalar values never panic.\<close>

fun scalar :: "jval \<Rightarrow> bool" where
  "scalar (JArr _) \<longleftrightarrow> False"
| "scalar (JObj _) \<longleftrightarrow> False"
| "scalar _ \<longleftrightarrow> True"

lemma go_eq_scalar: "scalar a \<Longrightarrow> go_eq a b = Some (a = b)"
  by (cases a; cases b) simp_all

lemma equals_loop_scalar: "list_all scalar as \<Longrightarrow> equals_loop as b = Some (b \<in> set as)"
  by (induction as) (auto simp: go_eq_scalar split: bool.split)

lemma evaluate_scalar: "list_all scalar (rl_Equals r) \<Longrightarrow> evaluate F r field val \<noteq> Panics"
  by (auto simp: evaluate_def equals_loop_scalar split: bool.splits jval.splits)

lemma check_rules_total:
  "\<forall>(field, rule) \<in> set rules. list_all scalar (rl_Equals rule) \<Longrightarrow> check_rules F flds rules \<noteq> None"
  by (induction rules) (auto split: option.splits verdict.splits simp: evaluate_scalar)

text \<open>What a rule means, when it does not panic.\<close>

lemma evaluate_Holds:
  assumes "list_all scalar (rl_Equals r)"
  shows "evaluate F r field val = Holds \<longleftrightarrow>
    (if rl_Equals r \<noteq> [] then val \<in> set (rl_Equals r)
     else (rl_Max r = None \<and> rl_Min r = None) \<or>
       (\<exists>q. val = JNum q \<and> (\<forall>m. rl_Max r = Some m \<longrightarrow> q \<le> m) \<and> (\<forall>m. rl_Min r = Some m \<longrightarrow> m \<le> q)))"
  by (cases val; cases "rl_Max r"; cases "rl_Min r")
    (auto simp: evaluate_def equals_loop_scalar [OF assms] split: bool.split)

section \<open>The hash is settled by the reference\<close>

lemma recordUse_doc: "map_option ma_doc (fmlookup (recordUse r s) ref) = map_option ma_doc (fmlookup s ref)"
  by (auto simp: recordUse_def split: option.split)

lemma recordUse_lookup: "mock_lookup (recordUse r s) ref = mock_lookup s ref"
  by (auto simp: recordUse_def mock_lookup_def split: option.split)

lemma recordUse_hash: "mock_ConstraintsHash P F ctx (recordUse r s) ref = mock_ConstraintsHash P F ctx s ref"
  by (simp only: mock_ConstraintsHash_def recordUse_lookup)

lemma recordUse_Check: "mock_Check F order ctx (recordUse r s) ref pj = mock_Check F order ctx s ref pj"
  by (simp only: mock_Check_def recordUse_lookup)

text \<open>
  The authority as the port: rules in key order, and a call that panics never answers,
  which its caller sees as an error.
\<close>

definition mock_port :: "prims \<Rightarrow> float_lib \<times> mock_state \<Rightarrow> intent_verifier" where
  "mock_port P s =
     \<lparr> iv_Check = (\<lambda>ref projection.
         case mock_Check (fst s) (\<lambda>doc. entries (rules_of doc)) None (snd s) ref projection of
           None \<Rightarrow> Inl (LibErr ''panic'') | Some r \<Rightarrow> r),
       iv_ConstraintsHash = mock_ConstraintsHash P (fst s) None (snd s) \<rparr>"

inductive mock_step :: "float_lib \<times> mock_state \<Rightarrow> float_lib \<times> mock_state \<Rightarrow> bool" where
  use_recorded: "mock_step (F, s) (F, recordUse ref s)"

inductive_cases mock_stepE: "mock_step s t"

interpretation mock: authority_port mock_port mock_step
  by unfold_locales (auto elim!: mock_stepE simp: mock_port_def recordUse_hash)

section \<open>What a loaded directory holds\<close>

definition is_seed :: "dir_entry \<Rightarrow> bool" where
  "is_seed entry \<longleftrightarrow> \<not> de_is_dir entry \<and> file_ext (de_name entry) = ''.json''"

text \<open>Every reference loaded is a non-empty one, pinned by exactly one of the seed files.\<close>

lemma load_entries_sound:
  assumes "load_entries decode es auths = Inr auths'" "fmlookup auths' ref = Some a"
  shows "fmlookup auths ref = Some a \<or>
    (ref \<noteq> [] \<and> (\<exists>entry \<in> set es. \<exists>raw doc. is_seed entry \<and> de_read entry = Inr raw \<and>
       decode raw = Inr doc \<and> sd_Ref doc = ref \<and> a = \<lparr> ma_doc = sd_constraints doc, ma_consumed = 0 \<rparr>))"
  using assms
proof (induction es arbitrary: auths)
  case (Cons entry es)
  show ?case
  proof (cases "is_seed entry")
    case False
    with Cons.prems Cons.IH show ?thesis by (auto simp: is_seed_def)
  next
    case True
    with Cons.prems(1) obtain raw doc where d: "de_read entry = Inr raw" "decode raw = Inr doc" "sd_Ref doc \<noteq> []"
      "load_entries decode es (fmupd (sd_Ref doc) \<lparr> ma_doc = sd_constraints doc, ma_consumed = 0 \<rparr> auths) = Inr auths'"
      by (auto simp: is_seed_def split: sum.splits if_splits)
    from Cons.IH [OF d(4) Cons.prems(2)] show ?thesis
      using d(1-3) True by (auto split: if_splits)
  qed
qed simp

text \<open>Every seed file of a directory that loads is in the authority, under its own reference.\<close>

lemma load_entries_seed:
  assumes "load_entries decode (entry # es) auths = Inr auths'" "is_seed entry"
  obtains raw and doc :: seed_doc where "de_read entry = Inr raw" "decode raw = Inr doc"
    "fmlookup auths (sd_Ref doc) = None"
    "load_entries decode es (fmupd (sd_Ref doc) \<lparr> ma_doc = sd_constraints doc, ma_consumed = 0 \<rparr> auths) = Inr auths'"
  using assms by (auto simp: is_seed_def split: sum.splits if_splits)

lemma load_entries_other:
  "\<not> is_seed entry \<Longrightarrow> load_entries decode (entry # es) auths = load_entries decode es auths"
  by (auto simp: is_seed_def)

lemma load_entries_keeps:
  "load_entries decode es auths = Inr auths' \<Longrightarrow> fmlookup auths ref = Some a \<Longrightarrow> fmlookup auths' ref = Some a"
proof (induction es arbitrary: auths)
  case (Cons entry es)
  show ?case
  proof (cases "is_seed entry")
    case False
    with Cons.prems(1) have "load_entries decode es auths = Inr auths'"
      by (simp only: load_entries_other not_False_eq_True)
    with Cons.IH Cons.prems(2) show ?thesis by blast
  next
    case True
    with Cons.prems(1) obtain raw and doc :: seed_doc where d: "fmlookup auths (sd_Ref doc) = None"
      "load_entries decode es (fmupd (sd_Ref doc) \<lparr> ma_doc = sd_constraints doc, ma_consumed = 0 \<rparr> auths) = Inr auths'"
      by (rule load_entries_seed)
    from d(1) Cons.prems(2) have "sd_Ref doc \<noteq> ref" by auto
    with Cons.IH [OF d(2)] Cons.prems(2) show ?thesis by simp
  qed
qed simp

lemma load_entries_complete:
  assumes "load_entries decode es auths = Inr auths'" "entry \<in> set es" "is_seed entry"
  shows "\<exists>raw doc. de_read entry = Inr raw \<and> decode raw = Inr doc \<and>
    fmlookup auths' (sd_Ref doc) = Some \<lparr> ma_doc = sd_constraints doc, ma_consumed = 0 \<rparr>"
  using assms
proof (induction es arbitrary: auths)
  case (Cons e es)
  show ?case
  proof (cases "is_seed e")
    case False
    with Cons.prems(2,3) have "entry \<in> set es" by auto
    moreover from False Cons.prems(1) have "load_entries decode es auths = Inr auths'"
      by (simp only: load_entries_other not_False_eq_True)
    ultimately show ?thesis using Cons.IH Cons.prems(3) by blast
  next
    case True
    with Cons.prems(1) obtain raw and doc :: seed_doc where d: "de_read e = Inr raw" "decode raw = Inr doc"
      "load_entries decode es (fmupd (sd_Ref doc) \<lparr> ma_doc = sd_constraints doc, ma_consumed = 0 \<rparr> auths) = Inr auths'"
      by (rule load_entries_seed)
    show ?thesis
    proof (cases "entry = e")
      case True
      with d(1,2) load_entries_keeps [OF d(3)] show ?thesis by simp
    next
      case False
      with Cons.prems(2,3) Cons.IH [OF d(3)] show ?thesis by simp
    qed
  qed
qed simp

text \<open>The verdict is the same in whatever order the rules are ranged over.\<close>

lemma mock_verdict_order:
  assumes "mock_Check F o1 ctx s ref pj = Some (Inr d1)" "mock_Check F o2 ctx s ref pj = Some (Inr d2)"
    and "\<forall>doc. set (o1 doc) = set (entries (rules_of doc))" "\<forall>doc. set (o2 doc) = set (entries (rules_of doc))"
  shows "id_Allowed d1 = id_Allowed d2"
proof -
  from assms(1,2) obtain doc flds where "check_rules F flds (o1 doc) = Some d1" "check_rules F flds (o2 doc) = Some d2"
    by (auto simp: mock_Check_def split: option.splits sum.splits)
  with check_rules_verdict assms(3,4) show ?thesis by metis
qed

text \<open>A seed directory that loads pins exactly its seed documents.\<close>

lemma seeds_loaded:
  assumes "mock_New decode (Inr es) = Inr auths"
  shows "(\<forall>ref a. fmlookup auths ref = Some a \<longrightarrow> ref \<noteq> [] \<and>
      (\<exists>entry \<in> set es. \<exists>raw doc. is_seed entry \<and> de_read entry = Inr raw \<and> decode raw = Inr doc \<and>
         sd_Ref doc = ref \<and> a = \<lparr> ma_doc = sd_constraints doc, ma_consumed = 0 \<rparr>)) \<and>
    (\<forall>entry \<in> set es. is_seed entry \<longrightarrow> (\<exists>raw doc. de_read entry = Inr raw \<and> decode raw = Inr doc \<and>
       fmlookup auths (sd_Ref doc) = Some \<lparr> ma_doc = sd_constraints doc, ma_consumed = 0 \<rparr>))"
proof -
  from assms have ld: "load_entries decode es fmempty = Inr auths" by (simp add: mock_New_def)
  from load_entries_sound [OF ld] load_entries_complete [OF ld] show ?thesis by auto
qed

end
