(* ===== verification/Demo.thy ===== *)
theory Demo
  imports Checkout_Seal Local_Signer Mock_Intent
begin

text \<open>
  A concrete deployment of the modelled parts, for the witnesses: a checkout payload split
  over its three audiences, wrapped with the X25519 wrapper, signed by a local signer and
  authorized by a mock authority with one rule, over \<open>demo_prims\<close>.
\<close>

section \<open>The instance\<close>

definition demo_payload :: payload where
  "demo_payload =
     \<lparr> pl_RequestContext = \<lparr> rc_TenantID = ''t'', rc_Environment = ''prod'', rc_RequestID = ''r'',
                            rc_CorrelationID = ''c'', rc_IssuedBy = ''i'' \<rparr>,
       pl_Intent = \<lparr> ci_IntentRef = ''ref-1'', ci_Authority = ''mock'' \<rparr>,
       pl_Subject = \<lparr> sb_UserID = ''u1'', sb_AccountID = ''a1'', sb_Name = ''Ana'', sb_Email = ''a@x'',
                     sb_Roles = Some [''buyer''], sb_Permissions = None, sb_AccountStatus = ''active'' \<rparr>,
       pl_Checkout = \<lparr> co_CheckoutID = ''c1'', co_MerchantID = ''m1'', co_MerchantName = ''M'',
                      co_Currency = ''USD'', co_Items = Some [], co_Subtotal = 40, co_Shipping = 2,
                      co_Discount = 0, co_Total = 42 \<rparr>,
       pl_Payment = \<lparr> py_PaymentID = ''p1'', py_PaymentMethod = ''card'', py_BankAccountMasked = ''**1'',
                     py_BankCode = ''b'', py_PaymentReference = ''x'', py_TransactionStatus = ''new'',
                     py_Amount = 42 \<rparr> \<rparr>"

definition demo_private :: "byte \<Rightarrow> bytes" where
  "demo_private n = replicate 32 n"

definition demo_public :: "byte \<Rightarrow> bytes" where
  "demo_public n = replicate 32 (n + 9)"

definition demo_audience :: "string \<Rightarrow> byte \<Rightarrow> audience" where
  "demo_audience a n = \<lparr> au_Name = a, au_PublicKey = demo_public n, au_Kid = a @ ''-key'' \<rparr>"

definition demo_request :: seal_request where
  "demo_request =
     \<lparr> sr_Segments = split_of demo_payload, sr_SegmentOrder = profile_SegmentOrder,
       sr_Audiences = [demo_audience AudienceUser 1, demo_audience AudienceMerchant 2,
                       demo_audience AudienceGateway 3],
       sr_IntentRef = ''ref-1'', sr_Authority = ''mock'',
       sr_Projection = VObj [(''amount'', VNum ''42''), (''currency'', VStr ''USD''),
                             (''merchant_id'', VStr ''m1'')],
       sr_Issuer = ''issuer'',
       sr_IssuedAt = \<lparr> tm_year = 2025, tm_month = 1, tm_day = 2, tm_hour = 3, tm_minute = 4,
                      tm_second = 5, tm_nano = 0, tm_offset = 0 \<rparr>,
       sr_TenantID = ''t'', sr_Environment = ''prod'', sr_Profile = Name,
       sr_BindingSpecs = BindingSpecs demo_prims \<rparr>"

definition demo_floats :: float_lib where
  "demo_floats = \<lparr> fl_parse = (\<lambda>s. if s = ''42'' then Some 42 else None), fl_json = (\<lambda>q. ''100''),
                   fl_show = (\<lambda>j. ''v'') \<rparr>"

definition demo_auths :: mock_state where
  "demo_auths = fmap_of_list [(''ref-1'', \<lparr> ma_doc = \<lparr> mc_Version = 1,
     mc_Rules = Some (fmap_of_list [(''amount'', \<lparr> rl_Equals = [], rl_Max = Some 100, rl_Min = None \<rparr>)]) \<rparr>,
     ma_consumed = 0 \<rparr>)]"

definition demo_authority :: intent_verifier where
  "demo_authority = mock_port demo_prims (demo_floats, demo_auths)"

definition demo_local :: local_signer where
  "demo_local = \<lparr> ls_priv = replicate 64 7, ls_kid = ''k1'' \<rparr>"

definition demo_signer :: signer where
  "demo_signer = local_port demo_prims (demo_local, None)"

definition demo_trust :: "string \<Rightarrow> string \<Rightarrow> bytes option" where
  "demo_trust iss kid = (if iss = ''issuer'' \<and> kid = ''k1'' then Some (replicate 32 8) else None)"

definition demo_options :: verify_options where
  "demo_options = \<lparr> vo_IssuerKey = Some demo_trust, vo_Intent = Some demo_authority,
                    vo_BindingSpecs = BindingSpecs demo_prims \<rparr>"

definition demo_world :: world where
  "demo_world = \<lparr> entropy = replicate 300 5, trace = [] \<rparr>"

lemma demo_laws: "sealing_laws demo_prims" "wrapper_laws demo_prims"
  by (simp_all add: sealing_laws_def wrapper_laws_def demo_jcs_total demo_gcm_ok demo_sha256_ok
      demo_aes_ok demo_ecdh_ok)

lemma demo_names: "map au_Name (sr_Audiences demo_request) = [AudienceUser, AudienceMerchant, AudienceGateway]"
  by (simp add: demo_request_def demo_audience_def)

lemma demo_agreeable: "agreeable demo_prims (demo_public n)"
  by (simp add: agreeable_def demo_public_def demo_prims_def)

lemma demo_sealable: "sealable demo_prims demo_request"
proof -
  have "utf8_valid (a @ ''-key'')" if "a \<in> {AudienceUser, AudienceMerchant, AudienceGateway}" for a
    using that by (auto simp: AudienceUser_def AudienceMerchant_def AudienceGateway_def)
  then have "request_text demo_request"
    by (simp add: request_text_def demo_request_def demo_audience_def Name_def)
  moreover have "time_ok (sr_IssuedAt demo_request)" by (simp add: time_ok_def demo_request_def)
  ultimately show ?thesis
    by (simp add: sealable_def demo_request_def demo_audience_def profile_SegmentOrder_def
        split_of_lookup demo_agreeable)
qed

lemma demo_computes: "\<forall>spec \<in> set (sr_BindingSpecs demo_request). computes demo_request spec"
proof -
  have "{AudienceMerchant, AudienceGateway} \<subseteq> au_Name ` set (sr_Audiences demo_request)"
    by (simp add: demo_request_def demo_audience_def)
  from profile_computes [OF demo_jcs_total this] show ?thesis by (simp add: demo_request_def)
qed

lemma demo_answers: "answers demo_signer"
  by (simp add: answers_def demo_signer_def local_port_def demo_local_def local_Kid_def local_Sign_def)

lemma demo_entries: "entries (fmupd (k :: string) v fmempty) = [(k, v)]"
  by (simp add: entries_def sorted_list_of_fmap_def sorted_list_of_fset.rep_eq)

lemma demo_check:
  "iv_Check demo_authority ''ref-1'' (sr_Projection demo_request) = Inr \<lparr> id_Allowed = True, id_Reason = [] \<rparr>"
  by (simp add: demo_authority_def mock_port_def mock_Check_def mock_lookup_def demo_auths_def demo_request_def
      projectionFields_def marshal_def demo_floats_def demo_entries evaluate_def rules_of_def)

lemma demo_hash: "\<exists>ch. iv_ConstraintsHash demo_authority ''ref-1'' = Inr ch \<and> utf8_valid ch"
proof -
  let ?doc = "\<lparr> mc_Version = 1, mc_Rules = Some (fmap_of_list
    [(''amount'', \<lparr> rl_Equals = [], rl_Max = Some 100, rl_Min = None \<rparr>)]) \<rparr>"
  have "wf_val (constraints_val demo_floats ?doc)"
    by (simp add: constraints_val_def rule_val_def vmap_def demo_entries demo_floats_def dec_int_def
        dec_nat.simps digit_char_def num_char_def)
  from JCS_demo [OF this] show ?thesis
    by (simp add: demo_authority_def mock_port_def mock_ConstraintsHash_def mock_lookup_def demo_auths_def
        hashConstraints_def)
qed

lemma demo_authorizes: "authorizes demo_authority demo_request"
  using demo_check demo_hash by (auto simp: authorizes_def demo_request_def)

lemma demo_entropy: "entropy_needed demo_request \<le> length (entropy demo_world)"
  by (simp add: entropy_needed_def demo_request_def demo_world_def)

lemma demo_sealed:
  obtains p s where "Seal demo_prims demo_request demo_signer (Wrapper demo_prims) demo_authority demo_world = (Inr p, s)"
  using Seal_live [OF demo_laws(1) demo_sealable demo_computes demo_answers demo_authorizes demo_entropy] by blast

lemma demo_signs_for: "signs_for demo_prims demo_signer (replicate 32 8)"
  using local_signer.sign_verifies [of demo_prims "(demo_local, None)" "replicate 32 8"]
    demo_ed25519_pair [of "replicate 32 8"]
  by (simp add: signs_for_def demo_signer_def local_pair_def)

lemma demo_trusts: "trusts (vo_IssuerKey demo_options) (sr_Issuer demo_request) demo_signer (replicate 32 8)"
  by (simp add: trusts_def demo_options_def demo_request_def demo_trust_def demo_signer_def local_port_def
      local_Kid_def demo_local_def)

lemma demo_specs: "vo_BindingSpecs demo_options = sr_BindingSpecs demo_request"
    "distinct (map bs_name (sr_BindingSpecs demo_request))"
  by (simp_all add: demo_options_def demo_request_def BindingSpecs_distinct)

text \<open>The merchant's key confirms the merchant's segment: the three thumbprints differ.\<close>

lemma demo_thumbprints:
  "Thumbprint demo_prims (demo_public 1) \<noteq> Thumbprint demo_prims (demo_public 2)"
  "Thumbprint demo_prims (demo_public 3) \<noteq> Thumbprint demo_prims (demo_public 2)"
  by code_simp+

lemma demo_owns: "owns (Wrapper demo_prims) demo_request (demo_private 2) (demo_audience AudienceMerchant 2)"
proof -
  have "PublicKey demo_prims (demo_private 2) = Inr (demo_public 2)"
    by (simp add: PublicKey_def ecdh_NewPrivateKey_def demo_private_def demo_prims_def demo_public_def)
  then show ?thesis
    using demo_thumbprints by (auto simp: owns_def demo_request_def Wrapper_def demo_audience_def)
qed

text \<open>The sealed package of the deployment, and that it passes Level 1.\<close>

lemma demo_package:
  obtains p s where "Seal demo_prims demo_request demo_signer (Wrapper demo_prims) demo_authority demo_world = (Inr p, s)"
    "level1_valid demo_prims p demo_options"
proof -
  obtain p s where sealed: "Seal demo_prims demo_request demo_signer (Wrapper demo_prims) demo_authority demo_world = (Inr p, s)"
    by (rule demo_sealed)
  from sealed_level1 [OF Seal_Inr [OF sealed] demo_signs_for demo_trusts demo_specs]
  have "level1_valid demo_prims p demo_options" .
  with sealed show thesis by (rule that)
qed

lemma demo_intent: "vo_Intent demo_options = Some demo_authority"
  by (simp add: demo_options_def)

lemma demo_plaintext: "segment_plaintext (sr_Segments demo_request) (au_Name (demo_audience AudienceMerchant 2)) \<noteq> Some []"
proof -
  have "render (checkout_val (pl_Checkout demo_payload)) \<noteq> []" by (simp add: checkout_val_def)
  then show ?thesis
    by (simp add: demo_request_def demo_audience_def segment_plaintext_def split_of_lookup section_bytes_def
        bytes_of_def)
qed

lemma demo_sections: "sections_wf demo_payload"
  by (simp add: sections_wf_def demo_payload_def subject_val_def checkout_val_def payment_val_def vslice_def
      vlist_def vint_def int64_text_def dec_nat.simps digit_char_def num_char_def)

section \<open>The same request with an empty merchant segment\<close>

definition demo_empty_request :: seal_request where
  "demo_empty_request =
     demo_request\<lparr>sr_Segments := fmupd AudienceMerchant (Some []) (sr_Segments demo_request)\<rparr>"

lemma demo_empty_fields:
  "sr_Audiences demo_empty_request = sr_Audiences demo_request"
  "sr_Issuer demo_empty_request = sr_Issuer demo_request"
  "sr_BindingSpecs demo_empty_request = sr_BindingSpecs demo_request"
  "sr_IntentRef demo_empty_request = sr_IntentRef demo_request"
  "sr_Projection demo_empty_request = sr_Projection demo_request"
  by (simp_all add: demo_empty_request_def)

lemma demo_empty_trusts: "trusts (vo_IssuerKey demo_options) (sr_Issuer demo_empty_request) demo_signer (replicate 32 8)"
  unfolding demo_empty_fields by (rule demo_trusts)

lemma demo_empty_specs: "vo_BindingSpecs demo_options = sr_BindingSpecs demo_empty_request"
    "distinct (map bs_name (sr_BindingSpecs demo_empty_request))"
  unfolding demo_empty_fields by (rule demo_specs)+

lemma demo_empty_owns: "owns (Wrapper demo_prims) demo_empty_request (demo_private 2) (demo_audience AudienceMerchant 2)"
  using demo_owns by (simp add: owns_def demo_empty_fields)

lemma demo_empty_plaintext:
  "segment_plaintext (sr_Segments demo_empty_request) (au_Name (demo_audience AudienceMerchant 2)) = Some []"
  by (simp add: demo_empty_request_def demo_audience_def segment_plaintext_def)

lemma demo_empty_sealed:
  obtains p s where "Seal demo_prims demo_empty_request demo_signer (Wrapper demo_prims) demo_authority demo_world = (Inr p, s)"
proof -
  have "sealable demo_prims demo_empty_request"
    using demo_sealable by (auto simp: sealable_def demo_empty_request_def request_text_def)
  moreover have "\<forall>spec \<in> set (sr_BindingSpecs demo_empty_request). computes demo_empty_request spec"
    using demo_computes by (simp add: computes_def demo_empty_fields)
  moreover have "authorizes demo_authority demo_empty_request"
    using demo_authorizes by (simp add: authorizes_def demo_empty_fields)
  moreover have "entropy_needed demo_empty_request \<le> length (entropy demo_world)"
    using demo_entropy by (simp add: entropy_needed_def demo_empty_fields)
  ultimately show thesis using Seal_live [OF demo_laws(1) _ _ demo_answers] that by blast
qed

end
