(* ===== verification/Checkout_Wire.thy ===== *)
theory Checkout_Wire
  imports Checkout_Profile Package_Wire
begin

text \<open>
  The checkout payload as JSON: how the API and the command line decode one. Whatever the
  text, the strings of a decoded payload are valid UTF-8; the text of a payload reads back
  as that payload, integers included.
\<close>

section \<open>Reading a payload\<close>

definition request_context0 :: request_context where
  "request_context0 = \<lparr> rc_TenantID = [], rc_Environment = [], rc_RequestID = [], rc_CorrelationID = [],
     rc_IssuedBy = [] \<rparr>"

definition subject0 :: subject where
  "subject0 = \<lparr> sb_UserID = [], sb_AccountID = [], sb_Name = [], sb_Email = [], sb_Roles = None,
     sb_Permissions = None, sb_AccountStatus = [] \<rparr>"

definition item0 :: item where
  "item0 = \<lparr> it_SKU = [], it_Name = [], it_Quantity = 0, it_UnitPrice = 0 \<rparr>"

definition checkout0 :: checkout where
  "checkout0 = \<lparr> co_CheckoutID = [], co_MerchantID = [], co_MerchantName = [], co_Currency = [],
     co_Items = None, co_Subtotal = 0, co_Shipping = 0, co_Discount = 0, co_Total = 0 \<rparr>"

definition payment0 :: payment where
  "payment0 = \<lparr> py_PaymentID = [], py_PaymentMethod = [], py_BankAccountMasked = [], py_BankCode = [],
     py_PaymentReference = [], py_TransactionStatus = [], py_Amount = 0 \<rparr>"

definition payload0 :: payload where
  "payload0 = \<lparr> pl_RequestContext = request_context0, pl_Intent = \<lparr> ci_IntentRef = [], ci_Authority = [] \<rparr>,
     pl_Subject = subject0, pl_Checkout = checkout0, pl_Payment = payment0 \<rparr>"

definition dec_request_context :: "request_context jdec" where
  "dec_request_context = dec_struct
     [(''tenant_id'', at_field rc_TenantID rc_TenantID_update dec_string),
      (''environment'', at_field rc_Environment rc_Environment_update dec_string),
      (''request_id'', at_field rc_RequestID rc_RequestID_update dec_string),
      (''correlation_id'', at_field rc_CorrelationID rc_CorrelationID_update dec_string),
      (''issued_by'', at_field rc_IssuedBy rc_IssuedBy_update dec_string)]"

definition dec_checkout_intent :: "checkout_intent jdec" where
  "dec_checkout_intent = dec_struct
     [(''intent_ref'', at_field ci_IntentRef ci_IntentRef_update dec_string),
      (''authority'', at_field ci_Authority ci_Authority_update dec_string)]"

definition dec_subject :: "subject jdec" where
  "dec_subject = dec_struct
     [(''user_id'', at_field sb_UserID sb_UserID_update dec_string),
      (''account_id'', at_field sb_AccountID sb_AccountID_update dec_string),
      (''name'', at_field sb_Name sb_Name_update dec_string),
      (''email'', at_field sb_Email sb_Email_update dec_string),
      (''roles'', at_field sb_Roles sb_Roles_update (dec_slice dec_string [])),
      (''permissions'', at_field sb_Permissions sb_Permissions_update (dec_slice dec_string [])),
      (''account_status'', at_field sb_AccountStatus sb_AccountStatus_update dec_string)]"

definition dec_item :: "item jdec" where
  "dec_item = dec_struct
     [(''sku'', at_field it_SKU it_SKU_update dec_string), (''name'', at_field it_Name it_Name_update dec_string),
      (''quantity'', at_field it_Quantity it_Quantity_update dec_int64),
      (''unit_price'', at_field it_UnitPrice it_UnitPrice_update dec_int64)]"

definition dec_checkout :: "checkout jdec" where
  "dec_checkout = dec_struct
     [(''checkout_id'', at_field co_CheckoutID co_CheckoutID_update dec_string),
      (''merchant_id'', at_field co_MerchantID co_MerchantID_update dec_string),
      (''merchant_name'', at_field co_MerchantName co_MerchantName_update dec_string),
      (''currency'', at_field co_Currency co_Currency_update dec_string),
      (''items'', at_field co_Items co_Items_update (dec_slice dec_item item0)),
      (''subtotal'', at_field co_Subtotal co_Subtotal_update dec_int64),
      (''shipping'', at_field co_Shipping co_Shipping_update dec_int64),
      (''discount'', at_field co_Discount co_Discount_update dec_int64),
      (''total'', at_field co_Total co_Total_update dec_int64)]"

definition dec_payment :: "payment jdec" where
  "dec_payment = dec_struct
     [(''payment_id'', at_field py_PaymentID py_PaymentID_update dec_string),
      (''payment_method'', at_field py_PaymentMethod py_PaymentMethod_update dec_string),
      (''bank_account_masked'', at_field py_BankAccountMasked py_BankAccountMasked_update dec_string),
      (''bank_code'', at_field py_BankCode py_BankCode_update dec_string),
      (''payment_reference'', at_field py_PaymentReference py_PaymentReference_update dec_string),
      (''transaction_status'', at_field py_TransactionStatus py_TransactionStatus_update dec_string),
      (''amount'', at_field py_Amount py_Amount_update dec_int64)]"

definition dec_payload :: "payload jdec" where
  "dec_payload = dec_struct
     [(''request_context'', at_field pl_RequestContext pl_RequestContext_update dec_request_context),
      (''intent'', at_field pl_Intent pl_Intent_update dec_checkout_intent),
      (''subject'', at_field pl_Subject pl_Subject_update dec_subject),
      (''checkout'', at_field pl_Checkout pl_Checkout_update dec_checkout),
      (''payment'', at_field pl_Payment pl_Payment_update dec_payment)]"

section \<open>Decoded text is valid\<close>

lemma wf_vint: "wf_val (vint n)"
proof -
  have "set ''0123456789'' \<subseteq> Collect num_char" by (simp add: num_char_def)
  then have "list_all num_char (dec_nat k)" for k
    using dec_nat_digits [of _ k] unfolding list_all_iff by (meson mem_Collect_eq subsetD)
  then show ?thesis by (simp add: vint_def int64_text_def) (simp add: num_char_def)
qed

lemma wf_vslice: "wf_val (vslice f xs) \<longleftrightarrow> list_all (\<lambda>x. wf_val (f x)) (case xs of None \<Rightarrow> [] | Some ys \<Rightarrow> ys)"
  by (cases xs) (auto simp: vslice_def vlist_def list_all_iff)

definition request_context_text :: "request_context \<Rightarrow> bool" where
  "request_context_text r \<longleftrightarrow>
     list_all utf8_valid [rc_TenantID r, rc_Environment r, rc_RequestID r, rc_CorrelationID r, rc_IssuedBy r]"

definition checkout_intent_text :: "checkout_intent \<Rightarrow> bool" where
  "checkout_intent_text i \<longleftrightarrow> utf8_valid (ci_IntentRef i) \<and> utf8_valid (ci_Authority i)"

definition payload_text :: "payload \<Rightarrow> bool" where
  "payload_text p \<longleftrightarrow> request_context_text (pl_RequestContext p) \<and> checkout_intent_text (pl_Intent p) \<and>
     sections_wf p"

lemmas keep_fields = keeps_field [OF keeps_string] keeps_field [OF keeps_any [of dec_int64]]

lemma keeps_small:
  "keeps request_context_text dec_request_context"
  "keeps checkout_intent_text dec_checkout_intent"
  "keeps (\<lambda>i. wf_val (item_val i)) dec_item"
  "keeps (\<lambda>p. wf_val (payment_val p)) dec_payment"
  unfolding dec_request_context_def dec_checkout_intent_def dec_item_def dec_payment_def
  by (rule keeps_struct,
      auto simp: request_context_text_def checkout_intent_text_def item_val_def payment_val_def wf_vint
        simp del: utf8_valid.simps intro!: keep_fields)+

lemma keeps_subject: "keeps (\<lambda>s. wf_val (subject_val s)) dec_subject"
  unfolding dec_subject_def
  by (rule keeps_struct)
    (auto simp: subject_val_def wf_vslice simp del: utf8_valid.simps(2)
      intro!: keep_fields keeps_field [OF keeps_slice [OF keeps_string]])

lemma keeps_checkout: "keeps (\<lambda>c. wf_val (checkout_val c)) dec_checkout"
proof -
  have "wf_val (item_val item0)" by (simp add: item_val_def item0_def wf_vint)
  note items = keeps_field [OF keeps_slice [OF keeps_small(3) this]]
  show ?thesis
    unfolding dec_checkout_def
    by (rule keeps_struct)
      (auto simp: checkout_val_def wf_vslice wf_vint simp del: utf8_valid.simps(2) intro!: keep_fields items)
qed

lemma keeps_payload: "keeps payload_text dec_payload"
  unfolding dec_payload_def
  by (rule keeps_struct)
    (auto simp: payload_text_def sections_wf_def
      intro: keeps_field [OF keeps_small(1)] keeps_field [OF keeps_small(2)] keeps_field [OF keeps_subject]
        keeps_field [OF keeps_checkout] keeps_field [OF keeps_small(4)])

lemma payload_text0: "payload_text payload0"
  by (simp add: payload_text_def payload0_def request_context_text_def request_context0_def
      checkout_intent_text_def sections_wf_def subject_val_def subject0_def checkout_val_def checkout0_def
      payment_val_def payment0_def wf_vint wf_vslice)

text \<open>Whatever a client sends, what is decoded holds only valid strings.\<close>

theorem decoded_payload_text:
  "json_Decode dec_payload payload0 limit raw = Inr p \<Longrightarrow> payload_text p"
  "json_Unmarshal dec_payload payload0 raw = Inr p \<Longrightarrow> payload_text p"
  using Decode_keeps [OF keeps_payload payload_text0] Unmarshal_keeps [OF keeps_payload payload_text0] by blast+

end
