(* ===== verification/Seal_Wire.thy ===== *)
theory Seal_Wire
  imports Checkout_Seal Checkout_Wire
begin

text \<open>
  A sealed package on the wire: everything in a package that \<open>Seal\<close> returned is text, so what
  the API or the command line writes for it reads back as the very package, whatever follows
  it in the stream.
\<close>

lemma ascii_raw_url: "utf8_valid (raw_url_encode b)"
  using raw_url_plain [of b] by (intro ascii_utf8) (auto simp: ascii_def plain_char_def list_all_iff)

lemma utf8_append: "ascii s \<Longrightarrow> utf8_valid t \<Longrightarrow> utf8_valid (s @ t)"
  using utf8_append_iff [OF ascii_utf8] by blast

lemma loop_done_sealed_text:
  assumes "loop_done P (Wrapper P) aadCtx req acc" "request_text req" "fmlookup (sa_sealedSegments acc) n = Some sealed"
  shows "utf8_valid n \<and> text_val (sealed_segment_val sealed)"
proof -
  from assms(3) have "n \<in> fset (fmdom (sa_sealedSegments acc))" by (simp add: fmdom_iff)
  with assms(1) obtain aud where "aud \<in> set (sr_Audiences req)" "n = au_Name aud"
    "audience_sealed P (Wrapper P) aadCtx (sr_Segments req) acc aud"
    by (auto simp: loop_done_def same_keys_def)
  with assms(2,3) show ?thesis
    by (auto simp: audience_sealed_def segment_sealed_def sealed_segment_val_def epk_val_def ascii_raw_url
        request_text_def)
qed

text \<open>The time of a request may have any offset in whole minutes, and years of four digits.\<close>

lemma time_valid_ok: "time_valid t \<Longrightarrow> time_ok t"
  by (auto simp: time_valid_def time_ok_def)

lemma sealed_package_text:
  assumes "Seal P req si (Wrapper P) iv s = (Inr p, s')" "request_text req" "time_valid (sr_IssuedAt req)"
    and "\<forall>spec \<in> set (sr_BindingSpecs req). computes req spec"
    and "\<And>kid. signer_Kid si = Inr kid \<Longrightarrow> utf8_valid kid"
    and "\<And>ch. iv_ConstraintsHash iv (sr_IntentRef req) = Inr ch \<Longrightarrow> utf8_valid ch"
  shows "package_text p"
proof -
  from Seal_Inr [OF assms(1)] obtain ch idb acc root commitment extra kid view sig aadCtx where
    hash: "iv_ConstraintsHash iv (sr_IntentRef req) = Inr ch" and
    ctx: "aadCtx = \<lparr> ac_package_id = ''pkg_'' @ hex_encode idb, ac_tenant_id = sr_TenantID req,
       ac_environment = sr_Environment req \<rparr>" and
    loop: "loop_done P (Wrapper P) aadCtx req acc" and
    root: "SegmentsRoot P (sr_SegmentOrder req) (sa_plainHash acc) = Inr root" and
    commitment: "IntentCommitment P (sr_IntentRef req) ch root = Inr commitment" and
    extra: "ComputeBindings \<lparr> bc_plain_hash = sa_plainHash acc, bc_intent_ref = sr_IntentRef req,
       bc_constraints_hash = ch, bc_segments_root = root \<rparr> (sr_BindingSpecs req) = Inr extra" and
    kid: "signer_Kid si = Inr kid" and
    p: "p = (unsigned_package req (''pkg_'' @ hex_encode idb) aadCtx ch acc root commitment extra)
           \<lparr>pk_issuer := \<lparr> iss_iss = sr_Issuer req, iss_kid = kid \<rparr>,
            pk_signature := \<lparr> sn_alg = signatureAlg, sn_kid = kid,
              sn_signed_fields = RequiredSignedFields, sn_value = EncodeSignatureValue sig \<rparr>\<rparr>"
    by (rule sealed_obtain)
  have keys: "fset (fmdom (sa_plainHash acc)) = au_Name ` set (sr_Audiences req)"
    using loop by (simp add: loop_done_def same_keys_def)
  have pid: "utf8_valid (''pkg_'' @ hex_encode idb)" by (rule ascii_utf8) simp
  have order: "\<forall>a \<in> set (sr_SegmentOrder req). utf8_valid a"
    using root keys assms(2) by (auto simp: SegmentsRoot_Inr request_text_def)
  have "\<forall>h \<in> fmran' (sa_plainHash acc). utf8_valid h"
    using loop_done_text [OF loop] by (auto elim!: fmran'E)
  then have "extra_text extra"
    using bindings_live [OF assms(4), of "\<lparr> bc_plain_hash = sa_plainHash acc, bc_intent_ref = sr_IntentRef req,
       bc_constraints_hash = ch, bc_segments_root = root \<rparr>"] keys extra assms(2) assms(6) [OF hash]
      utf8_SegmentsRoot [OF root]
    by (auto simp: request_text_def)
  moreover have "ctx_text aadCtx" using pid assms(2) by (simp add: ctx_text_def ctx request_text_def)
  ultimately have parts: "view_parts_text ((unsigned_package req (''pkg_'' @ hex_encode idb) aadCtx ch acc root commitment extra)
      \<lparr>pk_issuer := \<lparr> iss_iss = sr_Issuer req, iss_kid = kid \<rparr>\<rparr>)"
    using unsigned_parts [OF loop assms(2) time_valid_ok [OF assms(3)] _ _ assms(5) [OF kid] assms(6) [OF hash] pid
        utf8_SegmentsRoot [OF root] utf8_IntentCommitment [OF commitment] order] by blast
  have "text_val (vmap sealed_segment_val (sa_sealedSegments acc))"
    using loop_done_sealed_text [OF loop assms(2)] by (rule text_vmap)
  moreover have "\<forall>n \<in> set RequiredSignedFields. utf8_valid n"
    by (simp add: RequiredSignedFields_def)
  then have "text_val (vlist VStr RequiredSignedFields)" by (intro text_vlist) simp
  ultimately show ?thesis
    using parts assms(3) assms(5) [OF kid]
    by (simp add: package_text_def package_val_def view_parts_text_def p unsigned_package_def signature_val_def
        signatureAlg_def EncodeSignatureValue_def ascii_raw_url)
qed

text \<open>Written and read again.\<close>

lemma package_marshals: "package_text p \<Longrightarrow> \<exists>raw. marshal (package_val p) = Inr raw"
  using marshal_wf [OF text_wf] by (auto simp: package_text_def)

section \<open>Opened by its owner\<close>

text \<open>The specification of opening holds of a sealed package for the wrapper's keys.\<close>

lemma sealed_opens_wrapper:
  assumes "Seal P req si (Wrapper P) iv s = (Inr p, s')" "wrapper_laws P" "gcm_ok P"
    "owns (Wrapper P) req priv aud" "segment_plaintext (sr_Segments req) (au_Name aud) \<noteq> Some []"
  shows "\<exists>dek. opens P p priv (Wrapper P) (au_Name aud) (segment_plaintext (sr_Segments req) (au_Name aud)) dek"
proof -
  have pub: "kw_PublicKey (Wrapper P) priv = Inr (au_PublicKey aud)" using assms(4) by (simp add: owns_def)
  have "kw_Unwrap (Wrapper P) priv epk wrapped = Inr dek"
    if "length dek = 32" "kw_Wrap (Wrapper P) (au_PublicKey aud) dek x = (Inr (wrapped, epk), x')"
    for dek x x' wrapped epk using x25519.wrap_unwrap [OF assms(2) pub that] .
  then show ?thesis by (rule sealed_opens [OF Seal_Inr [OF assms(1)] assms(4,3) _ assms(5)])
qed

end
