(* ===== verification/Go_Http.thy ===== *)
theory Go_Http
  imports Signing_View Go_Decode
begin

text \<open>
  What the repository uses of \<^verbatim>\<open>net/http\<close> and \<^verbatim>\<open>net/url\<close>: requests and responses, path
  escaping, the patterns of \<^verbatim>\<open>http.ServeMux\<close> and a client. The transport (\<^verbatim>\<open>http.Client.Do\<close>
  and what is at the other end of the connection) is a parameter of every client.
\<close>

section \<open>Requests and responses\<close>

text \<open>
  Header names are in canonical form, as \<^verbatim>\<open>net/http\<close> keeps them. The target of a request
  that a client builds is a URL; a server sees the path of it, still escaped.
\<close>

record request =
  rq_method :: string
  rq_target :: string
  rq_headers :: "(string, string) fmap"
  rq_body :: bytes

record response =
  rs_status :: nat
  rs_type :: string
  rs_body :: bytes

definition header_get :: "request \<Rightarrow> string \<Rightarrow> string" where
  "header_get r name = (case fmlookup (rq_headers r) name of None \<Rightarrow> [] | Some v \<Rightarrow> v)"

text \<open>A handler whose goroutine panics sends nothing: the server closes the connection.\<close>

type_synonym handler = "request \<Rightarrow> response option"

text \<open>\<^verbatim>\<open>json.Encoder.Encode\<close>: a line feed after the value, and nothing at all on an error.\<close>

definition encode :: "goval \<Rightarrow> bytes" where
  "encode v = (case marshal v of Inl e \<Rightarrow> [] | Inr b \<Rightarrow> b @ [10])"

text \<open>\<^verbatim>\<open>http.Error\<close>.\<close>

definition http_Error :: "string \<Rightarrow> nat \<Rightarrow> response" where
  "http_Error text code =
     \<lparr> rs_status = code, rs_type = ''text/plain; charset=utf-8'', rs_body = bytes_of text @ [10] \<rparr>"

section \<open>Path segments\<close>

definition upper_hex :: string where
  "upper_hex = ''0123456789ABCDEF''"

text \<open>\<^verbatim>\<open>url.PathEscape\<close>: the bytes a path segment may hold as they are.\<close>

definition segment_char :: "char \<Rightarrow> bool" where
  "segment_char c \<longleftrightarrow>
     c \<in> set ''ABCDEFGHIJKLMNOPQRSTUVWXYZabcdefghijklmnopqrstuvwxyz0123456789-_.~$&+=:@''"

definition escape_char :: "char \<Rightarrow> string" where
  "escape_char c =
     (if segment_char c then [c]
      else [CHR ''%'', upper_hex ! (of_char c div 16), upper_hex ! (of_char c mod 16)])"

definition PathEscape :: "string \<Rightarrow> string" where
  "PathEscape s = concat (map escape_char s)"

text \<open>\<^verbatim>\<open>url.PathUnescape\<close>: \<open>None\<close> for an escape that is not two hexadecimal digits.\<close>

fun PathUnescape :: "string \<Rightarrow> string option" where
  "PathUnescape [] = Some []"
| "PathUnescape (c # cs) =
     (if c = CHR ''%'' then
        (case cs of
           h # l # rest \<Rightarrow>
             (case (hex_value h, hex_value l) of
                (Some a, Some b) \<Rightarrow> map_option (\<lambda>r. char_of (a * 16 + b) # r) (PathUnescape rest)
              | _ \<Rightarrow> None)
         | _ \<Rightarrow> None)
      else map_option (\<lambda>r. c # r) (PathUnescape cs))"

section \<open>Routing\<close>

text \<open>
  \<^verbatim>\<open>http.ServeMux\<close> for patterns with a method and a path of literal segments and wildcards.
  A path it would clean (a \<open>.\<close> or \<open>..\<close> segment, or an empty one that is not the last) is
  redirected, and only the status of the redirection is modelled; a path that only
  other methods serve is a 405; a \<^verbatim>\<open>HEAD\<close> request is served by the pattern of \<^verbatim>\<open>GET\<close>. A
  wildcard binds the segment unescaped, or as it is when its escapes are malformed.
\<close>

datatype pat = Lit string | Wild

fun split_on :: "char \<Rightarrow> string \<Rightarrow> string list" where
  "split_on d [] = [[]]"
| "split_on d (c # cs) =
     (if c = d then [] # split_on d cs
      else (case split_on d cs of [] \<Rightarrow> [[c]] | s # ss \<Rightarrow> (c # s) # ss))"

definition path_value :: "string \<Rightarrow> string" where
  "path_value s = (case PathUnescape s of None \<Rightarrow> s | Some t \<Rightarrow> t)"

fun match_path :: "pat list \<Rightarrow> string list \<Rightarrow> string list option" where
  "match_path [] [] = Some []"
| "match_path (Lit l # ps) (s # ss) = (if path_value s = l then match_path ps ss else None)"
| "match_path (Wild # ps) (s # ss) = map_option (\<lambda>vs. path_value s # vs) (match_path ps ss)"
| "match_path _ _ = None"

record 'h route =
  ro_method :: string
  ro_path :: "pat list"
  ro_handler :: "string list \<Rightarrow> 'h"

definition serves :: "string \<Rightarrow> string \<Rightarrow> bool" where
  "serves pattern_method request_method \<longleftrightarrow>
     pattern_method = request_method \<or> pattern_method = ''GET'' \<and> request_method = ''HEAD''"

definition clean_segments :: "string list \<Rightarrow> bool" where
  "clean_segments ss \<longleftrightarrow> (\<forall>s \<in> set ss. s \<noteq> ''.'' \<and> s \<noteq> ''..'') \<and> [] \<notin> set (butlast ss)"

fun first_route :: "'h route list \<Rightarrow> string \<Rightarrow> string list \<Rightarrow> ('h + bool)" where
  \<comment> \<open>the handler, or whether the path is served under another method\<close>
  "first_route [] m ss = Inr False"
| "first_route (r # rs) m ss =
     (case match_path (ro_path r) ss of
        None \<Rightarrow> first_route rs m ss
      | Some vs \<Rightarrow>
          if serves (ro_method r) m then Inl (ro_handler r vs)
          else (case first_route rs m ss of Inl h \<Rightarrow> Inl h | Inr _ \<Rightarrow> Inr True))"

text \<open>\<open>plain\<close> makes an answer of the router's own into one of the kind the handlers give.\<close>

definition serve_mux :: "(response \<Rightarrow> 'r) \<Rightarrow> (request \<Rightarrow> 'r) route list \<Rightarrow> request \<Rightarrow> 'r" where
  "serve_mux plain rs rq =
     (case split_on (CHR ''/'') (rq_target rq) of
        [] # ss \<Rightarrow>
          if \<not> clean_segments ss then plain \<lparr> rs_status = 301, rs_type = [], rs_body = [] \<rparr>
          else
          (case first_route rs (rq_method rq) ss of
             Inl h \<Rightarrow> h rq
           | Inr True \<Rightarrow> plain (http_Error ''Method Not Allowed'' 405)
           | Inr False \<Rightarrow> plain (http_Error ''404 page not found'' 404))
      | _ \<Rightarrow> plain (http_Error ''404 page not found'' 404))"

section \<open>A client\<close>

text \<open>
  \<open>cl_parse\<close> is the error of \<^verbatim>\<open>http.NewRequestWithContext\<close> for a URL it cannot parse, \<open>cl_do\<close>
  is \<^verbatim>\<open>http.Client.Do\<close>: an error, a deadline that ran out included, or the response with its
  whole body.
\<close>

record client =
  cl_parse :: "string \<Rightarrow> err option"
  cl_do :: "request \<Rightarrow> response res"

text \<open>The client is connected to a server that answers for the URLs under \<open>base\<close>.\<close>

definition connected :: "client \<Rightarrow> string \<Rightarrow> handler \<Rightarrow> bool" where
  "connected C base srv \<longleftrightarrow>
     (\<forall>path. cl_parse C (base @ CHR ''/'' # path) = None) \<and>
     (\<forall>rq path. rq_target rq = base @ CHR ''/'' # path \<longrightarrow>
        (case srv (rq\<lparr>rq_target := CHR ''/'' # path\<rparr>) of
           None \<Rightarrow> \<exists>e. cl_do C rq = Inl e
         | Some rs \<Rightarrow> cl_do C rq = Inr rs))"

text \<open>
  What both clients of the repository do with a request: a failure of the transport, a status
  outside 2xx and a body whose first JSON value does not decode are errors, under the two
  sentinels of the client. At most \<^verbatim>\<open>maxResponseBody\<close> bytes of the body are read.
\<close>

definition maxResponseBody :: nat where
  "maxResponseBody = 2 ^ 20"

definition status_2xx :: "response \<Rightarrow> bool" where
  "status_2xx rs \<longleftrightarrow> \<not> (rs_status rs < 200 \<or> rs_status rs \<ge> 300)"

definition do_request :: "sentinel \<Rightarrow> sentinel \<Rightarrow> client \<Rightarrow> request \<Rightarrow> response res" where
  "do_request unreachable invalid C rq =
     (case cl_do C rq of
        Inl e \<Rightarrow> Inl (Joined (Sentinel unreachable) '': '' e)
      | Inr rs \<Rightarrow>
          if \<not> status_2xx rs
          then Inl (Wrapped [] (Sentinel invalid) ('': status '' @ dec_nat (rs_status rs)))
          else Inr rs)"

definition do_json :: "sentinel \<Rightarrow> sentinel \<Rightarrow> client \<Rightarrow> request \<Rightarrow> 'a jdec \<Rightarrow> 'a \<Rightarrow> 'a res" where
  "do_json unreachable invalid C rq d x0 =
     (case do_request unreachable invalid C rq of
        Inl e \<Rightarrow> Inl e
      | Inr rs \<Rightarrow>
     (case json_Decode d x0 maxResponseBody (rs_body rs) of
        Inl e \<Rightarrow> Inl (Joined (Sentinel invalid) '': '' e)
      | Inr x \<Rightarrow> Inr x))"

lemma do_request_Inr: "do_request u i C rq = Inr rs \<longleftrightarrow> cl_do C rq = Inr rs \<and> status_2xx rs"
  by (auto simp: do_request_def split: sum.splits)

lemma do_json_Inr:
  "do_json u i C rq d x0 = Inr x \<longleftrightarrow>
     (\<exists>rs. cl_do C rq = Inr rs \<and> status_2xx rs \<and> json_Decode d x0 maxResponseBody (rs_body rs) = Inr x)"
  by (auto simp: do_json_def do_request_def split: sum.splits)

lemma do_request_Inl: "do_request u i C rq = Inl e \<Longrightarrow> err_is e u \<or> err_is e i"
  by (auto simp: do_request_def split: sum.splits if_splits)

lemma do_json_Inl: "do_json u i C rq d x0 = Inl e \<Longrightarrow> err_is e u \<or> err_is e i"
  by (auto simp: do_json_def dest: do_request_Inl split: sum.splits)

section \<open>Escaping\<close>

lemma upper_hex_value:
  "i < 16 \<Longrightarrow> hex_value (upper_hex ! i) = Some i \<and> upper_hex ! i \<noteq> CHR ''/''"
proof -
  assume "i < 16"
  then have "i \<in> set [0..<16]" by simp
  moreover have "\<forall>i \<in> set [0..<16]. hex_value (upper_hex ! i) = Some i \<and> upper_hex ! i \<noteq> CHR ''/''"
    unfolding upper_hex_def hex_value_def by code_simp
  ultimately show ?thesis by blast
qed

lemma segment_char_plain: "segment_char c \<Longrightarrow> c \<noteq> CHR ''%'' \<and> c \<noteq> CHR ''/''"
  by (auto simp: segment_char_def)

lemma nibbles: "(of_char c :: nat) div 16 < 16" "(of_char c :: nat) mod 16 < 16"
  using of_char_nat_bound [of c] by (simp_all add: div_less_iff_less_mult)

lemma unescape_char_step: "PathUnescape (escape_char c @ s) = map_option (\<lambda>r. c # r) (PathUnescape s)"
proof (cases "segment_char c")
  case True
  then show ?thesis by (simp add: escape_char_def segment_char_plain)
next
  case False
  have "(char_of ((of_char c :: nat) div 16 * 16 + of_char c mod 16) :: char) = c"
    by (simp only: div_mult_mod_eq char_of_char)
  with False nibbles [of c] show ?thesis by (simp add: escape_char_def upper_hex_value)
qed

lemma PathUnescape_Escape [simp]: "PathUnescape (PathEscape s) = Some s"
  unfolding PathEscape_def by (induction s) (simp_all add: unescape_char_step)

lemma path_value_escape [simp]: "path_value (PathEscape s) = s"
  by (simp add: path_value_def)

lemma no_slash_escape: "CHR ''/'' \<notin> set (PathEscape s)"
proof -
  have "CHR ''/'' \<notin> set (escape_char c)" for c
    using nibbles [of c] upper_hex_value [of "of_char c div 16"] upper_hex_value [of "of_char c mod 16"]
      segment_char_plain [of c]
    by (auto simp: escape_char_def split: if_splits)
  then show ?thesis by (simp add: PathEscape_def)
qed

lemma escape_eq: "PathEscape s = PathEscape t \<longleftrightarrow> s = t"
  by (metis PathUnescape_Escape option.inject)

lemma escape_dots:
  "PathEscape s = [] \<longleftrightarrow> s = []" "PathEscape s = ''.'' \<longleftrightarrow> s = ''.''" "PathEscape s = ''..'' \<longleftrightarrow> s = ''..''"
proof -
  have dot: "PathEscape [] = []" "PathEscape ''.'' = ''.''" "PathEscape ''..'' = ''..''"
    by (simp_all add: PathEscape_def escape_char_def segment_char_def)
  show "PathEscape s = [] \<longleftrightarrow> s = []" "PathEscape s = ''.'' \<longleftrightarrow> s = ''.''" "PathEscape s = ''..'' \<longleftrightarrow> s = ''..''"
    using dot escape_eq [of s] by metis+
qed

section \<open>A server's JSON at a client\<close>

definition json_response :: "nat \<Rightarrow> goval \<Rightarrow> response" where
  "json_response status v = \<lparr> rs_status = status, rs_type = ''application/json'', rs_body = encode v \<rparr>"

lemma Decode_text:
  assumes "marshal v = Inr raw" "readable v" "depth v \<le> maxNestingDepth" "length raw \<le> limit" "\<nexists>n. v = VNum n"
  shows "json_Decode d x0 limit (raw @ rest) = decoded d x0 (Some (syntax_of v))"
proof -
  have "raw = bytes_of (render v)" using assms(1) by (auto simp: marshal_def split: option.splits)
  then have "string_of (take limit (raw @ rest)) = render v @ string_of (take (limit - length raw) rest)"
    using assms(4) by simp
  with read_render [OF assms(2,3)] assms(5) show ?thesis by (simp add: json_Decode_def)
qed

lemma encode_read:
  assumes "first_fail v = None" "readable v" "depth v \<le> maxNestingDepth" "d (syntax_of v) x0 = Some x"
    and "length (encode v) \<le> limit" "\<nexists>n. v = VNum n"
  shows "json_Decode d x0 limit (encode v) = Inr x"
proof -
  obtain raw where raw: "marshal v = Inr raw" using assms(1) by (simp add: marshal_def)
  then have e: "encode v = raw @ [10]" by (simp add: encode_def)
  have "length raw \<le> limit" using assms(5) by (simp add: e)
  from Decode_written [where d = d and rest = "[10]", OF raw assms(2,3,4) this assms(6)]
  show ?thesis by (simp add: e)
qed

lemma connected_answer:
  assumes "connected C base srv" "rq_target rq = base @ CHR ''/'' # path"
    and "srv (rq\<lparr>rq_target := CHR ''/'' # path\<rparr>) = Some rs"
  shows "cl_do C rq = Inr rs"
  using assms unfolding connected_def by fastforce

lemma connected_panic:
  assumes "connected C base srv" "rq_target rq = base @ CHR ''/'' # path"
    and "srv (rq\<lparr>rq_target := CHR ''/'' # path\<rparr>) = None"
  shows "\<exists>e. cl_do C rq = Inl e"
  using assms unfolding connected_def by fastforce

text \<open>The connection that delivers everything: what the witnesses talk over.\<close>

definition loopback :: "string \<Rightarrow> handler \<Rightarrow> client" where
  "loopback base srv =
     \<lparr> cl_parse = (\<lambda>url. None),
       cl_do = (\<lambda>rq. case srv (rq\<lparr>rq_target := drop (length base) (rq_target rq)\<rparr>) of
                      None \<Rightarrow> Inl (LibErr ''EOF'') | Some rs \<Rightarrow> Inr rs) \<rparr>"

lemma connected_loopback: "connected (loopback base srv) base srv"
  by (auto simp: connected_def loopback_def split: option.split)

section \<open>Splitting a path\<close>

lemma split_on_plain: "d \<notin> set s \<Longrightarrow> split_on d s = [s]"
  by (induction s) auto

lemma split_on_append: "d \<notin> set s \<Longrightarrow> split_on d (s @ d # t) = s # split_on d t"
  by (induction s) auto

end
