(* ===== verification/Http_Shell.thy ===== *)
theory Http_Shell
  imports Verify Seal_Wire Go_Http
begin

text \<open>
  \<^verbatim>\<open>internal/adapters/http\<close>: the HTTP API over \<open>Seal\<close> and \<open>Verify\<close>. A handler that may have
  effects maps the world to an answer and the world after it; the time \<^verbatim>\<open>time.Now().UTC()\<close>
  gives and the answers of the authorizer and the probers are arguments.
\<close>

section \<open>Answers\<close>

text \<open>\<^verbatim>\<open>problem.go\<close>\<close>

definition problemContentType :: string where
  "problemContentType = ''application/problem+json''"

definition typeMalformedRequest :: string where
  "typeMalformedRequest = ''urn:chainbind:problem:malformed-request''"

definition typeUnsupportedMedia :: string where
  "typeUnsupportedMedia = ''urn:chainbind:problem:unsupported-media-type''"

definition typeUnauthorized :: string where
  "typeUnauthorized = ''urn:chainbind:problem:unauthorized''"

definition typeForbidden :: string where
  "typeForbidden = ''urn:chainbind:problem:forbidden''"

definition typeIntentDenied :: string where
  "typeIntentDenied = ''urn:chainbind:problem:intent-denied''"

definition typeAuthorityDown :: string where
  "typeAuthorityDown = ''urn:chainbind:problem:authority-unreachable''"

definition typeUnsupportedSpec :: string where
  "typeUnsupportedSpec = ''urn:chainbind:problem:unsupported-spec-version''"

definition typeServiceNotReady :: string where
  "typeServiceNotReady = ''urn:chainbind:problem:not-ready''"

record problem =
  pb_Type :: string
  pb_Title :: string
  pb_Status :: nat
  pb_Detail :: string

definition problem_val :: "problem \<Rightarrow> goval" where
  "problem_val p = VObj [(''type'', VStr (pb_Type p)), (''title'', VStr (pb_Title p)),
     (''status'', VNum (dec_nat (pb_Status p))), (''detail'', VStr (pb_Detail p))]"

definition writeProblem :: "nat \<Rightarrow> string \<Rightarrow> string \<Rightarrow> string \<Rightarrow> response" where
  "writeProblem status typ title detail =
     \<lparr> rs_status = status, rs_type = problemContentType,
       rs_body = encode (problem_val \<lparr> pb_Type = typ, pb_Title = title, pb_Status = status, pb_Detail = detail \<rparr>) \<rparr>"

definition shell_writeJSON :: "nat \<Rightarrow> goval \<Rightarrow> response" where
  "shell_writeJSON status v = json_response status v"

section \<open>Requests\<close>

text \<open>\<^verbatim>\<open>strings.TrimSpace\<close>: every encoding of a rune with the White_Space property.\<close>

definition space_runes :: "string list" where
  "space_runes =
     [[CHR 0x09], [CHR 0x0A], [CHR 0x0B], [CHR 0x0C], [CHR 0x0D], [CHR 0x20],
      [CHR 0xC2, CHR 0x85], [CHR 0xC2, CHR 0xA0], [CHR 0xE1, CHR 0x9A, CHR 0x80],
      [CHR 0xE2, CHR 0x80, CHR 0xA8], [CHR 0xE2, CHR 0x80, CHR 0xA9], [CHR 0xE2, CHR 0x80, CHR 0xAF],
      [CHR 0xE2, CHR 0x81, CHR 0x9F], [CHR 0xE3, CHR 0x80, CHR 0x80]]
     @ map (\<lambda>i. [CHR 0xE2, CHR 0x80, char_of (0x80 + i)]) [0..<11]"

function trim_left :: "string list \<Rightarrow> string \<Rightarrow> string" where
  "trim_left us s =
     (case find (\<lambda>u. u \<noteq> [] \<and> take (length u) s = u) us of
        None \<Rightarrow> s
      | Some u \<Rightarrow> trim_left us (drop (length u) s))"
  by pat_completeness auto

termination
  by (relation "measure (\<lambda>(us, s). length s)") (auto simp: find_Some_iff intro!: diff_less)

declare trim_left.simps [simp del]

definition TrimSpace :: "string \<Rightarrow> string" where
  "TrimSpace s = rev (trim_left (map rev space_runes) (rev (trim_left space_runes s)))"

text \<open>A string of no white space is left alone, and the line feed after it goes.\<close>

lemma trim_left_stop: "s = [] \<or> hd s \<notin> hd ` set us \<Longrightarrow> trim_left us s = s"
proof -
  assume s: "s = [] \<or> hd s \<notin> hd ` set us"
  have "find (\<lambda>u. u \<noteq> [] \<and> take (length u) s = u) us = None"
  proof (unfold find_None_iff, intro notI, elim exE conjE)
    fix u assume "u \<in> set us" "u \<noteq> []" "take (length u) s = u"
    with s show False by (cases u; cases s) force+
  qed
  then show ?thesis by (subst trim_left.simps) simp
qed

definition trims :: "char \<Rightarrow> bool" where
  "trims c \<longleftrightarrow> c \<in> hd ` set space_runes \<union> last ` set space_runes"

lemma TrimSpace_line:
  assumes "list_all (\<lambda>c. \<not> trims c) s"
  shows "TrimSpace s = s" "s \<noteq> [] \<Longrightarrow> TrimSpace (s @ [CHR 0x0A]) = s"
proof -
  have left: "trim_left space_runes (s @ t) = s @ t" if "s \<noteq> [] \<or> t = []" for t
    using that assms by (intro trim_left_stop) (cases s; auto simp: trims_def list_all_iff)
  have heads: "hd ` set (map rev space_runes) = last ` set space_runes"
    by (simp add: image_image hd_rev)
  have right: "trim_left (map rev space_runes) (rev s) = rev s"
  proof (rule trim_left_stop)
    show "rev s = [] \<or> hd (rev s) \<notin> hd ` set (map rev space_runes)"
      unfolding heads using assms by (cases s rule: rev_cases) (auto simp: trims_def list_all_iff)
  qed
  show "TrimSpace s = s" using left [of "[]"] right by (simp add: TrimSpace_def)
  assume s: "s \<noteq> []"
  have "find (\<lambda>u. u \<noteq> [] \<and> take (length u) (CHR 0x0A # rev s) = u) (map rev space_runes) = Some [CHR 0x0A]"
    by (simp add: space_runes_def)
  then have "trim_left (map rev space_runes) (CHR 0x0A # rev s) = rev s"
    by (subst trim_left.simps) (simp add: right)
  with s left [of "[CHR 0x0A]"] show "TrimSpace (s @ [CHR 0x0A]) = s" by (simp add: TrimSpace_def)
qed

definition hasJSONContentType :: "request \<Rightarrow> bool" where
  "hasJSONContentType r \<longleftrightarrow>
     TrimSpace (takeWhile (\<lambda>c. c \<noteq> CHR '';'') (header_get r ''Content-Type'')) = ''application/json''"

definition TrimPrefix :: "string \<Rightarrow> string \<Rightarrow> string" where
  "TrimPrefix s pre = (if take (length pre) s = pre then drop (length pre) s else s)"

definition bearerToken :: "request \<Rightarrow> string" where
  "bearerToken r =
     (let h = header_get r ''Authorization'' in
      if take 7 h \<noteq> ''Bearer '' then [] else TrimPrefix h ''Bearer '')"

section \<open>The seal route\<close>

text \<open>\<^verbatim>\<open>auth.go\<close>: \<open>authz\<close> is the answer of the authorizer, \<open>None\<close> for the nil error.\<close>

definition requireIssuerAdmin ::
  "(string \<Rightarrow> err option) \<Rightarrow> (request \<Rightarrow> world \<Rightarrow> response \<times> world) \<Rightarrow> request \<Rightarrow> world \<Rightarrow> response \<times> world" where
  "requireIssuerAdmin authz nxt r w =
     (case authz (bearerToken r) of
        None \<Rightarrow> nxt r w
      | Some e \<Rightarrow>
          if err_is e ErrForbidden
          then (writeProblem 403 typeForbidden ''forbidden'' ''missing required role'', w)
          else (writeProblem 401 typeUnauthorized ''unauthorized'' ''missing or invalid bearer token'', w))"

definition maxSealRequestBody :: nat where
  "maxSealRequestBody = 2 ^ 20"

record seal_deps =
  dp_signer :: signer
  dp_keyWrapper :: key_wrapper
  dp_intent :: intent_verifier
  dp_audiences :: "audience list"
  dp_issuerID :: string

fun str_index :: "string \<Rightarrow> string \<Rightarrow> nat option" where
  "str_index sub [] = (if sub = [] then Some 0 else None)"
| "str_index sub (c # cs) =
     (if take (length sub) (c # cs) = sub then Some 0 else map_option Suc (str_index sub cs))"

definition intentDeniedReason :: "err \<Rightarrow> string" where
  "intentDeniedReason e =
     (let sentinel = sentinel_text ErrIntentDenied; msg = err_text e in
      case str_index sentinel msg of
        None \<Rightarrow> []
      | Some idx \<Rightarrow> TrimPrefix (drop (idx + length sentinel) msg) '': '')"

definition writeSealError :: "err \<Rightarrow> response" where
  "writeSealError e =
     (if err_is e ErrIntentDenied
      then writeProblem 422 typeIntentDenied ''intent denied'' (intentDeniedReason e)
      else writeProblem 502 typeAuthorityDown ''authority unreachable''
             ''the intent authority could not be reached'')"

definition seal_request_of ::
  "prims \<Rightarrow> seal_deps \<Rightarrow> gotime \<Rightarrow> payload \<Rightarrow> (string, gobytes) fmap \<Rightarrow> projection \<Rightarrow> seal_request" where
  "seal_request_of P deps now payload segments projection =
     \<lparr> sr_Segments = segments, sr_SegmentOrder = profile_SegmentOrder, sr_Audiences = dp_audiences deps,
       sr_IntentRef = ci_IntentRef (pl_Intent payload), sr_Authority = ci_Authority (pl_Intent payload),
       sr_Projection = projection_val projection, sr_Issuer = dp_issuerID deps, sr_IssuedAt = now,
       sr_TenantID = rc_TenantID (pl_RequestContext payload),
       sr_Environment = rc_Environment (pl_RequestContext payload), sr_Profile = Name,
       sr_BindingSpecs = BindingSpecs P \<rparr>"

definition sealHandler :: "prims \<Rightarrow> seal_deps \<Rightarrow> gotime \<Rightarrow> request \<Rightarrow> world \<Rightarrow> response \<times> world" where
  "sealHandler P deps now r w =
     (if \<not> hasJSONContentType r
      then (writeProblem 415 typeUnsupportedMedia ''unsupported media type''
              ''Content-Type must be application/json'', w)
      else
     (case json_Decode dec_payload payload0 maxSealRequestBody (rq_body r) of
        Inl e \<Rightarrow> (writeProblem 400 typeMalformedRequest ''malformed request'' ''invalid or oversized payload'', w)
      | Inr payload \<Rightarrow>
     (case Split (PayloadValue payload) of
        Inl e \<Rightarrow> (writeProblem 400 typeMalformedRequest ''malformed request''
                    ''payload does not match the agentic-checkout shape'', w)
      | Inr segments \<Rightarrow>
     (case Project (PayloadValue payload) of
        Inl e \<Rightarrow> (writeProblem 400 typeMalformedRequest ''malformed request''
                    ''payload does not match the agentic-checkout shape'', w)
      | Inr projection \<Rightarrow>
     (case Seal P (seal_request_of P deps now payload segments projection)
             (dp_signer deps) (dp_keyWrapper deps) (dp_intent deps) w of
        (Inl e, w) \<Rightarrow> (writeSealError e, w)
      | (Inr pkg, w) \<Rightarrow> (shell_writeJSON 200 (package_val pkg), w))))))"

definition issuerKeyResolver :: "string \<Rightarrow> bytes \<Rightarrow> string \<Rightarrow> string \<Rightarrow> bytes option" where
  "issuerKeyResolver expectedKid pub iss kid = (if kid \<noteq> expectedKid then None else Some pub)"

section \<open>The other routes\<close>

definition maxVerifyRequestBody :: nat where
  "maxVerifyRequestBody = 2 ^ 20"

text \<open>\<^verbatim>\<open>encoding/json\<close> on a \<^verbatim>\<open>Report\<close>: exported names, nil maps as null, the fault as its text.\<close>

definition flags_val :: "(string, bool) fmap option \<Rightarrow> goval" where
  "flags_val m = (case m of None \<Rightarrow> VNull | Some m \<Rightarrow> vmap VBool m)"

definition report_val :: "report \<Rightarrow> goval" where
  "report_val r = VObj
     [(''SpecVersionSupported'', VBool (rp_SpecVersionSupported r)),
      (''Structural'', VStr (fault_String (rp_Structural r))),
      (''Signature'', VBool (rp_Signature r)),
      (''AADContextConsistent'', VBool (rp_AADContextConsistent r)),
      (''CipherHashes'', flags_val (rp_CipherHashes r)),
      (''SegmentsRoot'', VBool (rp_SegmentsRoot r)),
      (''ProfileBindings'', flags_val (rp_ProfileBindings r)),
      (''Intent'', VObj [(''Evaluated'', VBool (ir_Evaluated (rp_Intent r))),
                         (''Valid'', VBool (ir_Valid (rp_Intent r))),
                         (''Reason'', VStr (ir_Reason (rp_Intent r)))])]"

record verify_opts =
  vp_issuerKey :: "string \<Rightarrow> string \<Rightarrow> bytes option"
  vp_intent :: intent_verifier

definition verifyHandler :: "prims \<Rightarrow> read_lib \<Rightarrow> verify_opts \<Rightarrow> request \<Rightarrow> world \<Rightarrow> response \<times> world" where
  "verifyHandler P R opts r w =
     (if \<not> hasJSONContentType r
      then (writeProblem 415 typeUnsupportedMedia ''unsupported media type''
              ''Content-Type must be application/json'', w)
      else
     (case json_Decode (dec_package R) package0 maxVerifyRequestBody (rq_body r) of
        Inl e \<Rightarrow> (writeProblem 400 typeMalformedRequest ''malformed request'' ''invalid or oversized package'', w)
      | Inr pkg \<Rightarrow>
     (case Verify_w P (Some pkg) \<lparr> vo_IssuerKey = Some (vp_issuerKey opts), vo_Intent = Some (vp_intent opts),
                                  vo_BindingSpecs = BindingSpecs P \<rparr> w of
        (Inl e, w) \<Rightarrow> (writeProblem 400 typeMalformedRequest ''malformed request'' ''package could not be processed'', w)
      | (Inr report, w) \<Rightarrow>
          if \<not> rp_SpecVersionSupported report
          then (writeProblem 422 typeUnsupportedSpec ''unsupported spec_version''
                  (''this build does not recognise the package'' @ [CHR 0x27] @ ''s spec_version''), w)
          else (shell_writeJSON 200 (report_val report), w))))"

definition healthHandler :: "request \<Rightarrow> response" where
  "healthHandler r = shell_writeJSON 200 (VObj [(''status'', VStr ''ok'')])"

text \<open>A prober is what its \<^verbatim>\<open>Ping\<close> answers for the request; that it was pinged is an event.\<close>

record namedProber =
  np_name :: string
  np_Ping :: "err option"

fun readyHandler :: "namedProber list \<Rightarrow> request \<Rightarrow> world \<Rightarrow> response \<times> world" where
  "readyHandler [] r w = (shell_writeJSON 200 (VObj [(''status'', VStr ''ready'')]), w)"
| "readyHandler (np # probers) r w =
     (let w = emit (EvPing (np_name np)) w in
      case np_Ping np of
        Some e \<Rightarrow> (writeProblem 503 typeServiceNotReady ''not ready'' (np_name np), w)
      | None \<Rightarrow> readyHandler probers r w)"

record handler_config =
  hc_Authorizer :: "string \<Rightarrow> err option"
  hc_Signer :: signer
  hc_KeyWrapper :: key_wrapper
  hc_Audiences :: "audience list"
  hc_IssuerID :: string
  hc_IntentVerifier :: intent_verifier
  hc_IssuerKey :: "string \<Rightarrow> string \<Rightarrow> bytes option"
  hc_VaultProber :: "err option"
  hc_AuthorityProber :: "err option"

definition config_deps :: "handler_config \<Rightarrow> seal_deps" where
  "config_deps cfg =
     \<lparr> dp_signer = hc_Signer cfg, dp_keyWrapper = hc_KeyWrapper cfg, dp_intent = hc_IntentVerifier cfg,
       dp_audiences = hc_Audiences cfg, dp_issuerID = hc_IssuerID cfg \<rparr>"

definition config_opts :: "handler_config \<Rightarrow> verify_opts" where
  "config_opts cfg = \<lparr> vp_issuerKey = hc_IssuerKey cfg, vp_intent = hc_IntentVerifier cfg \<rparr>"

text \<open>The health route and the router's own answers have no effects: they hand on the world they were given.\<close>

definition effectless :: "response \<Rightarrow> world \<Rightarrow> response \<times> world" where
  "effectless rs w = (rs, w)"

definition NewHandler ::
  "prims \<Rightarrow> read_lib \<Rightarrow> handler_config \<Rightarrow> gotime \<Rightarrow> request \<Rightarrow> world \<Rightarrow> response \<times> world" where
  "NewHandler P R cfg now = serve_mux effectless
     [\<lparr> ro_method = ''POST'', ro_path = [Lit ''v1'', Lit ''packages'', Lit ''seal''],
        ro_handler = (\<lambda>vs. requireIssuerAdmin (hc_Authorizer cfg) (sealHandler P (config_deps cfg) now)) \<rparr>,
      \<lparr> ro_method = ''POST'', ro_path = [Lit ''v1'', Lit ''packages'', Lit ''verify''],
        ro_handler = (\<lambda>vs. verifyHandler P R (config_opts cfg)) \<rparr>,
      \<lparr> ro_method = ''GET'', ro_path = [Lit ''health''],
        ro_handler = (\<lambda>vs r. effectless (healthHandler r)) \<rparr>,
      \<lparr> ro_method = ''GET'', ro_path = [Lit ''ready''],
        ro_handler = (\<lambda>vs. readyHandler
          [\<lparr> np_name = ''vault'', np_Ping = hc_VaultProber cfg \<rparr>,
           \<lparr> np_name = ''intent-authority'', np_Ping = hc_AuthorityProber cfg \<rparr>]) \<rparr>]"

section \<open>The audiences file\<close>

definition x25519PublicKeySize :: nat where
  "x25519PublicKeySize = 32"

record audienceSeed =
  as_Name :: string
  as_Kid :: string
  as_PublicKey :: string

definition dec_audienceSeed :: "audienceSeed jdec" where
  "dec_audienceSeed = dec_struct
     [(''name'', at_field as_Name as_Name_update dec_string),
      (''kid'', at_field as_Kid as_Kid_update dec_string),
      (''public_key'', at_field as_PublicKey as_PublicKey_update dec_string)]"

fun audiences_loop :: "audienceSeed list \<Rightarrow> audience list res" where
  "audiences_loop [] = Inr []"
| "audiences_loop (s # ss) =
     (case raw_url_decode (as_PublicKey s) of
        None \<Rightarrow> Inl (LibErr (''http: audiences file: audience '' @ go_quote (as_Name s)
                      @ '': invalid public_key encoding''))
      | Some pub \<Rightarrow>
      if length pub \<noteq> x25519PublicKeySize
      then Inl (LibErr (''http: audiences file: audience '' @ go_quote (as_Name s)
                  @ '': public_key is not '' @ dec_nat x25519PublicKeySize @ '' bytes''))
      else
     (case audiences_loop ss of
        Inl e \<Rightarrow> Inl e
      | Inr auds \<Rightarrow> Inr (\<lparr> au_Name = as_Name s, au_PublicKey = pub, au_Kid = as_Kid s \<rparr> # auds)))"

text \<open>\<open>file\<close> is what \<^verbatim>\<open>os.ReadFile\<close> of the path comes back with.\<close>

definition LoadAudiences :: "bytes res \<Rightarrow> audience list res" where
  "LoadAudiences file =
     (case file of
        Inl e \<Rightarrow> Inl (errorf ''http: read audiences file: '' e)
      | Inr raw \<Rightarrow>
     (case json_Unmarshal (dec_list dec_audienceSeed \<lparr> as_Name = [], as_Kid = [], as_PublicKey = [] \<rparr>) [] raw of
        Inl e \<Rightarrow> Inl (errorf ''http: parse audiences file: '' e)
      | Inr seeds \<Rightarrow> audiences_loop seeds))"

text \<open>Key ids come out of JSON: they are valid text.\<close>

lemma audiences_loop_kid:
  "audiences_loop ss = Inr auds \<Longrightarrow> list_all (\<lambda>s. utf8_valid (as_Kid s)) ss \<Longrightarrow> list_all (\<lambda>a. utf8_valid (au_Kid a)) auds"
  by (induction ss arbitrary: auds) (auto split: option.splits sum.splits if_splits)

lemma LoadAudiences_kid:
  assumes "LoadAudiences file = Inr auds"
  shows "list_all (\<lambda>a. utf8_valid (au_Kid a)) auds"
proof -
  let ?s0 = "\<lparr> as_Name = [], as_Kid = [], as_PublicKey = [] \<rparr>"
  from assms obtain raw ss where
    ss: "json_Unmarshal (dec_list dec_audienceSeed ?s0) [] raw = Inr ss" "audiences_loop ss = Inr auds"
    by (auto simp: LoadAudiences_def split: sum.splits)
  have "keeps (\<lambda>s. utf8_valid (as_Kid s)) dec_audienceSeed"
    unfolding dec_audienceSeed_def
    by (rule keeps_struct)
      (auto intro: keeps_field [OF keeps_string, where Q = "\<lambda>s. utf8_valid (as_Kid s)"]
        keeps_field [OF keeps_any, where Q = "\<lambda>s. utf8_valid (as_Kid s)"])
  then have "keeps (list_all (\<lambda>s. utf8_valid (as_Kid s))) (dec_list dec_audienceSeed ?s0)"
    by (rule keeps_list) simp
  from Unmarshal_keeps [OF this _ ss(1)] audiences_loop_kid [OF ss(2)] show ?thesis by simp
qed

section \<open>Who gets how far\<close>

lemma shell_literals [simp]:
  "path_value ''v1'' = ''v1''" "path_value ''packages'' = ''packages''" "path_value ''seal'' = ''seal''"
  "path_value ''verify'' = ''verify''" "path_value ''health'' = ''health''" "path_value ''ready'' = ''ready''"
  by (simp_all add: path_value_def)

text \<open>A request for the seal route: its path unescapes to the route's.\<close>

definition seal_target :: "request \<Rightarrow> bool" where
  "seal_target rq \<longleftrightarrow> rq_method rq = ''POST'' \<and>
     (\<exists>ss. split_on (CHR ''/'') (rq_target rq) = [] # ss \<and> clean_segments ss \<and>
        map path_value ss = [''v1'', ''packages'', ''seal''])"

definition verify_target :: "request \<Rightarrow> bool" where
  "verify_target rq \<longleftrightarrow> rq_method rq = ''POST'' \<and>
     (\<exists>ss. split_on (CHR ''/'') (rq_target rq) = [] # ss \<and> clean_segments ss \<and>
        map path_value ss = [''v1'', ''packages'', ''verify''])"

definition ready_target :: "request \<Rightarrow> bool" where
  "ready_target rq \<longleftrightarrow> rq_method rq \<in> {''GET'', ''HEAD''} \<and>
     (\<exists>ss. split_on (CHR ''/'') (rq_target rq) = [] # ss \<and> clean_segments ss \<and> map path_value ss = [''ready''])"

lemma effectless_snd [simp]: "snd (effectless rs w) = w" "fst (effectless rs w) = rs"
  by (simp_all add: effectless_def)

lemma match_lits: "match_path (map Lit ls) ss = (if map path_value ss = ls then Some [] else None)"
proof (induction ls arbitrary: ss)
  case Nil
  then show ?case by (cases ss) simp_all
next
  case (Cons l ls)
  then show ?case by (cases ss) simp_all
qed

lemmas match_routes = match_lits [of "[a]" for a, simplified] match_lits [of "[a, b, c]" for a b c, simplified]

lemma NewHandler_seal:
  "seal_target rq \<Longrightarrow>
     NewHandler P R cfg now rq = requireIssuerAdmin (hc_Authorizer cfg) (sealHandler P (config_deps cfg) now) rq"
  by (auto simp: seal_target_def NewHandler_def serve_mux_def match_routes serves_def)

lemma NewHandler_verify:
  "verify_target rq \<Longrightarrow> NewHandler P R cfg now rq = verifyHandler P R (config_opts cfg) rq"
  by (auto simp: verify_target_def NewHandler_def serve_mux_def match_routes serves_def)

lemma NewHandler_ready:
  "ready_target rq \<Longrightarrow>
     NewHandler P R cfg now rq = readyHandler
       [\<lparr> np_name = ''vault'', np_Ping = hc_VaultProber cfg \<rparr>,
        \<lparr> np_name = ''intent-authority'', np_Ping = hc_AuthorityProber cfg \<rparr>] rq"
  by (auto simp: ready_target_def NewHandler_def serve_mux_def match_routes serves_def)

lemma NewHandler_other:
  "\<not> seal_target rq \<Longrightarrow> \<not> verify_target rq \<Longrightarrow> \<not> ready_target rq \<Longrightarrow> \<exists>rs. NewHandler P R cfg now rq = effectless rs"
  by (auto simp: seal_target_def verify_target_def ready_target_def NewHandler_def serve_mux_def match_routes serves_def
      split: list.splits sum.splits bool.splits)

end
