(* ===== verification/Shell_Api.thy ===== *)
theory Shell_Api
  imports Http_Shell
begin

text \<open>
  What the API promises: who gets to seal, what anybody can have the server ask, what a client is
  told of a denial and of any other failure, and that the package one route answers with is
  one the other route reports on as valid.
\<close>

section \<open>The seal route\<close>

text \<open>How far a request got when the answer is 200.\<close>

lemma sealHandler_ok:
  assumes "sealHandler P deps now r w = (rs, w')" "rs_status rs = 200"
  obtains payload segments projection pkg where
    "hasJSONContentType r" "json_Decode dec_payload payload0 maxSealRequestBody (rq_body r) = Inr payload"
    "Split (PayloadValue payload) = Inr segments" "Project (PayloadValue payload) = Inr projection"
    "Seal P (seal_request_of P deps now payload segments projection)
       (dp_signer deps) (dp_keyWrapper deps) (dp_intent deps) w = (Inr pkg, w')"
    "rs = shell_writeJSON 200 (package_val pkg)"
  using assms
  by (auto simp: sealHandler_def writeProblem_def writeSealError_def
      split: if_splits sum.splits prod.splits)

lemma sealHandler_effect:
  assumes "sealHandler P deps now r w = (rs, w')" "w' \<noteq> w"
  shows "hasJSONContentType r"
    and "\<exists>payload. json_Decode dec_payload payload0 maxSealRequestBody (rq_body r) = Inr payload"
  using assms by (auto simp: sealHandler_def split: if_splits sum.splits prod.splits)

lemma requireIssuerAdmin_cases:
  "requireIssuerAdmin authz nxt r w =
     (case authz (bearerToken r) of
        None \<Rightarrow> nxt r w
      | Some e \<Rightarrow> (fst (requireIssuerAdmin authz nxt r w), w))"
  by (simp add: requireIssuerAdmin_def split: option.split)

text \<open>
  What every route can do to the world. Only an authorized request for the seal route draws
  entropy, wraps or signs. The verify route, open to everybody, asks the authority one
  question, and only about a package whose Level 1 stands under the server's own key; the
  ready route pings.
\<close>

lemma verifyHandler_effect:
  assumes "verifyHandler P R opts r w = (rs, w')" "w' \<noteq> w"
  obtains p where "hasJSONContentType r" "json_Decode (dec_package R) package0 maxVerifyRequestBody (rq_body r) = Inr p"
    "level1_valid P p \<lparr> vo_IssuerKey = Some (vp_issuerKey opts), vo_Intent = Some (vp_intent opts),
       vo_BindingSpecs = BindingSpecs P \<rparr>"
    "w' = emit (EvConstraintsHash (in_intent_ref (pk_intent p))) w"
proof -
  let ?opt = "\<lparr> vo_IssuerKey = Some (vp_issuerKey opts), vo_Intent = Some (vp_intent opts), vo_BindingSpecs = BindingSpecs P \<rparr>"
  obtain p where json: "hasJSONContentType r" "json_Decode (dec_package R) package0 maxVerifyRequestBody (rq_body r) = Inr p"
    using assms by (auto simp: verifyHandler_def split: if_splits sum.splits)
  obtain report where report: "Verify P (Some p) ?opt = Inr report" using Verify_total by blast
  from assms json have "level1Passed report \<and> w' = emit (EvConstraintsHash (in_intent_ref (pk_intent p))) w"
    by (auto simp: verifyHandler_def Verify_w_Some [OF report] split: if_splits)
  moreover from this have "level1_valid P p ?opt"
    using Verify_Level1 [OF report] BindingSpecs_distinct by (simp add: report_Level1_def)
  ultimately show thesis using json that by blast
qed

lemma shell_effects:
  assumes "NewHandler P R cfg now rq w = (rs, w')" "w' \<noteq> w"
  shows "seal_target rq \<and> hc_Authorizer cfg (bearerToken rq) = None \<and> hasJSONContentType rq \<and>
      (\<exists>payload. json_Decode dec_payload payload0 maxSealRequestBody (rq_body rq) = Inr payload) \<or>
    verify_target rq \<and> hasJSONContentType rq \<and>
      (\<exists>p. json_Decode (dec_package R) package0 maxVerifyRequestBody (rq_body rq) = Inr p \<and>
         level1_valid P p \<lparr> vo_IssuerKey = Some (hc_IssuerKey cfg), vo_Intent = Some (hc_IntentVerifier cfg),
           vo_BindingSpecs = BindingSpecs P \<rparr> \<and>
         w' = emit (EvConstraintsHash (in_intent_ref (pk_intent p))) w) \<or>
    ready_target rq \<and>
      (w' = emit (EvPing ''vault'') w \<or> w' = emit (EvPing ''intent-authority'') (emit (EvPing ''vault'') w))"
    (is "?seal \<or> ?verify \<or> ?ready")
proof -
  consider "seal_target rq" | "verify_target rq" | "ready_target rq"
    using assms NewHandler_other [of rq P R cfg now] by (metis effectless_snd(1) snd_conv)
  then show ?thesis
  proof cases
    case 1
    with assms(1) have run: "requireIssuerAdmin (hc_Authorizer cfg) (sealHandler P (config_deps cfg) now) rq w = (rs, w')"
      by (simp add: NewHandler_seal)
    then have authorized: "hc_Authorizer cfg (bearerToken rq) = None"
      using assms(2) by (auto simp: requireIssuerAdmin_def split: option.splits if_splits)
    with run have "sealHandler P (config_deps cfg) now rq w = (rs, w')" by (simp add: requireIssuerAdmin_def)
    from sealHandler_effect [OF this assms(2)] 1 authorized show ?thesis by blast
  next
    case 2
    with assms(1) have "verifyHandler P R (config_opts cfg) rq w = (rs, w')" by (simp add: NewHandler_verify)
    then have ?verify
      by (rule verifyHandler_effect [OF _ assms(2)]) (use 2 in \<open>auto simp: config_opts_def\<close>)
    then show ?thesis by blast
  next
    case 3
    with assms have ?ready by (auto simp: NewHandler_ready Let_def split: option.splits)
    then show ?thesis by blast
  qed
qed

text \<open>Nothing but questions: whether an authorization still stands, whether a dependency answers.\<close>

definition asked_only :: "world \<Rightarrow> world \<Rightarrow> bool" where
  "asked_only w w' \<longleftrightarrow>
     (\<exists>qs. w' = w\<lparr>trace := trace w @ qs\<rparr> \<and> set qs \<subseteq> range EvConstraintsHash \<union> range EvPing)"

lemma asked_only_refl: "asked_only w w"
  unfolding asked_only_def by (intro exI [of _ "[]"]) simp

lemma asked_only_emit: "asked_only w v \<Longrightarrow> e \<in> range EvConstraintsHash \<union> range EvPing \<Longrightarrow> asked_only w (emit e v)"
  unfolding asked_only_def
proof (elim exE conjE)
  fix qs
  assume "v = w\<lparr>trace := trace w @ qs\<rparr>" "set qs \<subseteq> range EvConstraintsHash \<union> range EvPing"
    and e: "e \<in> range EvConstraintsHash \<union> range EvPing"
  then show "\<exists>qs. emit e v = w\<lparr>trace := trace w @ qs\<rparr> \<and> set qs \<subseteq> range EvConstraintsHash \<union> range EvPing"
    by (intro exI [of _ "qs @ [e]"]) (simp add: emit_def)
qed

lemma effect_authorized:
  assumes "NewHandler P R cfg now rq w = (rs, w')" "\<not> asked_only w w'"
  shows "seal_target rq \<and> hc_Authorizer cfg (bearerToken rq) = None"
proof -
  have "w' \<noteq> w" using assms(2) asked_only_refl by blast
  from shell_effects [OF assms(1) this] assms(2) show ?thesis
    by (auto intro!: asked_only_emit asked_only_refl)
qed

text \<open>Without the role the answer is 401 or 403, and a 403 means the role was all that lacked.\<close>

lemma shell_unauthorized:
  assumes "seal_target rq" "hc_Authorizer cfg (bearerToken rq) = Some e"
  shows "\<exists>rs. NewHandler P R cfg now rq w = (rs, w) \<and> rs_status rs = (if err_is e ErrForbidden then 403 else 401)"
  using assms by (simp add: NewHandler_seal requireIssuerAdmin_def writeProblem_def)

section \<open>A denial\<close>

lemma str_index_append: "str_index sub s = Some n \<Longrightarrow> length s \<ge> length sub + n \<Longrightarrow> str_index sub (s @ t) = Some n"
proof (induction s arbitrary: n)
  case (Cons c s)
  show ?case
  proof (cases "take (length sub) (c # s) = sub")
    case True
    with Cons.prems show ?thesis by (cases "length sub") auto
  next
    case False
    with Cons.prems obtain m where m: "n = Suc m" "str_index sub s = Some m" "length s \<ge> length sub + m"
      by (auto split: if_splits)
    have "take (length sub) (c # s @ t) = take (length sub) (c # s)" using m(3) by (cases "length sub") auto
    with False m Cons.IH [OF m(2,3)] show ?thesis by simp
  qed
qed (cases t; auto split: if_splits)

lemma drop_all_of: "length xs = n \<Longrightarrow> drop n (xs @ ys) = ys"
  by simp

lemma denied_reason:
  "intentDeniedReason (Wrapped ''chainbind: seal: '' (Sentinel ErrIntentDenied) ('': '' @ reason)) = reason"
proof -
  let ?p = "''chainbind: seal: ''" and ?s = "sentinel_text ErrIntentDenied"
  have "str_index ?s (?p @ ?s) = Some 17" by (simp add: sentinel_text_def)
  then have found: "str_index ?s ((?p @ ?s) @ '': '' @ reason) = Some 17"
    by (rule str_index_append) (simp add: sentinel_text_def)
  have rest: "drop (17 + length ?s) ((?p @ ?s) @ '': '' @ reason) = '': '' @ reason"
    by (rule drop_all_of) simp
  have whole: "err_text (Wrapped ?p (Sentinel ErrIntentDenied) ('': '' @ reason)) = (?p @ ?s) @ '': '' @ reason"
    by (simp only: err_text.simps append_assoc)
  have "TrimPrefix ('': '' @ reason) '': '' = reason" by (simp add: TrimPrefix_def)
  then show ?thesis unfolding intentDeniedReason_def Let_def whole found option.case rest .
qed

text \<open>What the seal route makes of an authorized request with a payload: what \<open>Seal\<close> returns.\<close>

lemma seal_route:
  fixes P :: prims and now :: gotime
  assumes "seal_target rq" "hc_Authorizer cfg (bearerToken rq) = None" "hasJSONContentType rq"
    and "json_Decode dec_payload payload0 maxSealRequestBody (rq_body rq) = Inr payload"
    and "Project (PayloadValue payload) = Inr projection"
  defines "req \<equiv> seal_request_of P (config_deps cfg) now payload (split_of payload) projection"
  shows "NewHandler P R cfg now rq w =
    (case Seal P req (hc_Signer cfg) (hc_KeyWrapper cfg) (hc_IntentVerifier cfg) w of
       (Inl e, w) \<Rightarrow> (writeSealError e, w)
     | (Inr pkg, w) \<Rightarrow> (shell_writeJSON 200 (package_val pkg), w))"
proof -
  have "Split (PayloadValue payload) = Inr (split_of payload)" by (simp add: Split_eq asPayload_def)
  then show ?thesis
    using assms(1-5) by (simp add: NewHandler_seal requireIssuerAdmin_def sealHandler_def req_def config_deps_def)
qed

lemma seal_route_checked:
  assumes "distinct (map au_Name (hc_Audiences cfg))" "au_Name ` set (hc_Audiences cfg) \<subseteq> set profile_SegmentOrder"
  shows "checkAudiences (seal_request_of P (config_deps cfg) now payload (split_of payload) projection) = Inr ()"
proof -
  have "Split (PayloadValue payload) = Inr (split_of payload)" by (simp add: Split_eq asPayload_def)
  with assms show ?thesis
    by (intro checkout.audiences_checked) (simp_all add: seal_request_of_def config_deps_def)
qed

lemma shell_denied:
  assumes "seal_target rq" "hc_Authorizer cfg (bearerToken rq) = None" "hasJSONContentType rq"
    and "json_Decode dec_payload payload0 maxSealRequestBody (rq_body rq) = Inr payload"
    and "Project (PayloadValue payload) = Inr projection"
    and "iv_Check (hc_IntentVerifier cfg) (ci_IntentRef (pl_Intent payload)) (projection_val projection) = Inr d"
    "\<not> id_Allowed d"
    and "hc_Audiences cfg \<noteq> []" "distinct (map au_Name (hc_Audiences cfg))"
    "au_Name ` set (hc_Audiences cfg) \<subseteq> set profile_SegmentOrder"
  shows "NewHandler P R cfg now rq w =
    (writeProblem 422 typeIntentDenied ''intent denied'' (id_Reason d),
     emit (EvCheck (ci_IntentRef (pl_Intent payload))) w)"
proof -
  let ?req = "seal_request_of P (config_deps cfg) now payload (split_of payload) projection"
  have "Seal P ?req (hc_Signer cfg) (hc_KeyWrapper cfg) (hc_IntentVerifier cfg) w =
      (Inl (Wrapped ''chainbind: seal: '' (Sentinel ErrIntentDenied) ('': '' @ id_Reason d)),
       emit (EvCheck (ci_IntentRef (pl_Intent payload))) w)"
    using Seal_denied [OF _ assms(7) _ seal_route_checked [OF assms(9,10)]] assms(6,8)
    by (simp add: seal_request_of_def config_deps_def)
  then show ?thesis
    using seal_route [OF assms(1-5)] by (simp add: writeSealError_def denied_reason [simplified])
qed

text \<open>
  Every failure but a denial is a 502 that blames the authority; one of the authority itself
  comes before anything else has happened.
\<close>

lemma writeSealError_other:
  "\<not> err_is e ErrIntentDenied \<Longrightarrow> writeSealError e = writeProblem 502 typeAuthorityDown ''authority unreachable''
     ''the intent authority could not be reached''"
  by (simp add: writeSealError_def)

lemma shell_unreachable:
  assumes "seal_target rq" "hc_Authorizer cfg (bearerToken rq) = None" "hasJSONContentType rq"
    and "json_Decode dec_payload payload0 maxSealRequestBody (rq_body rq) = Inr payload"
    and "Project (PayloadValue payload) = Inr projection"
    and "iv_Check (hc_IntentVerifier cfg) (ci_IntentRef (pl_Intent payload)) (projection_val projection) = Inl e"
    "\<not> err_is e ErrIntentDenied"
    and "hc_Audiences cfg \<noteq> []" "distinct (map au_Name (hc_Audiences cfg))"
    "au_Name ` set (hc_Audiences cfg) \<subseteq> set profile_SegmentOrder"
  shows "NewHandler P R cfg now rq w =
    (writeProblem 502 typeAuthorityDown ''authority unreachable'' ''the intent authority could not be reached'',
     emit (EvCheck (ci_IntentRef (pl_Intent payload))) w)"
proof -
  let ?req = "seal_request_of P (config_deps cfg) now payload (split_of payload) projection"
  have "Seal P ?req (hc_Signer cfg) (hc_KeyWrapper cfg) (hc_IntentVerifier cfg) w =
      (Inl (errorf ''chainbind: seal: intent authority unreachable: '' e),
       emit (EvCheck (ci_IntentRef (pl_Intent payload))) w)"
    using Seal_unreachable [OF _ _ seal_route_checked [OF assms(9,10)]] assms(6,8)
    by (simp add: seal_request_of_def config_deps_def)
  then show ?thesis
    using seal_route [OF assms(1-5)] assms(7) by (simp add: writeSealError_other)
qed

section \<open>From one route to the other\<close>

text \<open>The verify route answers 200 whatever the report says, failing ones included.\<close>

lemma verifyHandler_answers:
  assumes "hasJSONContentType r" "json_Decode (dec_package R) package0 maxVerifyRequestBody (rq_body r) = Inr p"
    and "Verify P (Some p) \<lparr> vo_IssuerKey = Some (vp_issuerKey opts), vo_Intent = Some (vp_intent opts),
           vo_BindingSpecs = BindingSpecs P \<rparr> = Inr report"
  shows "verifyHandler P R opts r w =
    (if rp_SpecVersionSupported report then shell_writeJSON 200 (report_val report)
     else writeProblem 422 typeUnsupportedSpec ''unsupported spec_version''
            (''this build does not recognise the package'' @ [CHR 0x27] @ ''s spec_version''),
     if level1Passed report then emit (EvConstraintsHash (in_intent_ref (pk_intent p))) w else w)"
  using assms by (simp add: verifyHandler_def Verify_w_Some)

lemma verifyHandler_status: "rs_status (fst (verifyHandler P R opts r w)) \<in> {200, 400, 415, 422}"
  by (auto simp: verifyHandler_def shell_writeJSON_def json_response_def writeProblem_def split: sum.split prod.split)

text \<open>The deployment's own parts: its wrapper, its signer's key, its texts.\<close>

definition well_configured :: "prims \<Rightarrow> handler_config \<Rightarrow> string \<Rightarrow> bytes \<Rightarrow> bool" where
  "well_configured P cfg kid pub \<longleftrightarrow>
     hc_KeyWrapper cfg = Wrapper P \<and> utf8_valid (hc_IssuerID cfg) \<and>
     (\<forall>aud \<in> set (hc_Audiences cfg). utf8_valid (au_Kid aud)) \<and>
     signer_Kid (hc_Signer cfg) = Inr kid \<and> utf8_valid kid \<and> signs_for P (hc_Signer cfg) pub \<and>
     hc_IssuerKey cfg = issuerKeyResolver kid pub \<and>
     (\<forall>ref h. iv_ConstraintsHash (hc_IntentVerifier cfg) ref = Inr h \<longrightarrow> utf8_valid h)"

lemma route_package_text:
  assumes "json_Decode dec_payload payload0 maxSealRequestBody raw = Inr payload"
    and seal: "Seal P (seal_request_of P (config_deps cfg) now payload segments projection)
       (hc_Signer cfg) (hc_KeyWrapper cfg) (hc_IntentVerifier cfg) w = (Inr pkg, w')"
    and "well_configured P cfg kid pub" "jcs_total P" "time_valid now"
  shows "package_text pkg"
proof -
  let ?req = "seal_request_of P (config_deps cfg) now payload segments projection"
  have cfg: "hc_KeyWrapper cfg = Wrapper P" "utf8_valid (hc_IssuerID cfg)"
    "\<forall>aud \<in> set (hc_Audiences cfg). utf8_valid (au_Kid aud)" "signer_Kid (hc_Signer cfg) = Inr kid" "utf8_valid kid"
    "\<And>ref h. iv_ConstraintsHash (hc_IntentVerifier cfg) ref = Inr h \<Longrightarrow> utf8_valid h"
    using assms(3) by (auto simp: well_configured_def)
  have pt: "payload_text payload" using decoded_payload_text(1) [OF assms(1)] .
  from seal cfg(1) have seal': "Seal P ?req (hc_Signer cfg) (Wrapper P) (hc_IntentVerifier cfg) w = (Inr pkg, w')"
    by simp
  from Seal_Inr [OF this] have names: "au_Name ` set (hc_Audiences cfg) = set profile_SegmentOrder"
    by (rule sealed_obtain) (auto simp: loop_done_def same_keys_def SegmentsRoot_Inr seal_request_of_def config_deps_def)
  then have "{AudienceMerchant, AudienceGateway} \<subseteq> au_Name ` set (sr_Audiences ?req)"
    by (auto simp: seal_request_of_def config_deps_def profile_SegmentOrder_def)
  from profile_computes [OF assms(4) this] have computes: "\<forall>spec \<in> set (sr_BindingSpecs ?req). computes ?req spec"
    by (simp add: seal_request_of_def)
  have "\<forall>a \<in> set profile_SegmentOrder. utf8_valid a" by (simp add: profile_SegmentOrder_def utf8_names)
  then have "request_text ?req"
    using pt cfg(2,3) names
    by (auto simp: request_text_def seal_request_of_def config_deps_def payload_text_def checkout_intent_text_def
        request_context_text_def Name_def)
  from sealed_package_text [OF seal' this _ computes] cfg(4-6) assms(5) show ?thesis
    by (simp add: seal_request_of_def)
qed

text \<open>
  The body of a 200 of the seal route, sent to the verify route of a deployment that asks the
  same authority, is reported on as valid: the package survives the wire, and verifies.
\<close>

lemma shell_roundtrip:
  assumes "NewHandler P R cfg now rq w = (rs, w')" "seal_target rq" "rs_status rs = 200"
    and "well_configured P cfg kid pub" "jcs_total P" "time_valid now"
    and "verify_target rq'" "hasJSONContentType rq'" "rq_body rq' = rs_body rs"
    "length (rs_body rs) \<le> maxVerifyRequestBody"
  shows "\<exists>r ref. NewHandler P R cfg now' rq' v = (shell_writeJSON 200 (report_val r), emit (EvConstraintsHash ref) v) \<and>
    report_OK (Some r)"
proof -
  have run: "requireIssuerAdmin (hc_Authorizer cfg) (sealHandler P (config_deps cfg) now) rq w = (rs, w')"
    using assms(1) NewHandler_seal [OF assms(2)] by simp
  then have "sealHandler P (config_deps cfg) now rq w = (rs, w')"
    using assms(3) by (auto simp: requireIssuerAdmin_def writeProblem_def split: option.splits if_splits)
  then obtain payload segments projection pkg where s:
    "json_Decode dec_payload payload0 maxSealRequestBody (rq_body rq) = Inr payload"
    "Seal P (seal_request_of P (config_deps cfg) now payload segments projection)
       (hc_Signer cfg) (hc_KeyWrapper cfg) (hc_IntentVerifier cfg) w = (Inr pkg, w')"
    "rs = shell_writeJSON 200 (package_val pkg)"
    by (rule sealHandler_ok [OF _ assms(3)]) (simp add: config_deps_def)
  let ?req = "seal_request_of P (config_deps cfg) now payload segments projection"
  let ?opt = "\<lparr> vo_IssuerKey = Some (hc_IssuerKey cfg), vo_Intent = Some (hc_IntentVerifier cfg),
                vo_BindingSpecs = BindingSpecs P \<rparr>"
  have cfg: "signer_Kid (hc_Signer cfg) = Inr kid" "signs_for P (hc_Signer cfg) pub"
    "hc_IssuerKey cfg = issuerKeyResolver kid pub"
    using assms(4) by (simp_all add: well_configured_def)
  have "package_text pkg" by (rule route_package_text [OF s(1,2) assms(4-6)])
  then obtain raw where raw: "package_text pkg" "marshal (package_val pkg) = Inr raw"
    using package_marshals by blast
  have body: "rs_body rs = raw @ [10]"
    using s(3) raw(2) by (simp add: shell_writeJSON_def json_response_def encode_def)
  have read: "json_Decode (dec_package R) package0 maxVerifyRequestBody (rq_body rq') = Inr pkg"
    unfolding assms(9) body by (rule package_roundtrip(2) [OF raw]) (use assms(10) body in simp)
  obtain r where r: "Verify P (Some pkg) ?opt = Inr r" using Verify_total by blast
  have "trusts (vo_IssuerKey ?opt) (sr_Issuer ?req) (hc_Signer cfg) pub"
    using cfg(1,3) by (simp add: trusts_def issuerKeyResolver_def)
  from sealed_level1 [OF Seal_Inr [OF s(2)] cfg(2) this] BindingSpecs_distinct
  have "level1_valid P pkg ?opt" by (simp add: seal_request_of_def)
  moreover have "intent_valid P pkg (vo_Intent ?opt)"
    using sealed_intent [OF Seal_Inr [OF s(2)]] by simp
  ultimately have ok: "report_OK (Some r)" using Verify_OK [OF r] BindingSpecs_distinct by simp
  then have "rp_SpecVersionSupported r" "level1Passed r" by (simp_all add: report_OK_def level1Passed_def split: if_splits)
  with verifyHandler_answers [OF assms(8) read, of P "config_opts cfg" r] r
  have "verifyHandler P R (config_opts cfg) rq' v =
      (shell_writeJSON 200 (report_val r), emit (EvConstraintsHash (in_intent_ref (pk_intent pkg))) v)"
    by (simp add: config_opts_def)
  with ok show ?thesis unfolding NewHandler_verify [OF assms(7)] by (intro exI conjI)
qed

end
