(* ===== verification/Vault_Signer.thy ===== *)
theory Vault_Signer
  imports Ports Go_Http
begin

text \<open>
  \<^verbatim>\<open>internal/adapters/signer/vault/signer.go\<close>: the signer over Vault Transit. Vault is at the
  other end of the client; what its answers say is read from their bytes. The key version and
  the public key are pinned when the signer is made, and a signature under any other version
  is an error, so every signature the signer returns is one Vault made with the pinned key:
  under that reading of Vault the signer meets the contract \<open>signing_port\<close>.
\<close>

record vault_signer =
  vs_addr :: string
  vs_token :: string
  vs_name :: string
  vs_client :: client
  vs_version :: int
  vs_pub :: bytes

section \<open>The key's metadata\<close>

record key_version_key =
  kv_PublicKey :: string

record keys_data =
  kd_LatestVersion :: int
  kd_Type :: string
  kd_Keys :: "(string, key_version_key) fmap"

record keys_response =
  kr_Data :: keys_data

definition key_version0 :: key_version_key where
  "key_version0 = \<lparr> kv_PublicKey = [] \<rparr>"

definition keys_response0 :: keys_response where
  "keys_response0 = \<lparr> kr_Data = \<lparr> kd_LatestVersion = 0, kd_Type = [], kd_Keys = fmempty \<rparr> \<rparr>"

definition dec_key_version :: "key_version_key jdec" where
  "dec_key_version = dec_struct [(''public_key'', at_field kv_PublicKey kv_PublicKey_update dec_string)]"

definition dec_keys_data :: "keys_data jdec" where
  "dec_keys_data = dec_struct
     [(''latest_version'', at_field kd_LatestVersion kd_LatestVersion_update dec_goint),
      (''type'', at_field kd_Type kd_Type_update dec_string),
      (''keys'', at_field kd_Keys kd_Keys_update (dec_map dec_key_version key_version0))]"

definition dec_keys_response :: "keys_response jdec" where
  "dec_keys_response = dec_struct [(''data'', at_field kr_Data kr_Data_update dec_keys_data)]"

definition vault_doJSON :: "client \<Rightarrow> request \<Rightarrow> 'a jdec \<Rightarrow> 'a \<Rightarrow> 'a res" where
  "vault_doJSON C rq d x0 = do_json ErrVaultUnreachable ErrVaultResponse C rq d x0"

definition keys_request :: "vault_signer \<Rightarrow> request" where
  "keys_request s =
     \<lparr> rq_method = ''GET'', rq_target = vs_addr s @ ''/v1/transit/keys/'' @ PathEscape (vs_name s),
       rq_headers = fmap_of_list [(''X-Vault-Token'', vs_token s)], rq_body = [] \<rparr>"

definition fetchKeyMetadata :: "vault_signer \<Rightarrow> keys_response res" where
  "fetchKeyMetadata s =
     (let req = keys_request s in
      case cl_parse (vs_client s) (rq_target req) of
        Some e \<Rightarrow> Inl (errorf ''vault: build key metadata request: '' e)
      | None \<Rightarrow>
     (case vault_doJSON (vs_client s) req dec_keys_response keys_response0 of
        Inl e \<Rightarrow> Inl (errorf ''vault: fetch key metadata: '' e)
      | Inr out \<Rightarrow> Inr out))"

section \<open>Construction\<close>

text \<open>\<open>dflt\<close> is \<^verbatim>\<open>http.DefaultClient\<close>.\<close>

definition vault_New :: "client \<Rightarrow> string \<Rightarrow> string \<Rightarrow> string \<Rightarrow> client option \<Rightarrow> vault_signer res" where
  "vault_New dflt addr token keyName client =
     (let s = \<lparr> vs_addr = addr, vs_token = token, vs_name = keyName,
                vs_client = (case client of None \<Rightarrow> dflt | Some c \<Rightarrow> c), vs_version = 0, vs_pub = [] \<rparr> in
      case fetchKeyMetadata s of
        Inl e \<Rightarrow> Inl e
      | Inr resp \<Rightarrow>
      if kd_Type (kr_Data resp) \<noteq> ''ed25519'' then Inl (Sentinel ErrKeyTypeUnsupported)
      else
        let version = kd_LatestVersion (kr_Data resp) in
     (case fmlookup (kd_Keys (kr_Data resp)) (dec_int version) of
        None \<Rightarrow> Inl (errorf ''vault: fetch key metadata: '' (Sentinel ErrVaultResponse))
      | Some versionKey \<Rightarrow>
      if kv_PublicKey versionKey = []
      then Inl (errorf ''vault: fetch key metadata: '' (Sentinel ErrVaultResponse))
      else
     (case std_decode (kv_PublicKey versionKey) of
        None \<Rightarrow> Inl (errorf ''vault: fetch key metadata: '' (Sentinel ErrVaultResponse))
      | Some pub \<Rightarrow>
      if length pub \<noteq> 32 then Inl (errorf ''vault: fetch key metadata: '' (Sentinel ErrVaultResponse))
      else Inr (s\<lparr>vs_version := version, vs_pub := pub\<rparr>))))"

definition vault_Ping :: "vault_signer \<Rightarrow> err option" where
  "vault_Ping s = (case fetchKeyMetadata s of Inl e \<Rightarrow> Some e | Inr _ \<Rightarrow> None)"

definition vault_Kid :: "vault_signer \<Rightarrow> err option \<Rightarrow> string res" where
  "vault_Kid s ctx =
     (case ctx of
        Some e \<Rightarrow> Inl (errorf ''vault: '' e)
      | None \<Rightarrow> Inr (vs_name s @ '':v'' @ dec_int (vs_version s)))"

definition vault_PublicKey :: "vault_signer \<Rightarrow> bytes" where
  "vault_PublicKey s = vs_pub s"

section \<open>Signing\<close>

text \<open>\<^verbatim>\<open>strings.SplitN\<close> for one separator.\<close>

fun splitN :: "nat \<Rightarrow> char \<Rightarrow> string \<Rightarrow> string list" where
  "splitN 0 d s = []"
| "splitN (Suc 0) d s = [s]"
| "splitN (Suc (Suc n)) d s =
     (if d \<in> set s
      then takeWhile (\<lambda>c. c \<noteq> d) s # splitN (Suc n) d (tl (dropWhile (\<lambda>c. c \<noteq> d) s))
      else [s])"

definition parseVaultSignature :: "string \<Rightarrow> (int \<times> string) res" where
  "parseVaultSignature s =
     (case splitN 3 (CHR '':'') s of
        [p0, p1, p2] \<Rightarrow>
          if p0 \<noteq> ''vault'' \<or> p1 = [] \<or> hd p1 \<noteq> CHR ''v'' then Inl (Sentinel ErrVaultResponse)
          else (case Atoi (tl p1) of
                  None \<Rightarrow> Inl (Sentinel ErrVaultResponse)
                | Some version \<Rightarrow> Inr (version, p2))
      | _ \<Rightarrow> Inl (Sentinel ErrVaultResponse))"

record sign_data =
  sd_Signature :: string

record sign_response =
  gr_Data :: sign_data

definition sign_request_val :: "string \<Rightarrow> int \<Rightarrow> goval" where
  "sign_request_val input version = VObj [(''input'', VStr input), (''key_version'', VNum (dec_int version))]"

definition sign_response0 :: sign_response where
  "sign_response0 = \<lparr> gr_Data = \<lparr> sd_Signature = [] \<rparr> \<rparr>"

definition dec_sign_response :: "sign_response jdec" where
  "dec_sign_response = dec_struct
     [(''data'', at_field gr_Data gr_Data_update
         (dec_struct [(''signature'', at_field sd_Signature sd_Signature_update dec_string)]))]"

definition sign_request :: "vault_signer \<Rightarrow> bytes \<Rightarrow> request" where
  "sign_request s reqBody =
     \<lparr> rq_method = ''POST'', rq_target = vs_addr s @ ''/v1/transit/sign/'' @ PathEscape (vs_name s),
       rq_headers = fmap_of_list [(''Content-Type'', ''application/json''), (''X-Vault-Token'', vs_token s)],
       rq_body = reqBody \<rparr>"

definition vault_Sign :: "vault_signer \<Rightarrow> bytes \<Rightarrow> bytes res" where
  "vault_Sign s message =
     (case marshal (sign_request_val (std_encode message) (vs_version s)) of
        Inl e \<Rightarrow> Inl (errorf ''vault: encode sign request: '' e)
      | Inr reqBody \<Rightarrow>
     (let req = sign_request s reqBody in
      case cl_parse (vs_client s) (rq_target req) of
        Some e \<Rightarrow> Inl (errorf ''vault: build sign request: '' e)
      | None \<Rightarrow>
     (case vault_doJSON (vs_client s) req dec_sign_response sign_response0 of
        Inl e \<Rightarrow> Inl (errorf ''vault: sign: '' e)
      | Inr resp \<Rightarrow>
     (case parseVaultSignature (sd_Signature (gr_Data resp)) of
        Inl e \<Rightarrow> Inl (errorf ''vault: sign: '' e)
      | Inr (version, sigB64) \<Rightarrow>
      if version \<noteq> vs_version s then Inl (errorf ''vault: sign: '' (Sentinel ErrKeyVersionMismatch))
      else
     (case std_decode sigB64 of
        None \<Rightarrow> Inl (errorf ''vault: sign: '' (Sentinel ErrVaultResponse))
      | Some sig \<Rightarrow>
      if length sig \<noteq> 64 then Inl (errorf ''vault: sign: '' (Sentinel ErrVaultResponse))
      else Inr sig)))))"

section \<open>The signature format\<close>

lemma cut_at:
  "d \<notin> set a \<Longrightarrow> takeWhile (\<lambda>c. c \<noteq> d) (a @ d # r) = a \<and> dropWhile (\<lambda>c. c \<noteq> d) (a @ d # r) = d # r"
  by (induction a) auto

lemma splitN_colons:
  "CHR '':'' \<notin> set a \<Longrightarrow> CHR '':'' \<notin> set b \<Longrightarrow> splitN 3 (CHR '':'') (a @ CHR '':'' # b @ CHR '':'' # c) = [a, b, c]"
  by (simp add: numeral_3_eq_3 cut_at)

lemma digits_no_colon: "CHR '':'' \<notin> set (dec_int i)"
  using dec_nat_digits [of "CHR '':''"] by (auto simp: dec_int_def)

text \<open>Vault's text for a signature under a version parses as just that.\<close>

lemma parse_vault_text:
  assumes "- (2 ^ 63) \<le> n" "n < 2 ^ 63"
  shows "parseVaultSignature (''vault:v'' @ dec_int n @ '':'' @ b) = Inr (n, b)"
  using splitN_colons [of "''vault''" "CHR ''v'' # dec_int n" b] digits_no_colon [of n] Atoi_dec_int [OF assms]
  by (simp add: parseVaultSignature_def)

lemma parse_error: "parseVaultSignature t = Inl e \<Longrightarrow> e = Sentinel ErrVaultResponse"
  by (auto simp: parseVaultSignature_def split: list.splits if_splits option.splits)

section \<open>What a signer stands for\<close>

lemma fetch_Inr:
  "fetchKeyMetadata s = Inr resp \<longleftrightarrow>
     cl_parse (vs_client s) (rq_target (keys_request s)) = None \<and>
     (\<exists>rs. cl_do (vs_client s) (keys_request s) = Inr rs \<and> status_2xx rs \<and>
        json_Decode dec_keys_response keys_response0 maxResponseBody (rs_body rs) = Inr resp)"
proof -
  have "fetchKeyMetadata s = Inr resp \<longleftrightarrow> cl_parse (vs_client s) (rq_target (keys_request s)) = None \<and>
      vault_doJSON (vs_client s) (keys_request s) dec_keys_response keys_response0 = Inr resp"
    by (auto simp: fetchKeyMetadata_def Let_def split: option.splits sum.splits)
  then show ?thesis by (simp add: vault_doJSON_def do_json_Inr)
qed

text \<open>A new signer has pinned the latest version the metadata names, and its published key.\<close>

lemma vault_New_Inr:
  assumes "vault_New dflt addr token keyName client = Inr s"
  obtains resp key where
    "fetchKeyMetadata s = Inr resp" "kd_Type (kr_Data resp) = ''ed25519''"
    "vs_version s = kd_LatestVersion (kr_Data resp)"
    "fmlookup (kd_Keys (kr_Data resp)) (dec_int (vs_version s)) = Some key"
    "std_decode (kv_PublicKey key) = Some (vs_pub s)" "length (vs_pub s) = 32" "vs_name s = keyName"
proof -
  let ?s = "\<lparr> vs_addr = addr, vs_token = token, vs_name = keyName,
      vs_client = (case client of None \<Rightarrow> dflt | Some c \<Rightarrow> c), vs_version = 0, vs_pub = [] \<rparr>"
  from assms obtain resp key where r: "fetchKeyMetadata ?s = Inr resp" "kd_Type (kr_Data resp) = ''ed25519''"
    "fmlookup (kd_Keys (kr_Data resp)) (dec_int (kd_LatestVersion (kr_Data resp))) = Some key"
    "std_decode (kv_PublicKey key) = Some (vs_pub s)" "length (vs_pub s) = 32"
    "s = ?s\<lparr>vs_version := kd_LatestVersion (kr_Data resp), vs_pub := vs_pub s\<rparr>"
    by (auto simp: vault_New_def Let_def split: sum.splits if_splits option.splits)
  from r(6) have s: "vs_version s = kd_LatestVersion (kr_Data resp)" "vs_name s = keyName"
    "vs_addr s = addr" "vs_token s = token" "vs_client s = vs_client ?s"
    by (cases s; simp)+
  have "keys_request s = keys_request ?s" by (simp add: keys_request_def s)
  then have "fetchKeyMetadata s = fetchKeyMetadata ?s" by (simp only: fetchKeyMetadata_def s(5))
  with r s show thesis by (intro that [of resp key]) simp_all
qed

lemma vault_Sign_Inr:
  "vault_Sign s m = Inr sig \<longleftrightarrow>
     (\<exists>body resp b64. marshal (sign_request_val (std_encode m) (vs_version s)) = Inr body \<and>
        cl_parse (vs_client s) (rq_target (sign_request s body)) = None \<and>
        vault_doJSON (vs_client s) (sign_request s body) dec_sign_response sign_response0 = Inr resp \<and>
        parseVaultSignature (sd_Signature (gr_Data resp)) = Inr (vs_version s, b64) \<and>
        std_decode b64 = Some sig \<and> length sig = 64)"
proof (cases "marshal (sign_request_val (std_encode m) (vs_version s))")
  case (Inr body)
  then show ?thesis
    by (auto simp: vault_Sign_def Let_def split: sum.splits option.splits if_splits)
qed (simp add: vault_Sign_def)

text \<open>
  Vault's promise, as documented: the signature it labels with a version is one of the message
  under the key \<open>pubs\<close> of that version. It may label with a version nobody asked for.
\<close>

definition vault_honest :: "prims \<Rightarrow> vault_signer \<Rightarrow> (int \<Rightarrow> bytes) \<Rightarrow> bool" where
  "vault_honest P s pubs \<longleftrightarrow>
     (\<forall>m v body resp n b64 sig.
        marshal (sign_request_val (std_encode m) v) = Inr body \<longrightarrow>
        vault_doJSON (vs_client s) (sign_request s body) dec_sign_response sign_response0 = Inr resp \<longrightarrow>
        parseVaultSignature (sd_Signature (gr_Data resp)) = Inr (n, b64) \<longrightarrow>
        std_decode b64 = Some sig \<longrightarrow> length sig = 64 \<longrightarrow> ed25519_verify P (pubs n) m sig)"

lemma vault_Sign_verifies:
  assumes "vault_honest P s pubs" "vault_Sign s m = Inr sig"
  shows "length sig = 64" "ed25519_verify P (pubs (vs_version s)) m sig"
  using assms unfolding vault_honest_def vault_Sign_Inr by blast+

text \<open>A signature under another version is never passed on.\<close>

lemma vault_rotated:
  assumes "marshal (sign_request_val (std_encode m) (vs_version s)) = Inr body"
    and "cl_parse (vs_client s) (rq_target (sign_request s body)) = None"
    and "vault_doJSON (vs_client s) (sign_request s body) dec_sign_response sign_response0 = Inr resp"
    and "parseVaultSignature (sd_Signature (gr_Data resp)) = Inr (n, b64)" "n \<noteq> vs_version s"
  shows "\<exists>e. vault_Sign s m = Inl e \<and> err_is e ErrKeyVersionMismatch"
  using assms by (simp add: vault_Sign_def)

section \<open>The contract\<close>

definition vault_port :: "prims \<Rightarrow> vault_signer \<times> err option \<Rightarrow> signer" where
  "vault_port P s = \<lparr> signer_Kid = vault_Kid (fst s) (snd s), signer_Sign = vault_Sign (fst s) \<rparr>"

definition vault_pinned :: "prims \<Rightarrow> vault_signer \<times> err option \<Rightarrow> bytes \<Rightarrow> bool" where
  "vault_pinned P s pub \<longleftrightarrow>
     length pub = 32 \<and> (\<exists>pubs. vault_honest P (fst s) pubs \<and> pubs (vs_version (fst s)) = pub)"

interpretation vault_signer: signing_port vault_port vault_pinned
proof unfold_locales
  fix P s pub m sig
  assume "vault_pinned P s pub" "signer_Sign (vault_port P s) m = Inr sig"
  then show "length pub = 32 \<and> length sig = 64 \<and> ed25519_verify P pub m sig"
    using vault_Sign_verifies [of P "fst s" _ m sig] by (auto simp: vault_pinned_def vault_port_def)
qed

end
