(* ===== verification/Keycloak.thy ===== *)
theory Keycloak
  imports Go_Any
begin

text \<open>
  \<^verbatim>\<open>internal/adapters/auth/keycloak/provider.go\<close>: who may seal. The JOSE library (fetching a
  key set, parsing and validating a token against it) is a parameter. The cached key set is
  shared by every request and fetched without the lock, so besides the sequential \<open>keySet\<close>
  there is a step relation over any number of requests, with the time as part of the state.
\<close>

section \<open>Tokens\<close>

definition RoleIssuerAdmin :: string where
  "RoleIssuerAdmin = ''role_issuer_admin''"

text \<open>
  A token that verified is its claims, decoded as \<^verbatim>\<open>any\<close>. Of two members of one name in an
  object the last one counts.
\<close>

type_synonym token = "(string, jval) fmap"

definition hasRole :: "token \<Rightarrow> string \<Rightarrow> bool" where
  "hasRole t role =
     (case fmlookup t ''realm_access'' of
        Some (JObj obj) \<Rightarrow>
          (case map_of (rev obj) ''roles'' of
             Some (JArr roles) \<Rightarrow> JStr role \<in> set roles
           | _ \<Rightarrow> False)
      | _ \<Rightarrow> False)"

section \<open>The provider\<close>

text \<open>Times and durations are in nanoseconds.\<close>

definition defaultCacheTTL :: int where
  "defaultCacheTTL = 5 * 60 * 10 ^ 9"

definition defaultFetchTimeout :: int where
  "defaultFetchTimeout = 5 * 10 ^ 9"

text \<open>\<open>pr_parse\<close> is \<^verbatim>\<open>jwt.Parse\<close> with a key set, an issuer and an audience.\<close>

record 'set provider =
  pr_jwksURL :: string
  pr_issuer :: string
  pr_audience :: string
  pr_cacheTTL :: int
  pr_fetchTimeout :: int
  pr_parse :: "'set \<Rightarrow> string \<Rightarrow> string \<Rightarrow> string \<Rightarrow> token res"

record 'set cache =
  ca_set :: "'set option"
  ca_fetchedAt :: int

definition keycloak_New ::
  "('set \<Rightarrow> string \<Rightarrow> string \<Rightarrow> string \<Rightarrow> token res) \<Rightarrow> string \<Rightarrow> string \<Rightarrow> string \<Rightarrow>
     'set provider \<times> 'set cache" where
  "keycloak_New parse jwksURL issuer audience =
     (\<lparr> pr_jwksURL = jwksURL, pr_issuer = issuer, pr_audience = audience,
        pr_cacheTTL = defaultCacheTTL, pr_fetchTimeout = defaultFetchTimeout, pr_parse = parse \<rparr>,
      \<lparr> ca_set = None, ca_fetchedAt = 0 \<rparr>)"

definition fresh :: "'set provider \<Rightarrow> 'set cache \<Rightarrow> int \<Rightarrow> bool" where
  "fresh p c now \<longleftrightarrow> ca_set c \<noteq> None \<and> now - ca_fetchedAt c < pr_cacheTTL p"

text \<open>
  One call on its own: \<open>now\<close> is the time it starts at, \<open>fetched\<close> what \<^verbatim>\<open>jwk.Fetch\<close> of the URL
  comes back with, and \<open>later\<close> the time it then stores it at.
\<close>

definition keySet ::
  "'set provider \<Rightarrow> int \<Rightarrow> (string \<Rightarrow> 'set res) \<Rightarrow> int \<Rightarrow> 'set cache \<Rightarrow> 'set res \<times> 'set cache" where
  "keySet p now fetch later c =
     (if fresh p c now then (Inr (the (ca_set c)), c)
      else
     (case fetch (pr_jwksURL p) of
        Inl e \<Rightarrow> (Inl (errorf ''keycloak: fetch jwks: '' e), c)
      | Inr fetched \<Rightarrow> (Inr fetched, \<lparr> ca_set = Some fetched, ca_fetchedAt = later \<rparr>)))"

text \<open>\<open>None\<close> is the nil error: the bearer may seal.\<close>

definition Authorize ::
  "'set provider \<Rightarrow> int \<Rightarrow> (string \<Rightarrow> 'set res) \<Rightarrow> int \<Rightarrow> string \<Rightarrow> 'set cache \<Rightarrow> err option \<times> 'set cache" where
  "Authorize p now fetch later bearer c =
     (if bearer = [] then (Some (Sentinel ErrUnauthorized), c)
      else
     (case keySet p now fetch later c of
        (Inl e, c) \<Rightarrow> (Some (Wrapped [] (Sentinel ErrUnauthorized) '': fetch jwks''), c)
      | (Inr ks, c) \<Rightarrow>
     (case pr_parse p ks (pr_issuer p) (pr_audience p) bearer of
        Inl e \<Rightarrow> (Some (Sentinel ErrUnauthorized), c)
      | Inr token \<Rightarrow>
          if \<not> hasRole token RoleIssuerAdmin then (Some (Sentinel ErrForbidden), c)
          else (None, c))))"

section \<open>The three answers\<close>

text \<open>Which bearer a key set admits.\<close>

definition admits :: "'set provider \<Rightarrow> 'set \<Rightarrow> string \<Rightarrow> bool" where
  "admits p ks bearer \<longleftrightarrow>
     bearer \<noteq> [] \<and> (\<exists>t. pr_parse p ks (pr_issuer p) (pr_audience p) bearer = Inr t \<and> hasRole t RoleIssuerAdmin)"

lemma Authorize_None:
  "fst (Authorize p now fetch later bearer c) = None \<longleftrightarrow>
     (\<exists>ks. fst (keySet p now fetch later c) = Inr ks \<and> admits p ks bearer)"
  by (auto simp: Authorize_def admits_def split: prod.split sum.split)

lemma Authorize_errors:
  assumes "fst (Authorize p now fetch later bearer c) = Some e"
  shows "err_is e ErrUnauthorized \<noteq> err_is e ErrForbidden"
    and "err_is e ErrForbidden \<longleftrightarrow> bearer \<noteq> [] \<and> (\<exists>ks t. fst (keySet p now fetch later c) = Inr ks \<and>
       pr_parse p ks (pr_issuer p) (pr_audience p) bearer = Inr t \<and> \<not> hasRole t RoleIssuerAdmin)"
  using assms by (auto simp: Authorize_def split: prod.splits sum.splits if_splits)

text \<open>A request without a token touches nothing.\<close>

lemma Authorize_empty: "Authorize p now fetch later [] c = (Some (Sentinel ErrUnauthorized), c)"
  by (simp add: Authorize_def)

section \<open>Many requests\<close>

text \<open>
  A request is idle, has asked for the keys at a time, or holds the answer that arrived at a
  time. \<open>published t\<close> are the keys the server publishes at \<open>t\<close>; an answer holds what was
  published between the question and its arrival, and arrives within the fetch timeout. Only
  then does the request take the lock again; \<open>lag\<close> bounds how long it may be kept from it.
\<close>

datatype 'set fetching = Idle | Asking int | Holding 'set int int

record 'set shared =
  sh_clock :: int
  sh_cache :: "'set cache"
  sh_request :: "nat \<Rightarrow> 'set fetching"

inductive kstep ::
  "'set provider \<Rightarrow> (int \<Rightarrow> 'set) \<Rightarrow> int \<Rightarrow> 'set shared \<Rightarrow> 'set shared \<Rightarrow> bool"
  for p :: "'set provider" and published :: "int \<Rightarrow> 'set" and lag :: int where
  tick: "0 \<le> d \<Longrightarrow> (\<forall>i ks asked arrived. sh_request g i = Holding ks asked arrived \<longrightarrow>
           sh_clock g + d \<le> arrived + lag) \<Longrightarrow>
         kstep p published lag g (g\<lparr>sh_clock := sh_clock g + d\<rparr>)"
| ask: "sh_request g i = Idle \<Longrightarrow> \<not> fresh p (sh_cache g) (sh_clock g) \<Longrightarrow>
         kstep p published lag g (g\<lparr>sh_request := (sh_request g)(i := Asking (sh_clock g))\<rparr>)"
| fail: "sh_request g i = Asking asked \<Longrightarrow>
         kstep p published lag g (g\<lparr>sh_request := (sh_request g)(i := Idle)\<rparr>)"
| arrive: "sh_request g i = Asking asked \<Longrightarrow> sh_clock g \<le> asked + pr_fetchTimeout p \<Longrightarrow>
         asked \<le> t \<Longrightarrow> t \<le> sh_clock g \<Longrightarrow>
         kstep p published lag g
           (g\<lparr>sh_request := (sh_request g)(i := Holding (published t) asked (sh_clock g))\<rparr>)"
| store: "sh_request g i = Holding ks asked arrived \<Longrightarrow>
         kstep p published lag g
           (g\<lparr>sh_cache := \<lparr> ca_set = Some ks, ca_fetchedAt = sh_clock g \<rparr>,
              sh_request := (sh_request g)(i := Idle)\<rparr>)"

inductive_cases kstepE: "kstep p published lag g g'"

definition started :: "'set shared \<Rightarrow> bool" where
  "started g \<longleftrightarrow> ca_set (sh_cache g) = None \<and> (\<forall>i. sh_request g i = Idle)"

text \<open>\<open>kept\<close>: every key set around was published not too long ago.\<close>

definition kept :: "'set provider \<Rightarrow> (int \<Rightarrow> 'set) \<Rightarrow> int \<Rightarrow> 'set shared \<Rightarrow> bool" where
  "kept p published lag g \<longleftrightarrow>
     (\<forall>ks. ca_set (sh_cache g) = Some ks \<longrightarrow>
        ca_fetchedAt (sh_cache g) \<le> sh_clock g \<and>
        (\<exists>t. published t = ks \<and> t \<le> ca_fetchedAt (sh_cache g) \<and>
           ca_fetchedAt (sh_cache g) \<le> t + pr_fetchTimeout p + lag)) \<and>
     (\<forall>i asked. sh_request g i = Asking asked \<longrightarrow> asked \<le> sh_clock g) \<and>
     (\<forall>i ks asked arrived. sh_request g i = Holding ks asked arrived \<longrightarrow>
        arrived \<le> sh_clock g \<and> sh_clock g \<le> arrived + lag \<and>
        (\<exists>t. published t = ks \<and> t \<le> arrived \<and> arrived \<le> t + pr_fetchTimeout p))"

lemma kept_started: "started g \<Longrightarrow> kept p published lag g"
  by (simp add: started_def kept_def)

lemma kept_step:
  assumes "kstep p published lag g g'" "kept p published lag g" "0 \<le> lag"
  shows "kept p published lag g'"
  using assms
proof (cases rule: kstep.cases)
  case (tick d)
  with assms(2) show ?thesis unfolding kept_def by fastforce
next
  case (ask i)
  with assms(2) show ?thesis by (auto simp: kept_def)
next
  case (fail i asked)
  with assms(2) show ?thesis by (auto simp: kept_def)
next
  case (arrive i asked t)
  with assms(2,3) show ?thesis by (auto simp: kept_def intro!: exI [of _ t])
next
  case (store i ks asked arrived)
  with assms(2) obtain t where "arrived \<le> sh_clock g" "sh_clock g \<le> arrived + lag"
    "published t = ks" "t \<le> arrived" "arrived \<le> t + pr_fetchTimeout p"
    unfolding kept_def by blast
  then have "published t = ks" "t \<le> sh_clock g" "sh_clock g \<le> t + pr_fetchTimeout p + lag" by simp_all
  with store assms(2) show ?thesis by (auto simp: kept_def)
qed

lemma kept_reachable:
  assumes "(kstep p published lag)\<^sup>*\<^sup>* g0 g" "started g0" "0 \<le> lag"
  shows "kept p published lag g"
  using assms(1)
  by (induction rule: rtranclp_induct) (use assms(2,3) in \<open>auto intro: kept_started kept_step\<close>)

text \<open>The key set a request may come away with: a fresh cached one, or the one it fetched.\<close>

definition serves_set :: "'set provider \<Rightarrow> 'set shared \<Rightarrow> 'set \<Rightarrow> bool" where
  "serves_set p g ks \<longleftrightarrow>
     (fresh p (sh_cache g) (sh_clock g) \<and> ca_set (sh_cache g) = Some ks) \<or>
     (\<exists>i asked arrived. sh_request g i = Holding ks asked arrived)"

lemma served_age:
  assumes "(kstep p published lag)\<^sup>*\<^sup>* g0 g" "started g0" "0 \<le> lag" "0 \<le> pr_cacheTTL p" "serves_set p g ks"
  shows "\<exists>t. published t = ks \<and> t \<le> sh_clock g \<and>
    sh_clock g \<le> t + pr_cacheTTL p + pr_fetchTimeout p + lag"
  using kept_reachable [OF assms(1-3)] assms(4,5)
  unfolding serves_set_def fresh_def kept_def by fastforce

text \<open>So keys that were withdrawn at \<open>r\<close> for good are out of use that long after it.\<close>

lemma withdrawn_refused:
  assumes "(kstep p published lag)\<^sup>*\<^sup>* g0 g" "started g0" "0 \<le> lag" "0 \<le> pr_cacheTTL p" "serves_set p g ks"
    and "\<And>t. r \<le> t \<Longrightarrow> \<not> admits p (published t) bearer"
    and "r + pr_cacheTTL p + pr_fetchTimeout p + lag \<le> sh_clock g"
  shows "\<not> admits p ks bearer"
proof -
  from served_age [OF assms(1-5)] obtain t where "published t = ks"
    "sh_clock g \<le> t + pr_cacheTTL p + pr_fetchTimeout p + lag" by blast
  with assms(6) [of t] assms(7) show ?thesis by simp
qed

text \<open>A single request is a run of these steps.\<close>

lemma keySet_run:
  assumes "sh_request g i = Idle" "sh_clock g \<le> t" "t \<le> later" "later \<le> sh_clock g + pr_fetchTimeout p" "0 \<le> lag"
    and "\<forall>j ks asked arrived. sh_request g j = Holding ks asked arrived \<longrightarrow> later \<le> arrived + lag"
    and "\<not> fresh p (sh_cache g) (sh_clock g)"
  shows "(kstep p published lag)\<^sup>*\<^sup>* g (g\<lparr>sh_clock := later,
     sh_cache := snd (keySet p (sh_clock g) (\<lambda>_. Inr (published t)) later (sh_cache g))\<rparr>)"
proof -
  let ?asked = "g\<lparr>sh_request := (sh_request g)(i := Asking (sh_clock g))\<rparr>"
  let ?later = "?asked\<lparr>sh_clock := later\<rparr>"
  let ?held = "?later\<lparr>sh_request := (sh_request ?later)(i := Holding (published t) (sh_clock g) later)\<rparr>"
  let ?done = "?held\<lparr>sh_cache := \<lparr> ca_set = Some (published t), ca_fetchedAt = later \<rparr>,
                     sh_request := (sh_request ?held)(i := Idle)\<rparr>"
  have "kstep p published lag g ?asked" using assms(1,7) by (rule kstep.ask)
  moreover have "kstep p published lag ?asked ?later"
    using kstep.tick [of "later - sh_clock g" ?asked lag p published] assms(2,3,6) by (simp split: if_splits)
  moreover have "kstep p published lag ?later ?held"
    using kstep.arrive [of ?later i "sh_clock g" p t published lag] assms(2-4) by simp
  moreover have "kstep p published lag ?held ?done"
    using kstep.store [of ?held i "published t" "sh_clock g" later p published lag] by simp
  moreover have "(sh_request ?held)(i := Idle) = sh_request g" using assms(1) by auto
  then have "?done = g\<lparr>sh_clock := later,
      sh_cache := snd (keySet p (sh_clock g) (\<lambda>_. Inr (published t)) later (sh_cache g))\<rparr>"
    using assms(7) by (simp add: keySet_def)
  ultimately show ?thesis by (metis (no_types, lifting) converse_rtranclp_into_rtranclp rtranclp.rtrancl_refl)
qed

text \<open>
  Racing requests do not store equivalent sets: the one that asked first may store last, and
  what was published before is then cached as if it were the newest.
\<close>

definition race_published :: "int \<Rightarrow> nat" where
  "race_published t = (if t < 1 then 0 else 1)"

definition race_at :: "int \<Rightarrow> nat cache \<Rightarrow> nat fetching \<Rightarrow> nat fetching \<Rightarrow> nat shared" where
  "race_at clock c a b = \<lparr> sh_clock = clock, sh_cache = c,
     sh_request = (\<lambda>i. if i = 0 then a else if i = 1 then b else Idle) \<rparr>"

lemma race_at_simps:
  "sh_clock (race_at clock c a b) = clock" "sh_cache (race_at clock c a b) = c"
  "sh_request (race_at clock c a b) 0 = a" "sh_request (race_at clock c a b) (Suc 0) = b"
  "(race_at clock c a b)\<lparr>sh_request := (sh_request (race_at clock c a b))(0 := x)\<rparr> = race_at clock c x b"
  "(race_at clock c a b)\<lparr>sh_request := (sh_request (race_at clock c a b))(Suc 0 := x)\<rparr> = race_at clock c a x"
  "(race_at clock c a b)\<lparr>sh_cache := c', sh_request := (sh_request (race_at clock c a b))(0 := x)\<rparr> = race_at clock c' x b"
  "(race_at clock c a b)\<lparr>sh_cache := c', sh_request := (sh_request (race_at clock c a b))(Suc 0 := x)\<rparr> = race_at clock c' a x"
  by (auto simp: race_at_def)

text \<open>A first request that asked and was answered at once serves what was published then.\<close>

lemma race_holds:
  fixes p :: "nat provider"
  assumes "0 \<le> pr_fetchTimeout p"
  obtains g0 g where "(kstep p race_published lag)\<^sup>*\<^sup>* g0 g" "started g0" "serves_set p g 0" "sh_clock g = 0"
proof -
  let ?c = "\<lparr> ca_set = None, ca_fetchedAt = 0 \<rparr> :: nat cache"
  let ?step = "kstep p race_published lag"
  have "?step (race_at 0 ?c Idle Idle) (race_at 0 ?c (Asking 0) Idle)"
    "?step (race_at 0 ?c (Asking 0) Idle) (race_at 0 ?c (Holding 0 0 0) Idle)"
    using assms kstep.ask [of "race_at 0 ?c Idle Idle" 0 p race_published lag]
      kstep.arrive [of "race_at 0 ?c (Asking 0) Idle" 0 0 p 0 race_published lag]
    by (simp_all add: race_at_simps fresh_def race_published_def)
  then have "?step\<^sup>*\<^sup>* (race_at 0 ?c Idle Idle) (race_at 0 ?c (Holding 0 0 0) Idle)"
    by (meson converse_rtranclp_into_rtranclp rtranclp.rtrancl_refl)
  moreover have "started (race_at 0 ?c Idle Idle)" by (simp add: started_def race_at_def)
  moreover have "serves_set p (race_at 0 ?c (Holding 0 0 0) Idle) 0"
    unfolding serves_set_def by (intro disjI2 exI [of _ 0]) (simp add: race_at_simps)
  ultimately show thesis by (rule that) (simp add: race_at_simps)
qed

lemma stale_overwrite:
  fixes p :: "nat provider"
  assumes "1 \<le> pr_fetchTimeout p" "1 \<le> lag"
  shows "\<exists>g0 g g'. started g0 \<and> (kstep p race_published lag)\<^sup>*\<^sup>* g0 g \<and> kstep p race_published lag g g' \<and>
    ca_set (sh_cache g) = Some 1 \<and> ca_set (sh_cache g') = Some 0 \<and>
    ca_fetchedAt (sh_cache g') = sh_clock g \<and> race_published (sh_clock g) = 1"
proof -
  let ?cache = "\<lambda>ks t. \<lparr> ca_set = ks, ca_fetchedAt = t \<rparr> :: nat cache"
  let ?step = "kstep p race_published lag"
  have s: "?step (race_at 0 (?cache None 0) Idle Idle) (race_at 0 (?cache None 0) (Asking 0) Idle)"
    "?step (race_at 0 (?cache None 0) (Asking 0) Idle) (race_at 0 (?cache None 0) (Asking 0) (Asking 0))"
    using kstep.ask [of "race_at 0 (?cache None 0) Idle Idle" 0 p race_published lag]
      kstep.ask [of "race_at 0 (?cache None 0) (Asking 0) Idle" 1 p race_published lag]
    by (simp_all add: race_at_simps fresh_def)
  have t: "?step (race_at 0 (?cache None 0) (Asking 0) (Asking 0)) (race_at 0 (?cache None 0) (Holding 0 0 0) (Asking 0))"
    "?step (race_at 1 (?cache None 0) (Holding 0 0 0) (Asking 0)) (race_at 1 (?cache None 0) (Holding 0 0 0) (Holding 1 0 1))"
    using assms(1) kstep.arrive [of "race_at 0 (?cache None 0) (Asking 0) (Asking 0)" 0 0 p 0 race_published lag]
      kstep.arrive [of "race_at 1 (?cache None 0) (Holding 0 0 0) (Asking 0)" 1 0 p 1 race_published lag]
    by (simp_all add: race_at_simps race_published_def)
  have u: "?step (race_at 0 (?cache None 0) (Holding 0 0 0) (Asking 0)) (race_at 1 (?cache None 0) (Holding 0 0 0) (Asking 0))"
    using assms(2) kstep.tick [of 1 "race_at 0 (?cache None 0) (Holding 0 0 0) (Asking 0)" lag p race_published]
    by (simp add: race_at_def split: if_splits)
  have w: "?step (race_at 1 (?cache None 0) (Holding 0 0 0) (Holding 1 0 1)) (race_at 1 (?cache (Some 1) 1) (Holding 0 0 0) Idle)"
    "?step (race_at 1 (?cache (Some 1) 1) (Holding 0 0 0) Idle) (race_at 1 (?cache (Some 0) 1) Idle Idle)"
    using kstep.store [of "race_at 1 (?cache None 0) (Holding 0 0 0) (Holding 1 0 1)" 1 1 0 1 p race_published lag]
      kstep.store [of "race_at 1 (?cache (Some 1) 1) (Holding 0 0 0) Idle" 0 0 0 0 p race_published lag]
    by (simp_all add: race_at_simps)
  have "?step\<^sup>*\<^sup>* (race_at 0 (?cache None 0) Idle Idle) (race_at 1 (?cache (Some 1) 1) (Holding 0 0 0) Idle)"
    using s t u w(1) by (meson converse_rtranclp_into_rtranclp rtranclp.rtrancl_refl)
  moreover have "started (race_at 0 (?cache None 0) Idle Idle)" by (simp add: started_def race_at_def)
  ultimately show ?thesis
    using w(2) by (intro exI conjI) (assumption | simp add: race_published_def race_at_def)+
qed

end
