(* ===== verification/Intent_Http.thy ===== *)
theory Intent_Http
  imports Ports Go_Http
begin

text \<open>
  \<^verbatim>\<open>internal/adapters/intent/http/verifier.go\<close>: the intent authority behind HTTP. A context
  and its deadline are the client's business: a request that ran out of time is an error of
  the transport. No answer but a 2xx response with a JSON body that decodes is taken for one.
\<close>

record http_verifier =
  hv_baseURL :: string
  hv_client :: client

text \<open>\<open>dflt\<close> is \<^verbatim>\<open>http.DefaultClient\<close>.\<close>

definition intent_New :: "client \<Rightarrow> string \<Rightarrow> client option \<Rightarrow> http_verifier" where
  "intent_New dflt baseURL client =
     \<lparr> hv_baseURL = baseURL, hv_client = (case client of None \<Rightarrow> dflt | Some c \<Rightarrow> c) \<rparr>"

definition check_request_val :: "goval \<Rightarrow> goval" where
  "check_request_val projection = VObj [(''projection'', projection)]"

definition check_response0 :: intent_decision where
  "check_response0 = \<lparr> id_Allowed = False, id_Reason = [] \<rparr>"

definition dec_check_response :: "intent_decision jdec" where
  "dec_check_response = dec_struct
     [(''allowed'', at_field id_Allowed id_Allowed_update dec_bool),
      (''reason'', at_field id_Reason id_Reason_update dec_string)]"

definition dec_hash_response :: "string jdec" where
  "dec_hash_response = dec_struct [(''constraints_hash'', at_field id (\<lambda>f. f) dec_string)]"

definition intent_doJSON :: "client \<Rightarrow> request \<Rightarrow> 'a jdec \<Rightarrow> 'a \<Rightarrow> 'a res" where
  "intent_doJSON C rq d x0 = do_json ErrAuthorityUnreachable ErrAuthorityResponse C rq d x0"

definition check_request :: "http_verifier \<Rightarrow> string \<Rightarrow> bytes \<Rightarrow> request" where
  "check_request v intentRef body =
     \<lparr> rq_method = ''POST'',
       rq_target = hv_baseURL v @ ''/v1/intents/'' @ PathEscape intentRef @ ''/check'',
       rq_headers = fmap_of_list [(''Content-Type'', ''application/json'')], rq_body = body \<rparr>"

definition intent_Check :: "http_verifier \<Rightarrow> string \<Rightarrow> goval \<Rightarrow> intent_decision res" where
  "intent_Check v intentRef projection =
     (case marshal (check_request_val projection) of
        Inl e \<Rightarrow> Inl (errorf ''http: encode check request: '' e)
      | Inr body \<Rightarrow>
     (let req = check_request v intentRef body in
      case cl_parse (hv_client v) (rq_target req) of
        Some e \<Rightarrow> Inl (errorf ''http: build check request: '' e)
      | None \<Rightarrow>
     (case intent_doJSON (hv_client v) req dec_check_response check_response0 of
        Inl e \<Rightarrow> Inl (errorf ''http: check: '' e)
      | Inr resp \<Rightarrow> Inr \<lparr> id_Allowed = id_Allowed resp, id_Reason = id_Reason resp \<rparr>)))"

definition hash_request :: "http_verifier \<Rightarrow> string \<Rightarrow> request" where
  "hash_request v intentRef =
     \<lparr> rq_method = ''GET'',
       rq_target = hv_baseURL v @ ''/v1/intents/'' @ PathEscape intentRef @ ''/constraints-hash'',
       rq_headers = fmempty, rq_body = [] \<rparr>"

definition intent_ConstraintsHash :: "http_verifier \<Rightarrow> string \<Rightarrow> string res" where
  "intent_ConstraintsHash v intentRef =
     (let req = hash_request v intentRef in
      case cl_parse (hv_client v) (rq_target req) of
        Some e \<Rightarrow> Inl (errorf ''http: build constraints hash request: '' e)
      | None \<Rightarrow>
     (case intent_doJSON (hv_client v) req dec_hash_response [] of
        Inl e \<Rightarrow> Inl (errorf ''http: constraints hash: '' e)
      | Inr h \<Rightarrow>
          if h = [] then Inl (errorf ''http: constraints hash: '' (Sentinel ErrAuthorityResponse))
          else Inr h))"

definition health_request :: "http_verifier \<Rightarrow> request" where
  "health_request v =
     \<lparr> rq_method = ''GET'', rq_target = hv_baseURL v @ ''/v1/health'', rq_headers = fmempty, rq_body = [] \<rparr>"

text \<open>\<open>None\<close> is the nil error: the authority is reachable.\<close>

definition intent_Ping :: "http_verifier \<Rightarrow> err option" where
  "intent_Ping v =
     (let req = health_request v in
      case cl_parse (hv_client v) (rq_target req) of
        Some e \<Rightarrow> Some (errorf ''http: build health request: '' e)
      | None \<Rightarrow>
     (case do_request ErrAuthorityUnreachable ErrAuthorityResponse (hv_client v) req of
        Inl e \<Rightarrow> Some e
      | Inr rs \<Rightarrow> None))"

definition http_authority :: "http_verifier \<Rightarrow> intent_verifier" where
  "http_authority v = \<lparr> iv_Check = intent_Check v, iv_ConstraintsHash = intent_ConstraintsHash v \<rparr>"

section \<open>No answer, no verdict\<close>

text \<open>Every verdict and every hash is the body of a 2xx response; everything else is an error.\<close>

lemma intent_Check_Inr:
  "intent_Check v ref projection = Inr d \<longleftrightarrow>
     (\<exists>body rs. marshal (check_request_val projection) = Inr body \<and>
        cl_parse (hv_client v) (rq_target (check_request v ref body)) = None \<and>
        cl_do (hv_client v) (check_request v ref body) = Inr rs \<and> status_2xx rs \<and>
        json_Decode dec_check_response check_response0 maxResponseBody (rs_body rs) = Inr d)"
proof (cases "marshal (check_request_val projection)")
  case (Inr body)
  have "intent_Check v ref projection = Inr d \<longleftrightarrow>
      cl_parse (hv_client v) (rq_target (check_request v ref body)) = None \<and>
      intent_doJSON (hv_client v) (check_request v ref body) dec_check_response check_response0 = Inr d"
    by (auto simp: intent_Check_def Inr Let_def split: sum.splits option.splits)
  then show ?thesis by (simp add: Inr intent_doJSON_def do_json_Inr)
qed (simp add: intent_Check_def)

lemma intent_Hash_Inr:
  "intent_ConstraintsHash v ref = Inr h \<longleftrightarrow>
     h \<noteq> [] \<and> (\<exists>rs. cl_parse (hv_client v) (rq_target (hash_request v ref)) = None \<and>
        cl_do (hv_client v) (hash_request v ref) = Inr rs \<and> status_2xx rs \<and>
        json_Decode dec_hash_response [] maxResponseBody (rs_body rs) = Inr h)"
proof -
  have "intent_ConstraintsHash v ref = Inr h \<longleftrightarrow>
      h \<noteq> [] \<and> cl_parse (hv_client v) (rq_target (hash_request v ref)) = None \<and>
      intent_doJSON (hv_client v) (hash_request v ref) dec_hash_response [] = Inr h"
    by (auto simp: intent_ConstraintsHash_def Let_def split: sum.splits option.splits)
  then show ?thesis by (simp add: intent_doJSON_def do_json_Inr)
qed

text \<open>A hash was decoded from JSON, so it is valid text.\<close>

lemma intent_hash_text: "intent_ConstraintsHash v ref = Inr h \<Longrightarrow> utf8_valid h"
proof -
  have "keeps utf8_valid dec_hash_response"
    unfolding dec_hash_response_def by (rule keeps_struct) (auto intro!: keeps_field [OF keeps_string])
  then show "intent_ConstraintsHash v ref = Inr h \<Longrightarrow> utf8_valid h"
    using Decode_keeps [of utf8_valid dec_hash_response "[]"] by (auto simp: intent_Hash_Inr)
qed

lemma intent_Ping_None:
  "intent_Ping v = None \<longleftrightarrow>
     cl_parse (hv_client v) (rq_target (health_request v)) = None \<and>
     (\<exists>rs. cl_do (hv_client v) (health_request v) = Inr rs \<and> status_2xx rs)"
  by (auto simp: intent_Ping_def Let_def do_request_def split: sum.splits option.splits)

end
