(* ===== verification/Api_Main.thy ===== *)
theory Api_Main
  imports Shell_Api Vault_Signer Keycloak Intent_Http Config
begin

text \<open>
  \<^verbatim>\<open>cmd/chainbind-api/main.go\<close>: the API server put together from its configuration. Logging,
  the listener and the shutdown on a signal are left out; what remains is which adapters a
  server that starts serves with, and that they are configured the way the API relies on.
\<close>

section \<open>Starting\<close>

text \<open>
  \<open>st_client\<close> is \<^verbatim>\<open>http.DefaultClient\<close> under the start-up deadline, \<open>st_parse\<close> the validation of a
  token against a key set.
\<close>

record 'set startup =
  st_env :: "string \<Rightarrow> string"
  st_client :: client
  st_ReadFile :: "string \<Rightarrow> bytes res"
  st_parse :: "'set \<Rightarrow> string \<Rightarrow> string \<Rightarrow> string \<Rightarrow> token res"

text \<open>What the server's handler is built from, and the address it listens on.\<close>

record 'set server =
  sv_addr :: string
  sv_issuerID :: string
  sv_signer :: vault_signer
  sv_issuerKid :: string
  sv_issuerPub :: bytes
  sv_intent :: http_verifier
  sv_authz :: "'set provider \<times> 'set cache"
  sv_audiences :: "audience list"

definition api_run :: "'set startup \<Rightarrow> 'set server res" where
  "api_run st =
     (case Load (st_env st) of
        Inl e \<Rightarrow> Inl e
      | Inr cfg \<Rightarrow>
     (case vault_New (st_client st) (cf_VaultAddr cfg) (cf_VaultToken cfg) (cf_VaultTransitKey cfg) None of
        Inl e \<Rightarrow> Inl e
      | Inr signer \<Rightarrow>
     (case vault_Kid signer None of
        Inl e \<Rightarrow> Inl e
      | Inr issuerKid \<Rightarrow>
        let issuerPub = vault_PublicKey signer;
            intentVerifier = intent_New (st_client st) (cf_IntentAuthorityURL cfg) None;
            authz = keycloak_New (st_parse st) (cf_KeycloakJWKSURL cfg) (cf_KeycloakIssuer cfg) (cf_KeycloakAudience cfg) in
     (case LoadAudiences (st_ReadFile st (cf_AudiencesFile cfg)) of
        Inl e \<Rightarrow> Inl e
      | Inr audiences \<Rightarrow>
          Inr \<lparr> sv_addr = cf_HTTPAddr cfg, sv_issuerID = cf_IssuerID cfg, sv_signer = signer,
                sv_issuerKid = issuerKid, sv_issuerPub = issuerPub, sv_intent = intentVerifier,
                sv_authz = authz, sv_audiences = audiences \<rparr>))))"

text \<open>
  The configuration of the handler for a request: \<open>authz\<close> is what \<open>Authorize\<close> answers for it, which
  depends on the cached key set and the time.
\<close>

definition server_config :: "prims \<Rightarrow> 'set server \<Rightarrow> (string \<Rightarrow> err option) \<Rightarrow> handler_config" where
  "server_config P sv authz =
     \<lparr> hc_Authorizer = authz, hc_Signer = vault_port P (sv_signer sv, None), hc_KeyWrapper = Wrapper P,
       hc_Audiences = sv_audiences sv, hc_IssuerID = sv_issuerID sv,
       hc_IntentVerifier = http_authority (sv_intent sv),
       hc_IssuerKey = (\<lambda>iss kid. if kid \<noteq> sv_issuerKid sv then None else Some (sv_issuerPub sv)),
       hc_VaultProber = vault_Ping (sv_signer sv), hc_AuthorityProber = intent_Ping (sv_intent sv) \<rparr>"

section \<open>A server that starts\<close>

lemma api_run_Inr:
  assumes "api_run st = Inr sv"
  obtains cfg where "Load (st_env st) = Inr cfg"
    "vault_New (st_client st) (cf_VaultAddr cfg) (cf_VaultToken cfg) (cf_VaultTransitKey cfg) None = Inr (sv_signer sv)"
    "vault_Kid (sv_signer sv) None = Inr (sv_issuerKid sv)" "sv_issuerPub sv = vs_pub (sv_signer sv)"
    "sv_intent sv = intent_New (st_client st) (cf_IntentAuthorityURL cfg) None" "sv_issuerID sv = cf_IssuerID cfg"
    "LoadAudiences (st_ReadFile st (cf_AudiencesFile cfg)) = Inr (sv_audiences sv)" "sv_addr sv = cf_HTTPAddr cfg"
  using assms
  by (auto simp: api_run_def Let_def vault_PublicKey_def split: sum.splits)

lemma utf8_key_id: "utf8_valid name \<Longrightarrow> utf8_valid (name @ '':v'' @ dec_int n)"
proof -
  have "ascii (dec_int n)" using dec_nat_digits by (fastforce simp: ascii_def list_all_iff dec_int_def)
  then have "ascii ('':v'' @ dec_int n)" by simp
  then show "utf8_valid name \<Longrightarrow> ?thesis" using utf8_append_iff ascii_utf8 by blast
qed

text \<open>
  A server that starts over an honest Vault, with a key name and an issuer that are valid
  text, is configured the way the two routes rely on.
\<close>

lemma started_well_configured:
  assumes "api_run st = Inr sv" "vault_honest P (sv_signer sv) pubs"
    "pubs (vs_version (sv_signer sv)) = sv_issuerPub sv"
    and "utf8_valid (st_env st ''CHAINBIND_ISSUER_ID'')" "utf8_valid (st_env st ''CHAINBIND_VAULT_TRANSIT_KEY'')"
  shows "well_configured P (server_config P sv authz) (sv_issuerKid sv) (sv_issuerPub sv)"
proof -
  obtain cfg where run: "Load (st_env st) = Inr cfg"
    "vault_New (st_client st) (cf_VaultAddr cfg) (cf_VaultToken cfg) (cf_VaultTransitKey cfg) None = Inr (sv_signer sv)"
    "vault_Kid (sv_signer sv) None = Inr (sv_issuerKid sv)" "sv_issuerPub sv = vs_pub (sv_signer sv)"
    "sv_issuerID sv = cf_IssuerID cfg"
    "LoadAudiences (st_ReadFile st (cf_AudiencesFile cfg)) = Inr (sv_audiences sv)"
    using assms(1) by (rule api_run_Inr)
  from run(1) have cfg: "cfg = config_of (st_env st)" by (auto simp: Load_cases split: if_splits)
  from run(2) have pinned: "length (vs_pub (sv_signer sv)) = 32" "vs_name (sv_signer sv) = cf_VaultTransitKey cfg"
    by (rule vault_New_Inr, simp)+
  have "vault_pinned P (sv_signer sv, None) (sv_issuerPub sv)"
    using assms(2,3) pinned(1) run(4) by (auto simp: vault_pinned_def)
  then have "signs_for P (vault_port P (sv_signer sv, None)) (sv_issuerPub sv)"
    unfolding signs_for_def using vault_signer.sign_verifies by blast
  moreover have "utf8_valid (sv_issuerKid sv)"
    using run(3) pinned(2) utf8_key_id [OF assms(5), of "vs_version (sv_signer sv)"]
    by (simp add: vault_Kid_def cfg config_of_def del: utf8_valid.simps(2))
  ultimately show ?thesis
    using run(3,5) assms(4) LoadAudiences_kid [OF run(6)] intent_hash_text
    by (auto simp: well_configured_def server_config_def vault_port_def http_authority_def cfg config_of_def
        list_all_iff issuerKeyResolver_def fun_eq_iff)
qed

end
