(* ===== verification/Demo_Shell.thy ===== *)
theory Demo_Shell
  imports Demo Api_Main
begin

text \<open>
  A concrete API server for the witnesses: it starts against one answer for every request,
  which holds a Vault key, a Vault signature and the authority's allowance at once, over
  primitives whose signatures are constant.
\<close>

definition flat_prims :: prims where
  "flat_prims = demo_prims\<lparr>ed25519_sign := (\<lambda>k m. replicate 64 0),
                           ed25519_verify := (\<lambda>pub m s. s = replicate 64 0)\<rparr>"

definition demo_sig :: string where
  "demo_sig = ''vault:v1:'' @ std_encode (replicate 64 0)"

definition demo_answer :: goval where
  "demo_answer = VObj
     [(''data'', VObj
        [(''type'', VStr ''ed25519''), (''latest_version'', VNum (dec_int 1)),
         (''keys'', VObj [(''1'', VObj [(''public_key'', VStr (std_encode (replicate 32 0)))])]),
         (''signature'', VStr demo_sig)]),
      (''allowed'', VBool True), (''constraints_hash'', VStr ''h'')]"

definition demo_client :: client where
  "demo_client = \<lparr> cl_parse = (\<lambda>url. None), cl_do = (\<lambda>rq. Inr (json_response 200 demo_answer)) \<rparr>"

definition demo_seeds :: "audienceSeed list" where
  "demo_seeds =
     [\<lparr> as_Name = AudienceUser, as_Kid = ''k1'', as_PublicKey = raw_url_encode (demo_public 1) \<rparr>,
      \<lparr> as_Name = AudienceMerchant, as_Kid = ''k2'', as_PublicKey = raw_url_encode (demo_public 2) \<rparr>,
      \<lparr> as_Name = AudienceGateway, as_Kid = ''k3'', as_PublicKey = raw_url_encode (demo_public 3) \<rparr>]"

definition seed_val :: "audienceSeed \<Rightarrow> goval" where
  "seed_val s = VObj [(''name'', VStr (as_Name s)), (''kid'', VStr (as_Kid s)), (''public_key'', VStr (as_PublicKey s))]"

definition demo_startup :: "unit startup" where
  "demo_startup =
     \<lparr> st_env = (\<lambda>name. ''k''), st_client = demo_client,
       st_ReadFile = (\<lambda>path. Inr (bytes_of (render (vlist seed_val demo_seeds)))),
       st_parse = (\<lambda>ks iss aud bearer. Inl (LibErr ''no'')) \<rparr>"

definition demo_vault :: vault_signer where
  "demo_vault =
     \<lparr> vs_addr = ''k'', vs_token = ''k'', vs_name = ''k'', vs_client = demo_client, vs_version = 1,
       vs_pub = replicate 32 0 \<rparr>"

definition demo_lib :: read_lib where
  "demo_lib = \<lparr> rd_floats = demo_floats, rd_time = (\<lambda>s. None) \<rparr>"

section \<open>The client's answers\<close>

lemma utf8_std: "utf8_valid (std_encode b)"
  using ascii_std_encode by (rule ascii_utf8)

lemma demo_answer_text: "readable demo_answer" "depth demo_answer \<le> maxNestingDepth" "first_fail demo_answer = None"
  by (simp_all add: demo_answer_def num_ok_dec_int maxNestingDepth_def)

lemma demo_answer_length: "length (encode demo_answer) \<le> maxResponseBody"
proof -
  have "length (render demo_answer) < 400" by code_simp
  then show ?thesis using demo_answer_text(3) by (simp add: encode_def marshal_def maxResponseBody_def)
qed

lemma demo_decode:
  "d (syntax_of demo_answer) x0 = Some x \<Longrightarrow> json_Decode d x0 maxResponseBody (encode demo_answer) = Inr x"
  by (rule encode_read) (use demo_answer_text demo_answer_length in \<open>simp_all add: demo_answer_def\<close>)

lemma demo_json:
  "d (syntax_of demo_answer) x0 = Some x \<Longrightarrow> do_json unreachable bad demo_client rq d x0 = Inr x"
  by (simp add: do_json_Inr demo_client_def json_response_def status_2xx_def demo_decode)

section \<open>Starting\<close>

lemma std_back: "std_decode (std_encode b) = Some b"
  by (simp add: std_roundtrip)

text \<open>The names of members up to case, evaluated once.\<close>

lemma folded:
  "fold_key ''data'' = ''DATA''"
  "fold_key ''type'' = ''TYPE''"
  "fold_key ''latest_version'' = ''LATEST_VERSION''"
  "fold_key ''keys'' = ''KEYS''"
  "fold_key ''1'' = ''1''"
  "fold_key ''public_key'' = ''PUBLIC_KEY''"
  "fold_key ''signature'' = ''SIGNATURE''"
  "fold_key ''allowed'' = ''ALLOWED''"
  "fold_key ''constraints_hash'' = ''CONSTRAINTS_HASH''"
  "fold_key ''reason'' = ''REASON''"
  "fold_key ''name'' = ''NAME''"
  "fold_key ''kid'' = ''KID''"
  by code_simp+

declare json_escape.simps(2) [simp del] fold_key.simps(2) [simp del]

lemmas member_names = dec_struct_def find_field_def at_field_def folded

definition demo_version :: key_version_key where
  "demo_version = \<lparr> kv_PublicKey = std_encode (replicate 32 0) \<rparr>"

lemma demo_dec_version:
  "dec_key_version (syntax_of (VObj [(''public_key'', VStr (std_encode (replicate 32 0)))])) key_version0 = Some demo_version"
  by (simp add: dec_key_version_def member_names key_version0_def dec_string_def utf8_std demo_version_def)

lemma demo_dec_keys:
  "dec_map dec_key_version key_version0
     (syntax_of (VObj [(''1'', VObj [(''public_key'', VStr (std_encode (replicate 32 0)))])])) fmempty
     = Some (fmupd ''1'' demo_version fmempty)"
  using demo_dec_version by (simp add: dec_map_def)

lemma demo_keys:
  "dec_keys_response (syntax_of demo_answer) keys_response0 = Some
     \<lparr> kr_Data = \<lparr> kd_LatestVersion = 1, kd_Type = ''ed25519'', kd_Keys = fmupd ''1'' demo_version fmempty \<rparr> \<rparr>"
  using demo_dec_keys
  by (simp add: demo_answer_def dec_keys_response_def dec_keys_data_def member_names keys_response0_def
      dec_string_def dec_goint_def Atoi_dec_int)

lemma std_not_Nil: "b \<noteq> [] \<Longrightarrow> std_encode b \<noteq> []"
proof -
  have "std_encode [] = []" by code_simp
  then show "b \<noteq> [] \<Longrightarrow> ?thesis" using std_back [of b] std_back [of "[]"] by auto
qed

lemma demo_vault_New: "vault_New demo_client ''k'' ''k'' ''k'' None = Inr demo_vault"
proof -
  have one: "dec_int 1 = ''1''" by (simp add: dec_int_def dec_nat.simps digit_char_def)
  have answer: "do_json unreachable bad demo_client rq dec_keys_response keys_response0 = Inr
     \<lparr> kr_Data = \<lparr> kd_LatestVersion = 1, kd_Type = ''ed25519'', kd_Keys = fmupd ''1'' demo_version fmempty \<rparr> \<rparr>"
    for unreachable bad rq by (rule demo_json) (rule demo_keys)
  have parse: "cl_parse demo_client url = None" for url by (simp add: demo_client_def)
  have "kv_PublicKey demo_version \<noteq> []" using std_not_Nil [of "replicate 32 0"] by (simp add: demo_version_def)
  then show ?thesis
    by (simp add: vault_New_def fetchKeyMetadata_def Let_def vault_doJSON_def answer one parse)
      (simp add: demo_version_def std_back demo_vault_def)
qed

section \<open>Signing\<close>

lemma demo_signature:
  "dec_sign_response (syntax_of demo_answer) sign_response0
     = Some \<lparr> gr_Data = \<lparr> sd_Signature = demo_sig \<rparr> \<rparr>"
proof -
  have "utf8_valid demo_sig" unfolding demo_sig_def by (rule utf8_append) (simp, rule utf8_std)
  then show ?thesis
    by (simp add: demo_answer_def dec_sign_response_def member_names sign_response0_def dec_string_def)
qed

lemma demo_parsed: "parseVaultSignature demo_sig = Inr (1, std_encode (replicate 64 0))"
proof -
  have "dec_int 1 = ''1''" by (simp add: dec_int_def dec_nat.simps digit_char_def)
  with parse_vault_text [of 1 "std_encode (replicate 64 0)"] show ?thesis by (simp add: demo_sig_def)
qed

lemma demo_vault_doJSON:
  "vault_doJSON demo_client rq dec_sign_response sign_response0
     = Inr \<lparr> gr_Data = \<lparr> sd_Signature = demo_sig \<rparr> \<rparr>"
  unfolding vault_doJSON_def by (rule demo_json) (rule demo_signature)

lemma demo_vault_Sign: "vault_Sign demo_vault m = Inr (replicate 64 0)"
proof -
  have "cl_parse demo_client url = None" for url by (simp add: demo_client_def)
  moreover have "\<exists>body. marshal (sign_request_val (std_encode m) 1) = Inr body"
    by (simp add: marshal_def sign_request_val_def)
  ultimately show ?thesis
    unfolding vault_Sign_Inr
    using demo_vault_doJSON demo_parsed std_back [of "replicate 64 0"] by (auto simp: demo_vault_def)
qed

lemma demo_vault_honest: "vault_honest flat_prims demo_vault (\<lambda>n. replicate 32 0)"
  unfolding vault_honest_def
proof (intro allI impI)
  fix m v body resp n b64 sig
  assume "vault_doJSON (vs_client demo_vault) (sign_request demo_vault body) dec_sign_response sign_response0 = Inr resp"
    "parseVaultSignature (sd_Signature (gr_Data resp)) = Inr (n, b64)" "std_decode b64 = Some sig"
  then have "sig = replicate 64 0" using demo_vault_doJSON demo_parsed std_back by (auto simp: demo_vault_def)
  then show "ed25519_verify flat_prims (replicate 32 0) m sig" by (simp add: flat_prims_def)
qed

section \<open>The server\<close>

definition demo_auds :: "audience list" where
  "demo_auds = map (\<lambda>(a, k, n). \<lparr> au_Name = a, au_PublicKey = demo_public n, au_Kid = k \<rparr>)
     [(AudienceUser, ''k1'', 1), (AudienceMerchant, ''k2'', 2), (AudienceGateway, ''k3'', 3)]"

lemma demo_seed:
  "utf8_valid (as_Name s) \<Longrightarrow> utf8_valid (as_Kid s) \<Longrightarrow> utf8_valid (as_PublicKey s) \<Longrightarrow>
     decodes dec_audienceSeed (seed_val s) s"
  by (simp add: decodes_def dec_audienceSeed_def seed_val_def member_names dec_string_def)

lemma demo_audiences: "LoadAudiences (Inr (bytes_of (render (vlist seed_val demo_seeds)))) = Inr demo_auds"
proof -
  let ?v = "vlist seed_val demo_seeds" and ?s0 = "\<lparr> as_Name = [], as_Kid = [], as_PublicKey = [] \<rparr>"
  have "decodes (dec_list dec_audienceSeed ?s0) ?v demo_seeds"
    by (rule decodes_list) (auto simp: demo_seeds_def ascii_raw_url intro!: demo_seed)
  then have "dec_list dec_audienceSeed ?s0 (syntax_of ?v) [] = Some demo_seeds" by (simp add: decodes_def)
  moreover have "marshal ?v = Inr (bytes_of (render ?v))" "readable ?v" "depth ?v \<le> maxNestingDepth"
    by (simp_all add: marshal_def vlist_def demo_seeds_def seed_val_def maxNestingDepth_def)
  ultimately have "json_Unmarshal (dec_list dec_audienceSeed ?s0) [] (bytes_of (render ?v)) = Inr demo_seeds"
    by (intro Unmarshal_written)
  then show ?thesis
    by (simp add: LoadAudiences_def demo_seeds_def raw_url_roundtrip demo_public_def x25519PublicKeySize_def demo_auds_def)
qed

definition demo_server :: "unit server" where
  "demo_server =
     \<lparr> sv_addr = ''k'', sv_issuerID = ''k'', sv_signer = demo_vault, sv_issuerKid = ''k:v1'',
       sv_issuerPub = replicate 32 0, sv_intent = intent_New demo_client ''k'' None,
       sv_authz = keycloak_New (\<lambda>ks iss aud bearer. Inl (LibErr ''no'')) ''k'' ''k'' ''k'',
       sv_audiences = demo_auds \<rparr>"

lemma demo_started: "api_run demo_startup = Inr demo_server"
proof -
  have cfg: "Load (st_env demo_startup) = Inr (config_of (\<lambda>name. ''k''))"
    by (simp add: Load_cases demo_startup_def missing_in_def required_def)
  have "dec_int 1 = ''1''" by (simp add: dec_int_def dec_nat.simps digit_char_def)
  then have kid: "vault_Kid demo_vault None = Inr ''k:v1''" by (simp add: vault_Kid_def demo_vault_def)
  have pub: "vault_PublicKey demo_vault = replicate 32 0" by (simp add: vault_PublicKey_def demo_vault_def)
  let ?c = "config_of (\<lambda>name. ''k'')"
  have st: "st_client demo_startup = demo_client" "st_parse demo_startup = (\<lambda>ks iss aud bearer. Inl (LibErr ''no''))"
    "st_ReadFile demo_startup path = Inr (bytes_of (render (vlist seed_val demo_seeds)))" for path
    by (simp_all add: demo_startup_def)
  have cf: "cf_VaultAddr ?c = ''k''" "cf_VaultToken ?c = ''k''" "cf_VaultTransitKey ?c = ''k''" "cf_IssuerID ?c = ''k''"
    "cf_IntentAuthorityURL ?c = ''k''" "cf_KeycloakIssuer ?c = ''k''" "cf_KeycloakJWKSURL ?c = ''k''"
    "cf_KeycloakAudience ?c = ''k''" "cf_HTTPAddr ?c = ''k''"
    by (simp_all add: config_of_def)
  show ?thesis
    unfolding api_run_def cfg sum.case st cf demo_vault_New kid pub demo_audiences Let_def demo_server_def ..
qed

definition demo_config :: handler_config where
  "demo_config = server_config flat_prims demo_server (\<lambda>bearer. None)"

section \<open>A request it seals\<close>

definition demo_now :: gotime where
  "demo_now = sr_IssuedAt demo_request"

definition shell_request :: "string \<Rightarrow> bytes \<Rightarrow> request" where
  "shell_request target body =
     \<lparr> rq_method = ''POST'', rq_target = target,
       rq_headers = fmap_of_list [(''Content-Type'', ''application/json'')], rq_body = body \<rparr>"

lemma shell_request_json: "hasJSONContentType (shell_request target body)"
proof -
  have "TrimSpace (takeWhile (\<lambda>c. c \<noteq> CHR '';'') ''application/json'') = ''application/json''" by code_simp
  then show ?thesis by (simp add: hasJSONContentType_def shell_request_def header_get_def)
qed

lemma demo_targets:
  "seal_target (shell_request ''/v1/packages/seal'' body)"
  "verify_target (shell_request ''/v1/packages/verify'' body)"
  by (auto simp: seal_target_def verify_target_def shell_request_def clean_segments_def)

lemma demo_payload_read: "json_Decode dec_payload payload0 maxSealRequestBody (encode (VObj [])) = Inr payload0"
  by (rule encode_read)
    (simp_all add: maxNestingDepth_def dec_payload_def dec_struct_def encode_def marshal_def maxSealRequestBody_def)

definition demo_shell_request :: "projection \<Rightarrow> seal_request" where
  "demo_shell_request projection =
     seal_request_of flat_prims (config_deps demo_config) demo_now payload0 (split_of payload0) projection"

lemma demo_parts: "dp_signer (config_deps demo_config) = vault_port flat_prims (demo_vault, None)"
  "dp_keyWrapper (config_deps demo_config) = Wrapper flat_prims"
  "dp_intent (config_deps demo_config) = http_authority (intent_New demo_client ''k'' None)"
  "dp_audiences (config_deps demo_config) = demo_auds" "dp_issuerID (config_deps demo_config) = ''k''"
  by (simp_all add: config_deps_def demo_config_def server_config_def demo_server_def)

lemma demo_projected: "\<exists>projection. Project (PayloadValue payload0) = Inr projection"
  by (simp add: Project_def asPayload_def)

lemma flat_laws: "sealing_laws flat_prims"
  using demo_laws(1)
  by (simp add: flat_prims_def sealing_laws_def jcs_total_def gcm_ok_def sha256_ok_def)

lemma demo_shell_sealable: "sealable flat_prims (demo_shell_request projection)"
proof -
  have "request_text (demo_shell_request projection)"
    by (simp add: demo_shell_request_def seal_request_of_def request_text_def demo_parts demo_auds_def Name_def
        payload0_def request_context0_def)
  moreover have "agreeable flat_prims (demo_public n)" for n
    using demo_agreeable by (simp add: flat_prims_def agreeable_def)
  ultimately show ?thesis
    by (simp add: sealable_def demo_shell_request_def seal_request_of_def demo_parts demo_auds_def
        profile_SegmentOrder_def split_of_lookup time_ok_def demo_now_def demo_request_def)
qed

lemma demo_shell_computes:
  "\<forall>spec \<in> set (sr_BindingSpecs (demo_shell_request projection)). computes (demo_shell_request projection) spec"
proof -
  have "{AudienceMerchant, AudienceGateway} \<subseteq> au_Name ` set (sr_Audiences (demo_shell_request projection))"
    by (simp add: demo_shell_request_def seal_request_of_def demo_parts demo_auds_def)
  moreover have "jcs_total flat_prims" using flat_laws by (simp add: sealing_laws_def)
  ultimately show ?thesis using profile_computes by (simp add: demo_shell_request_def seal_request_of_def)
qed

lemma demo_vault_answers: "answers (vault_port flat_prims (demo_vault, None))"
proof -
  have "utf8_valid (''k'' @ '':v'' @ dec_int 1)" by (rule utf8_key_id) simp
  then show ?thesis
    by (simp add: answers_def vault_port_def vault_Kid_def demo_vault_Sign, simp add: demo_vault_def)
qed

lemma demo_allows:
  "iv_Check (http_authority (intent_New demo_client ''k'' None)) ref (projection_val q)
     = Inr \<lparr> id_Allowed = True, id_Reason = [] \<rparr>"
proof -
  have "dec_check_response (syntax_of demo_answer) check_response0 = Some \<lparr> id_Allowed = True, id_Reason = [] \<rparr>"
    by (simp add: demo_answer_def dec_check_response_def check_response0_def member_names dec_bool_def)
  then have "intent_doJSON demo_client rq dec_check_response check_response0 = Inr \<lparr> id_Allowed = True, id_Reason = [] \<rparr>"
    for rq unfolding intent_doJSON_def by (rule demo_json)
  moreover have "cl_parse demo_client url = None" for url by (simp add: demo_client_def)
  moreover have "\<exists>b. marshal (check_request_val (projection_val q)) = Inr b"
    using no_fail_sections by (simp add: marshal_def check_request_val_def)
  ultimately show ?thesis
    by (auto simp: http_authority_def intent_Check_def intent_New_def Let_def)
qed

lemma demo_hashes: "iv_ConstraintsHash (http_authority (intent_New demo_client ''k'' None)) ref = Inr ''h''"
proof -
  have "dec_hash_response (syntax_of demo_answer) [] = Some ''h''"
    by (simp add: demo_answer_def dec_hash_response_def member_names dec_string_def)
  then have "intent_doJSON demo_client rq dec_hash_response [] = Inr ''h''" for rq
    unfolding intent_doJSON_def by (rule demo_json)
  moreover have "cl_parse demo_client url = None" for url by (simp add: demo_client_def)
  ultimately show ?thesis
    by (simp add: http_authority_def intent_ConstraintsHash_def intent_New_def Let_def)
qed

lemma demo_shell_sealed:
  obtains projection pkg s where "Project (PayloadValue payload0) = Inr projection"
    "Seal flat_prims (demo_shell_request projection) (vault_port flat_prims (demo_vault, None)) (Wrapper flat_prims)
       (http_authority (intent_New demo_client ''k'' None)) demo_world = (Inr pkg, s)"
proof -
  obtain q where q: "Project (PayloadValue payload0) = Inr q" using demo_projected by blast
  have "authorizes (http_authority (intent_New demo_client ''k'' None)) (demo_shell_request q)"
    using demo_allows demo_hashes
    by (simp add: authorizes_def demo_shell_request_def seal_request_of_def)
  moreover have "entropy_needed (demo_shell_request q) \<le> length (entropy demo_world)"
    by (simp add: entropy_needed_def demo_shell_request_def seal_request_of_def demo_parts demo_auds_def demo_world_def)
  ultimately obtain pkg s where
    "Seal flat_prims (demo_shell_request q) (vault_port flat_prims (demo_vault, None)) (Wrapper flat_prims)
       (http_authority (intent_New demo_client ''k'' None)) demo_world = (Inr pkg, s)"
    using Seal_live [OF flat_laws demo_shell_sealable demo_shell_computes demo_vault_answers] by blast
  with q show thesis by (rule that)
qed

text \<open>The request for the seal route with an empty JSON object, and what the server answers.\<close>

definition demo_seal_rq :: request where
  "demo_seal_rq = shell_request ''/v1/packages/seal'' (encode (VObj []))"

lemma demo_shell_run:
  obtains rs w where "NewHandler flat_prims R demo_config demo_now demo_seal_rq demo_world = (rs, w)"
    "rs_status rs = 200" "\<exists>projection pkg. rs = shell_writeJSON 200 (package_val pkg) \<and>
      Seal flat_prims (demo_shell_request projection) (vault_port flat_prims (demo_vault, None)) (Wrapper flat_prims)
        (http_authority (intent_New demo_client ''k'' None)) demo_world = (Inr pkg, w)"
proof -
  obtain q pkg s where sealed: "Project (PayloadValue payload0) = Inr q"
    "Seal flat_prims (demo_shell_request q) (vault_port flat_prims (demo_vault, None)) (Wrapper flat_prims)
       (http_authority (intent_New demo_client ''k'' None)) demo_world = (Inr pkg, s)"
    by (rule demo_shell_sealed)
  have target: "seal_target demo_seal_rq" and json: "hasJSONContentType demo_seal_rq"
    and body: "rq_body demo_seal_rq = encode (VObj [])"
    by (simp_all add: demo_seal_rq_def demo_targets shell_request_json) (simp add: shell_request_def)
  have "Split (PayloadValue payload0) = Inr (split_of payload0)" by (simp add: Split_eq asPayload_def)
  then have "sealHandler flat_prims (config_deps demo_config) demo_now demo_seal_rq demo_world
      = (shell_writeJSON 200 (package_val pkg), s)"
    using json sealed demo_payload_read
    by (simp add: sealHandler_def body demo_parts demo_shell_request_def)
  then have "NewHandler flat_prims R demo_config demo_now demo_seal_rq demo_world
      = (shell_writeJSON 200 (package_val pkg), s)"
    by (simp add: NewHandler_seal [OF target] requireIssuerAdmin_def demo_config_def server_config_def)
  with sealed(2) show thesis by (intro that) (auto simp: shell_writeJSON_def json_response_def)
qed

end
