(* ===== verification/Go_Indent.thy ===== *)
theory Go_Indent
  imports Package_Wire
begin

text \<open>
  \<^verbatim>\<open>json.MarshalIndent\<close> with two spaces a level, as the command line writes packages and
  reports. A value without numbers reads back from its indented text as from its compact one.
\<close>

definition new_line :: "nat \<Rightarrow> string" where
  "new_line n = CHR 0x0A # replicate (2 * n) CHR 0x20"

fun render_indent :: "nat \<Rightarrow> goval \<Rightarrow> string"
  and indent_rest :: "nat \<Rightarrow> goval list \<Rightarrow> string"
  and indent_members :: "nat \<Rightarrow> (string \<times> goval) list \<Rightarrow> string" where
  "render_indent n VNull = ''null''"
| "render_indent n (VBool b) = (if b then ''true'' else ''false'')"
| "render_indent n (VNum t) = t"
| "render_indent n (VStr s) = json_string s"
| "render_indent n (VArr []) = ''[]''"
| "render_indent n (VArr (v # vs)) = ''['' @ new_line (Suc n) @ render_indent (Suc n) v @ indent_rest n vs"
| "render_indent n (VObj []) = ''{}''"
| "render_indent n (VObj ((k, v) # kvs)) =
     ''{'' @ new_line (Suc n) @ json_string k @ '': '' @ render_indent (Suc n) v @ indent_members n kvs"
| "render_indent n (VFail e) = []"
| "indent_rest n [] = new_line n @ '']''"
| "indent_rest n (v # vs) = '','' @ new_line (Suc n) @ render_indent (Suc n) v @ indent_rest n vs"
| "indent_members n [] = new_line n @ ''}''"
| "indent_members n ((k, v) # kvs) =
     '','' @ new_line (Suc n) @ json_string k @ '': '' @ render_indent (Suc n) v @ indent_members n kvs"

definition marshal_indent :: "goval \<Rightarrow> bytes res" where
  "marshal_indent v =
     (case first_fail v of Some e \<Rightarrow> Inl e | None \<Rightarrow> Inr (bytes_of (render_indent 0 v)))"

section \<open>White space between tokens\<close>

lemma read_space: "is_space c \<Longrightarrow> read_run m fs (c # s) = read_run m fs s"
  using read_run_step [of m fs c s "Inr (m, fs, s)"] by (simp add: read_step_def resume_Inr)

lemma read_blanks [simp]: "read_run m fs (replicate k CHR 0x20 @ s) = read_run m fs s"
  by (induction k) (simp_all add: read_space is_space_def)

lemma read_new_line [simp]: "read_run m fs (new_line n @ s) = read_run m fs s"
  by (simp add: new_line_def read_space is_space_def)

lemma read_colon_blank [simp]: "read_run (WantValue e) fs (CHR 0x20 # s) = read_run (WantValue e) fs s"
  by (simp add: read_space is_space_def)

lemma read_indent_at:
  "text_val v \<Longrightarrow> depth v + length fs \<le> maxNestingDepth \<Longrightarrow>
     read_run (WantValue e) fs (render_indent n v @ x) = resume (give (syntax_of v) fs x)"
  and read_indent_rest:
  "list_all text_val vs \<Longrightarrow> Suc (depth_list vs) + length fs \<le> maxNestingDepth \<Longrightarrow>
     read_run WantNext (InArr us # fs) (indent_rest n vs @ x)
       = resume (give (RArr (rev us @ map syntax_of vs)) fs x)"
  and read_indent_members:
  "list_all (\<lambda>(k, v). text_val v) kvs \<Longrightarrow> Suc (depth_members kvs) + length fs \<le> maxNestingDepth \<Longrightarrow>
     read_run WantNext (InObj kus [] # fs) (indent_members n kvs @ x)
       = resume (give (RObj (rev kus @ map (\<lambda>(k, v). (json_escape k, syntax_of v)) kvs)) fs x)"
proof (induction n v and n vs and n kvs arbitrary: e fs x and us fs x and kus fs x
    rule: render_indent_indent_rest_indent_members.induct)
  case (1 n)
  then show ?case using read_literal [of "CHR ''n''" "''ull''" RNull e fs x] by simp
next
  case (2 n b)
  then show ?case
    using read_literal [of "CHR ''t''" "''rue''" "RBool True" e fs x]
      read_literal [of "CHR ''f''" "''alse''" "RBool False" e fs x] by simp
next
  case (3 n t)
  then show ?case by simp
next
  case (4 n s)
  then show ?case by (simp add: read_string)
next
  case (5 n)
  then show ?case by (simp add: read_open read_close)
next
  case (6 n v vs)
  then show ?case by (simp add: read_open)
next
  case (7 n)
  then show ?case by (simp add: read_open read_close)
next
  case (8 n k v kvs)
  have "list_all (\<lambda>(k, v). text_val v) kvs" using "8.prems"(1) by (auto simp: list_all_iff)
  with 8 show ?case by (simp add: read_open read_key)
next
  case (9 n e)
  then show ?case by simp
next
  case (10 n)
  then show ?case by (simp add: read_close)
next
  case (11 n v vs)
  then show ?case by (simp add: read_comma)
next
  case (12 n)
  then show ?case by (simp add: read_close)
next
  case (13 n k v kvs)
  then show ?case by (simp add: read_comma read_key)
qed

theorem read_indent:
  assumes "text_val v" "depth v \<le> maxNestingDepth"
  shows "read_value (render_indent n v @ x) = Some (syntax_of v, x)"
  using read_indent_at [OF assms(1), of "[]"] assms(2) by (simp add: read_value_def)

lemma Unmarshal_indent:
  assumes "marshal_indent v = Inr raw" "text_val v" "depth v \<le> maxNestingDepth" "list_all is_space rest"
    and "d (syntax_of v) x0 = Some x"
  shows "json_Unmarshal d x0 (raw @ bytes_of rest) = Inr x"
proof -
  have "raw = bytes_of (render_indent 0 v)" using assms(1) by (auto simp: marshal_indent_def split: option.splits)
  then have "read_whole (string_of (raw @ bytes_of rest)) = Some (syntax_of v)"
    using read_indent [OF assms(2,3), of 0 rest] assms(4) by (simp add: read_whole_def)
  with assms(5) show ?thesis by (simp add: json_Unmarshal_def decoded_def)
qed

theorem package_indent_roundtrip:
  assumes "package_text p" "marshal_indent (package_val p) = Inr raw" "list_all is_space rest"
  shows "json_Unmarshal (dec_package R) package0 (raw @ bytes_of rest) = Inr p"
proof (rule Unmarshal_indent [where d = "dec_package R", OF assms(2) _ _ assms(3) package_read_back [OF assms(1)]])
  show "text_val (package_val p)" "depth (package_val p) \<le> maxNestingDepth"
    using assms(1) depth_package by (simp_all add: package_text_def)
qed

lemma indent_marshals: "package_text p \<Longrightarrow> \<exists>raw. marshal_indent (package_val p) = Inr raw"
  using first_fail_wf [OF text_wf] by (auto simp: package_text_def marshal_indent_def)

end
