(* ===== verification/Cli.thy ===== *)
theory Cli
  imports Http_Shell Go_Indent Local_Signer Mock_Intent Intent_Http Open_Segment
begin

text \<open>
  \<^verbatim>\<open>cmd/chainbind\<close>: the command line over \<open>Seal\<close>, \<open>Verify\<close> and \<open>Open\<close>. What the process
  finds outside (files, directories, standard output, the clock, the HTTP transport) is a
  record of answers; a run is its exit code and what it wrote. Text the \<^verbatim>\<open>flag\<close> package itself
  writes to standard error is left out.
\<close>

section \<open>Flags\<close>

text \<open>
  \<^verbatim>\<open>flag.FlagSet.Parse\<close>: \<open>defs\<close> names the flags defined, with \<open>True\<close> for a boolean one; the
  result holds the flags that were set. \<open>None\<close> is any error, asking for help included. What
  follows the first argument that is not a flag is not looked at.
\<close>

definition ParseBool :: "string \<Rightarrow> bool option" where
  "ParseBool s =
     (if s \<in> {''1'', ''t'', ''T'', ''true'', ''TRUE'', ''True''} then Some True
      else if s \<in> {''0'', ''f'', ''F'', ''false'', ''FALSE'', ''False''} then Some False
      else None)"

text \<open>An argument as a flag: its name and the value after an equals sign.\<close>

datatype flag_arg = NoFlag | EndOfFlags | BadFlag | FlagArg string "string option"

definition split_flag :: "string \<Rightarrow> string \<times> string option" where
  "split_flag name =
     (let n = takeWhile (\<lambda>c. c \<noteq> CHR ''='') name in
      (n, if n = name then None else Some (drop (Suc (length n)) name)))"

definition flag_of :: "string \<Rightarrow> flag_arg" where
  "flag_of s =
     (if length s < 2 \<or> hd s \<noteq> CHR ''-'' then NoFlag
      else if s = ''--'' then EndOfFlags
      else
        let name = (if s ! 1 = CHR ''-'' then drop 2 s else drop 1 s) in
        if hd name \<in> {CHR ''-'', CHR ''=''} then BadFlag
        else (case split_flag name of (n, v) \<Rightarrow> FlagArg n v))"

fun parse_flags ::
  "(string \<times> bool) list \<Rightarrow> string list \<Rightarrow> (string, string) fmap \<Rightarrow> (string, string) fmap option" where
  "parse_flags defs [] m = Some m"
| "parse_flags defs (s # args) m =
     (case flag_of s of
        NoFlag \<Rightarrow> Some m
      | EndOfFlags \<Rightarrow> Some m
      | BadFlag \<Rightarrow> None
      | FlagArg name v \<Rightarrow>
     (case map_of defs name of
        None \<Rightarrow> None
      | Some True \<Rightarrow>
          (case ParseBool (case v of None \<Rightarrow> ''true'' | Some v \<Rightarrow> v) of
             None \<Rightarrow> None
           | Some b \<Rightarrow> parse_flags defs args (fmupd name (if b then ''true'' else ''false'') m))
      | Some False \<Rightarrow>
          (case v of
             Some v \<Rightarrow> parse_flags defs args (fmupd name v m)
           | None \<Rightarrow> (case args of [] \<Rightarrow> None | v # args \<Rightarrow> parse_flags defs args (fmupd name v m)))))"

text \<open>The value of a string flag, and of a boolean one: empty and false when it was not set.\<close>

definition flag_str :: "(string, string) fmap \<Rightarrow> string \<Rightarrow> string" where
  "flag_str m name = lookup_or_empty m name"

definition flag_bool :: "(string, string) fmap \<Rightarrow> string \<Rightarrow> bool" where
  "flag_bool m name \<longleftrightarrow> fmlookup m name = Some ''true''"

section \<open>The process and what it writes\<close>

text \<open>
  \<open>ce_ReadFile\<close>, \<open>ce_ReadDir\<close>, \<open>ce_WriteFile\<close> and \<open>ce_put\<close> are the outcomes of \<^verbatim>\<open>os.ReadFile\<close>,
  \<^verbatim>\<open>os.ReadDir\<close>, \<^verbatim>\<open>os.WriteFile\<close> and one write to standard output; \<open>ce_key\<close> is
  \<^verbatim>\<open>ed25519.NewKeyFromSeed\<close>, \<open>ce_seed\<close> the decoder of a seed document, \<open>ce_http\<close> the default
  client under the command's ten-second deadline.
\<close>

record cli_env =
  ce_ReadFile :: "string \<Rightarrow> bytes res"
  ce_ReadDir :: "string \<Rightarrow> dir_entry list res"
  ce_WriteFile :: "string \<Rightarrow> bytes \<Rightarrow> err option"
  ce_put :: "bytes \<Rightarrow> err option"
  ce_now :: gotime
  ce_key :: "bytes \<Rightarrow> bytes"
  ce_seed :: "bytes \<Rightarrow> seed_doc res"
  ce_http :: client
  ce_lib :: read_lib

record cli_result =
  cr_exit :: nat
  cr_stdout :: bytes
  cr_stderr :: string
  cr_file :: "(string \<times> bytes) option"

definition exitOK :: nat where
  "exitOK = 0"

definition exitOperational :: nat where
  "exitOperational = 1"

definition exitUsage :: nat where
  "exitUsage = 2"

definition exitNegative :: nat where
  "exitNegative = 3"

definition println :: "string \<Rightarrow> string" where
  "println s = s @ [CHR 0x0A]"

text \<open>A run that wrote nothing but a line of standard error.\<close>

definition fails :: "nat \<Rightarrow> string \<Rightarrow> cli_result" where
  "fails code line = \<lparr> cr_exit = code, cr_stdout = [], cr_stderr = line, cr_file = None \<rparr>"

text \<open>
  \<^verbatim>\<open>output.go\<close>: what a write leaves behind, and whether it failed. A write that fails leaves nothing:
  the prefix the operating system may have taken before the error is not modelled.
\<close>

definition writeOutput ::
  "cli_env \<Rightarrow> string \<Rightarrow> bytes \<Rightarrow> err option \<times> bytes \<times> (string \<times> bytes) option" where
  "writeOutput env path data =
     (if path = [] then
        (case ce_put env data of
           Some e \<Rightarrow> (Some (errorf ''write output: '' e), [], None)
         | None \<Rightarrow>
           if data = [] \<or> last data \<noteq> 10 then
             (case ce_put env [10] of
                Some e \<Rightarrow> (Some (errorf ''write output: '' e), data, None)
              | None \<Rightarrow> (None, data @ [10], None))
           else (None, data, None))
      else
        (case ce_WriteFile env path data of
           Some e \<Rightarrow> (Some (errorf (''write output file '' @ go_quote path @ '': '') e), [], None)
         | None \<Rightarrow> (None, [], Some (path, data))))"

section \<open>Keys and audiences\<close>

text \<open>The errors of \<^verbatim>\<open>keys.go\<close>, \<^verbatim>\<open>authority.go\<close> and \<^verbatim>\<open>seal.go\<close>: none of them is ever compared.\<close>

definition errIssuerSigningKeyLength :: err where
  "errIssuerSigningKeyLength = LibErr ''chainbind: issuer signing key must decode to 32 bytes (an Ed25519 seed)''"

definition errIssuerPublicKeyLength :: err where
  "errIssuerPublicKeyLength = LibErr ''chainbind: issuer public key must decode to 32 bytes''"

definition errRecipientKeyLength :: err where
  "errRecipientKeyLength = LibErr ''chainbind: recipient private key must decode to 32 bytes (an X25519 private key)''"

definition errAudiencePublicKeyLength :: err where
  "errAudiencePublicKeyLength = LibErr ''chainbind: audience public key must decode to 32 bytes (an X25519 public key)''"

definition errBothAuthorityFlags :: err where
  "errBothAuthorityFlags = LibErr ''chainbind: specify at most one of --authority-seed-dir or --authority-url''"

definition errSealRequiresOneAuthority :: err where
  "errSealRequiresOneAuthority =
     LibErr ''chainbind seal: exactly one of --authority-seed-dir or --authority-url is required''"

text \<open>The text of a base64 error goes without the offset \<^verbatim>\<open>base64.CorruptInputError\<close> names.\<close>

definition b64_error :: err where
  "b64_error = LibErr ''illegal base64 data''"

definition readKeyBytes :: "cli_env \<Rightarrow> string \<Rightarrow> bytes res" where
  "readKeyBytes env path =
     (case ce_ReadFile env path of
        Inl e \<Rightarrow> Inl (errorf (''read key file '' @ go_quote path @ '': '') e)
      | Inr raw \<Rightarrow>
     (case raw_url_decode (TrimSpace (string_of raw)) of
        None \<Rightarrow> Inl (errorf (''decode key file '' @ go_quote path @ '' as base64url: '') b64_error)
      | Some b \<Rightarrow> Inr b))"

definition loadIssuerSigningKey :: "cli_env \<Rightarrow> string \<Rightarrow> bytes res" where
  "loadIssuerSigningKey env path =
     (case readKeyBytes env path of
        Inl e \<Rightarrow> Inl e
      | Inr b \<Rightarrow> if length b \<noteq> 32 then Inl errIssuerSigningKeyLength else Inr (ce_key env b))"

definition loadIssuerPublicKey :: "cli_env \<Rightarrow> string \<Rightarrow> bytes res" where
  "loadIssuerPublicKey env path =
     (case readKeyBytes env path of
        Inl e \<Rightarrow> Inl e
      | Inr b \<Rightarrow> if length b \<noteq> PublicKeySize then Inl errIssuerPublicKeyLength else Inr b)"

definition loadRecipientPrivateKey :: "cli_env \<Rightarrow> string \<Rightarrow> bytes res" where
  "loadRecipientPrivateKey env path =
     (case readKeyBytes env path of
        Inl e \<Rightarrow> Inl e
      | Inr b \<Rightarrow> if length b \<noteq> 32 then Inl errRecipientKeyLength else Inr b)"

record audienceEntry =
  ae_Name :: string
  ae_Kid :: string
  ae_PublicKey :: string

record audienceAndPublicKey =
  ap_name :: string
  ap_kid :: string
  ap_pub :: bytes

definition dec_audienceEntry :: "audienceEntry jdec" where
  "dec_audienceEntry = dec_struct
     [(''name'', at_field ae_Name ae_Name_update dec_string),
      (''kid'', at_field ae_Kid ae_Kid_update dec_string),
      (''public_key'', at_field ae_PublicKey ae_PublicKey_update dec_string)]"

fun entries_loop :: "audienceEntry list \<Rightarrow> audienceAndPublicKey list res" where
  "entries_loop [] = Inr []"
| "entries_loop (e # es) =
     (case raw_url_decode (TrimSpace (ae_PublicKey e)) of
        None \<Rightarrow> Inl (errorf (''audience '' @ go_quote (ae_Name e) @ '': decode public_key as base64url: '') b64_error)
      | Some pub \<Rightarrow>
      if length pub \<noteq> 32 then Inl (errorf (''audience '' @ go_quote (ae_Name e) @ '': '') errAudiencePublicKeyLength)
      else
     (case entries_loop es of
        Inl err \<Rightarrow> Inl err
      | Inr out \<Rightarrow> Inr (\<lparr> ap_name = ae_Name e, ap_kid = ae_Kid e, ap_pub = pub \<rparr> # out)))"

definition loadAudiences :: "cli_env \<Rightarrow> string \<Rightarrow> audienceAndPublicKey list res" where
  "loadAudiences env path =
     (case ce_ReadFile env path of
        Inl e \<Rightarrow> Inl (errorf (''read audiences file '' @ go_quote path @ '': '') e)
      | Inr raw \<Rightarrow>
     (case json_Unmarshal (dec_list dec_audienceEntry \<lparr> ae_Name = [], ae_Kid = [], ae_PublicKey = [] \<rparr>) [] raw of
        Inl e \<Rightarrow> Inl (errorf (''parse audiences file '' @ go_quote path @ '': '') e)
      | Inr es \<Rightarrow> entries_loop es))"

definition toChainbindAudiences :: "audienceAndPublicKey list \<Rightarrow> audience list" where
  "toChainbindAudiences = map (\<lambda>a. \<lparr> au_Name = ap_name a, au_PublicKey = ap_pub a, au_Kid = ap_kid a \<rparr>)"

section \<open>The authority\<close>

definition resolveAuthority :: "prims \<Rightarrow> cli_env \<Rightarrow> string \<Rightarrow> string \<Rightarrow> intent_verifier option res" where
  "resolveAuthority P env seedDir authorityURL =
     (if seedDir \<noteq> [] \<and> authorityURL \<noteq> [] then Inl errBothAuthorityFlags
      else if seedDir \<noteq> [] then
        (case mock_New (ce_seed env) (ce_ReadDir env seedDir) of
           Inl e \<Rightarrow> Inl (errorf (''load mock intent authority from '' @ go_quote seedDir @ '': '') e)
         | Inr v \<Rightarrow> Inr (Some (mock_port P (rd_floats (ce_lib env), v))))
      else if authorityURL \<noteq> [] then
        Inr (Some (http_authority (intent_New (ce_http env) authorityURL None)))
      else Inr None)"

definition authorityLabel :: "string \<Rightarrow> string \<Rightarrow> string" where
  "authorityLabel seedDir authorityURL =
     (if authorityURL \<noteq> [] then authorityURL
      else if seedDir \<noteq> [] then ''seed:'' @ seedDir
      else [])"

section \<open>seal\<close>

definition readPayload :: "cli_env \<Rightarrow> string \<Rightarrow> payload res" where
  "readPayload env path =
     (case ce_ReadFile env path of
        Inl e \<Rightarrow> Inl (errorf (''chainbind seal: read payload '' @ go_quote path @ '': '') e)
      | Inr raw \<Rightarrow>
     (case json_Unmarshal dec_payload payload0 raw of
        Inl e \<Rightarrow> Inl (errorf (''chainbind seal: parse payload '' @ go_quote path @ '': '') e)
      | Inr payload \<Rightarrow> Inr payload))"

definition seal_flags :: "(string \<times> bool) list" where
  "seal_flags = map (\<lambda>n. (n, False))
     [''payload'', ''audiences'', ''intent-ref'', ''signing-key'', ''issuer'', ''kid'', ''tenant'',
      ''environment'', ''authority-seed-dir'', ''authority-url'', ''out'']"

definition cli_request ::
  "prims \<Rightarrow> cli_env \<Rightarrow> (string, string) fmap \<Rightarrow> audienceAndPublicKey list \<Rightarrow> (string, gobytes) fmap \<Rightarrow>
     projection \<Rightarrow> seal_request" where
  "cli_request P env m audiences segments projection =
     \<lparr> sr_Segments = segments, sr_SegmentOrder = profile_SegmentOrder,
       sr_Audiences = toChainbindAudiences audiences, sr_IntentRef = flag_str m ''intent-ref'',
       sr_Authority = authorityLabel (flag_str m ''authority-seed-dir'') (flag_str m ''authority-url''),
       sr_Projection = projection_val projection, sr_Issuer = flag_str m ''issuer'',
       sr_IssuedAt = ce_now env, sr_TenantID = flag_str m ''tenant'',
       sr_Environment = flag_str m ''environment'', sr_Profile = Name, sr_BindingSpecs = BindingSpecs P \<rparr>"

definition runSeal :: "prims \<Rightarrow> cli_env \<Rightarrow> string list \<Rightarrow> world \<Rightarrow> cli_result \<times> world" where
  "runSeal P env args w =
     (case parse_flags seal_flags args fmempty of
        None \<Rightarrow> (fails exitUsage [], w)
      | Some m \<Rightarrow>
      if \<exists>n \<in> set [''payload'', ''audiences'', ''intent-ref'', ''signing-key'', ''issuer'', ''kid'']. flag_str m n = []
      then (fails exitUsage (println
              ''chainbind seal: --payload, --audiences, --intent-ref, --signing-key, --issuer and --kid are all required''), w)
      else
     (case resolveAuthority P env (flag_str m ''authority-seed-dir'') (flag_str m ''authority-url'') of
        Inl e \<Rightarrow> (fails exitUsage (println (err_text e)), w)
      | Inr None \<Rightarrow> (fails exitUsage (println (err_text errSealRequiresOneAuthority)), w)
      | Inr (Some iv) \<Rightarrow>
     (case loadIssuerSigningKey env (flag_str m ''signing-key'') of
        Inl e \<Rightarrow> (fails exitOperational (println (err_text e)), w)
      | Inr priv \<Rightarrow>
     (case loadAudiences env (flag_str m ''audiences'') of
        Inl e \<Rightarrow> (fails exitOperational (println (err_text e)), w)
      | Inr audiences \<Rightarrow>
     (case readPayload env (flag_str m ''payload'') of
        Inl e \<Rightarrow> (fails exitOperational (println (err_text e)), w)
      | Inr payload \<Rightarrow>
     (case Split (PayloadValue payload) of
        Inl e \<Rightarrow> (fails exitOperational (println (''chainbind seal: split payload: '' @ err_text e)), w)
      | Inr segments \<Rightarrow>
     (case Project (PayloadValue payload) of
        Inl e \<Rightarrow> (fails exitOperational (println (''chainbind seal: project payload: '' @ err_text e)), w)
      | Inr projection \<Rightarrow>
     (case local_New priv (flag_str m ''kid'') of
        Inl e \<Rightarrow> (fails exitOperational (println (''chainbind seal: '' @ err_text e)), w)
      | Inr signer \<Rightarrow>
     (case Seal P (cli_request P env m audiences segments projection) (local_port P (signer, None)) (Wrapper P) iv w of
        (Inl e, w) \<Rightarrow> (fails exitOperational (println (''chainbind seal: '' @ err_text e)), w)
      | (Inr pkg, w) \<Rightarrow>
     (case marshal_indent (package_val pkg) of
        Inl e \<Rightarrow> (fails exitOperational (println (''chainbind seal: encode package: '' @ err_text e)), w)
      | Inr raw \<Rightarrow>
     (case writeOutput env (flag_str m ''out'') raw of
        (Some e, out, file) \<Rightarrow>
          (\<lparr> cr_exit = exitOperational, cr_stdout = out,
             cr_stderr = println (''chainbind seal: '' @ err_text e), cr_file = file \<rparr>, w)
      | (None, out, file) \<Rightarrow>
          (\<lparr> cr_exit = exitOK, cr_stdout = out, cr_stderr = [], cr_file = file \<rparr>, w))))))))))))"

section \<open>verify\<close>

definition readPackage :: "cli_env \<Rightarrow> string \<Rightarrow> package res" where
  "readPackage env path =
     (case ce_ReadFile env path of
        Inl e \<Rightarrow> Inl (errorf (''chainbind: read package '' @ go_quote path @ '': '') e)
      | Inr raw \<Rightarrow>
     (case json_Unmarshal (dec_package (ce_lib env)) package0 raw of
        Inl e \<Rightarrow> Inl (errorf (''chainbind: parse package '' @ go_quote path @ '': '') e)
      | Inr pkg \<Rightarrow> Inr pkg))"

definition sortedStringKeys :: "(string, bool) fmap option \<Rightarrow> string list" where
  "sortedStringKeys m = (case m of None \<Rightarrow> [] | Some m \<Rightarrow> map fst (entries m))"

definition show_bool :: "bool \<Rightarrow> string" where
  "show_bool b = (if b then ''true'' else ''false'')"

definition em_dash :: string where
  "em_dash = [CHR 0xE2, CHR 0x80, CHR 0x94]"

text \<open>One line for every name of a map: the label, the name in brackets, the flag.\<close>

definition flag_lines :: "string \<Rightarrow> (string, bool) fmap option \<Rightarrow> string list" where
  "flag_lines label m =
     map (\<lambda>name. label @ ''['' @ name @ '']: '' @ show_bool (fmlookup (the m) name = Some True)) (sortedStringKeys m)"

definition report_lines :: "report \<Rightarrow> string list" where
  "report_lines r =
     [''structural: '' @ fault_String (rp_Structural r),
      ''spec_version_supported: '' @ show_bool (rp_SpecVersionSupported r),
      ''signature: '' @ show_bool (rp_Signature r),
      ''aad_context_consistent: '' @ show_bool (rp_AADContextConsistent r),
      ''segments_root: '' @ show_bool (rp_SegmentsRoot r)]
     @ flag_lines ''cipher_hash'' (rp_CipherHashes r) @ flag_lines ''binding'' (rp_ProfileBindings r)
     @ [if ir_Evaluated (rp_Intent r) then ''intent: evaluated, valid='' @ show_bool (ir_Valid (rp_Intent r))
        else ''intent: NOT EVALUATED '' @ em_dash @ '' no reachable intent authority was consulted, so this package''
          @ [CHR 0x27] @ ''s binding to its authorization has not been checked'']
     @ (if ir_Reason (rp_Intent r) \<noteq> [] then [''intent_reason: '' @ ir_Reason (rp_Intent r)] else [])
     @ [if report_OK (Some r) then ''result: PASS'' else ''result: FAIL'']"

text \<open>A line is written by one write of its own; a write that fails is not noticed.\<close>

definition printReportHuman :: "cli_env \<Rightarrow> report \<Rightarrow> bytes" where
  "printReportHuman env r =
     concat (filter (\<lambda>line. ce_put env line = None) (map (\<lambda>l. bytes_of (println l)) (report_lines r)))"

definition printReportJSON :: "cli_env \<Rightarrow> report \<Rightarrow> err option \<times> bytes" where
  "printReportJSON env r =
     (case marshal_indent (report_val r) of
        Inl e \<Rightarrow> (Some (errorf ''encode report: '' e), [])
      | Inr out \<Rightarrow>
     (case ce_put env (out @ [10]) of
        Some e \<Rightarrow> (Some e, [])
      | None \<Rightarrow> (None, out @ [10])))"

definition verify_flags :: "(string \<times> bool) list" where
  "verify_flags =
     [(''package'', False), (''issuer-key'', False), (''authority-seed-dir'', False),
      (''authority-url'', False), (''json'', True)]"

definition runVerify_w :: "prims \<Rightarrow> cli_env \<Rightarrow> string list \<Rightarrow> world \<Rightarrow> cli_result \<times> world" where
  "runVerify_w P env args w =
     (case parse_flags verify_flags args fmempty of
        None \<Rightarrow> (fails exitUsage [], w)
      | Some m \<Rightarrow>
      if flag_str m ''package'' = [] \<or> flag_str m ''issuer-key'' = []
      then (fails exitUsage (println ''chainbind verify: --package and --issuer-key are required''), w)
      else
     (case resolveAuthority P env (flag_str m ''authority-seed-dir'') (flag_str m ''authority-url'') of
        Inl e \<Rightarrow> (fails exitUsage (println (err_text e)), w)
      | Inr iv \<Rightarrow>
     (case loadIssuerPublicKey env (flag_str m ''issuer-key'') of
        Inl e \<Rightarrow> (fails exitOperational (println (err_text e)), w)
      | Inr pub \<Rightarrow>
     (case readPackage env (flag_str m ''package'') of
        Inl e \<Rightarrow> (fails exitOperational (println (err_text e)), w)
      | Inr pkg \<Rightarrow>
     (case Verify_w P (Some pkg) \<lparr> vo_IssuerKey = Some (\<lambda>iss kid. Some pub), vo_Intent = iv,
                                  vo_BindingSpecs = BindingSpecs P \<rparr> w of
        (Inl e, w) \<Rightarrow> (fails exitOperational (println (''chainbind verify: '' @ err_text e)), w)
      | (Inr report, w) \<Rightarrow>
          let code = (if \<not> report_OK (Some report) then exitNegative else exitOK) in
          if flag_bool m ''json'' then
            (case printReportJSON env report of
               (Some e, out) \<Rightarrow>
                 (\<lparr> cr_exit = exitOperational, cr_stdout = out,
                    cr_stderr = println (''chainbind verify: '' @ err_text e), cr_file = None \<rparr>, w)
             | (None, out) \<Rightarrow> (\<lparr> cr_exit = code, cr_stdout = out, cr_stderr = [], cr_file = None \<rparr>, w))
          else
            (\<lparr> cr_exit = code, cr_stdout = printReportHuman env report, cr_stderr = [], cr_file = None \<rparr>, w))))))"

text \<open>What the subcommand prints and exits with is the same in every world.\<close>

definition runVerify :: "prims \<Rightarrow> cli_env \<Rightarrow> string list \<Rightarrow> cli_result" where
  "runVerify P env args = answer_of (runVerify_w P env args)"

lemma runVerify_w_fst: "fst (runVerify_w P env args w) = runVerify P env args"
  by (simp add: runVerify_def answer_of_def runVerify_w_def Verify_w_eq Let_def split: option.split sum.split prod.split)

lemma runVerify_eq:
  "runVerify P env args =
     (case parse_flags verify_flags args fmempty of
        None \<Rightarrow> fails exitUsage []
      | Some m \<Rightarrow>
      if flag_str m ''package'' = [] \<or> flag_str m ''issuer-key'' = []
      then fails exitUsage (println ''chainbind verify: --package and --issuer-key are required'')
      else
     (case resolveAuthority P env (flag_str m ''authority-seed-dir'') (flag_str m ''authority-url'') of
        Inl e \<Rightarrow> fails exitUsage (println (err_text e))
      | Inr iv \<Rightarrow>
     (case loadIssuerPublicKey env (flag_str m ''issuer-key'') of
        Inl e \<Rightarrow> fails exitOperational (println (err_text e))
      | Inr pub \<Rightarrow>
     (case readPackage env (flag_str m ''package'') of
        Inl e \<Rightarrow> fails exitOperational (println (err_text e))
      | Inr pkg \<Rightarrow>
     (case Verify P (Some pkg) \<lparr> vo_IssuerKey = Some (\<lambda>iss kid. Some pub), vo_Intent = iv,
                                vo_BindingSpecs = BindingSpecs P \<rparr> of
        Inl e \<Rightarrow> fails exitOperational (println (''chainbind verify: '' @ err_text e))
      | Inr report \<Rightarrow>
          let code = (if \<not> report_OK (Some report) then exitNegative else exitOK) in
          if flag_bool m ''json'' then
            (case printReportJSON env report of
               (Some e, out) \<Rightarrow>
                 \<lparr> cr_exit = exitOperational, cr_stdout = out,
                   cr_stderr = println (''chainbind verify: '' @ err_text e), cr_file = None \<rparr>
             | (None, out) \<Rightarrow> \<lparr> cr_exit = code, cr_stdout = out, cr_stderr = [], cr_file = None \<rparr>)
          else
            \<lparr> cr_exit = code, cr_stdout = printReportHuman env report, cr_stderr = [], cr_file = None \<rparr>)))))"
  by (simp add: runVerify_def answer_of_def runVerify_w_def Verify_w_eq Let_def split: option.split sum.split prod.split)

section \<open>open\<close>

definition open_flags :: "(string \<times> bool) list" where
  "open_flags = [(''package'', False), (''key'', False), (''issuer-key'', False), (''out'', False)]"

definition runOpen :: "prims \<Rightarrow> cli_env \<Rightarrow> string list \<Rightarrow> world \<Rightarrow> cli_result \<times> world" where
  "runOpen P env args w =
     (case parse_flags open_flags args fmempty of
        None \<Rightarrow> (fails exitUsage [], w)
      | Some m \<Rightarrow>
      if flag_str m ''package'' = [] \<or> flag_str m ''key'' = [] \<or> flag_str m ''issuer-key'' = []
      then (fails exitUsage (println ''chainbind open: --package, --key and --issuer-key are required''), w)
      else
     (case loadRecipientPrivateKey env (flag_str m ''key'') of
        Inl e \<Rightarrow> (fails exitOperational (println (err_text e)), w)
      | Inr priv \<Rightarrow>
     (case loadIssuerPublicKey env (flag_str m ''issuer-key'') of
        Inl e \<Rightarrow> (fails exitOperational (println (err_text e)), w)
      | Inr pub \<Rightarrow>
     (case readPackage env (flag_str m ''package'') of
        Inl e \<Rightarrow> (fails exitOperational (println (err_text e)), w)
      | Inr pkg \<Rightarrow>
     (case Open P (Some pkg) priv (Wrapper P) \<lparr> vo_IssuerKey = Some (\<lambda>iss kid. Some pub), vo_Intent = None,
                                vo_BindingSpecs = BindingSpecs P \<rparr> w of
        (Inl e, w) \<Rightarrow> (fails exitNegative (println (''chainbind open: '' @ err_text e)), w)
      | (Inr (audience, plaintext), w) \<Rightarrow>
          let opened = println (''opened audience: '' @ audience) in
          (case writeOutput env (flag_str m ''out'') (raw_bytes plaintext) of
             (Some e, out, file) \<Rightarrow>
               (\<lparr> cr_exit = exitOperational, cr_stdout = out,
                  cr_stderr = opened @ println (''chainbind open: '' @ err_text e), cr_file = file \<rparr>, w)
           | (None, out, file) \<Rightarrow>
               (\<lparr> cr_exit = exitOK, cr_stdout = out, cr_stderr = opened, cr_file = file \<rparr>, w)))))))"

section \<open>The command\<close>

definition top_help :: string where
  "top_help = concat (map println
     [''chainbind '' @ em_dash @ '' seal, verify and open chainbind packages.'',
      [],
      ''Usage:'',
      ''  chainbind seal   --payload FILE --audiences FILE --intent-ref REF '' @ [CHR 0x5C],
      ''                   --signing-key FILE --issuer ISS --kid KID '' @ [CHR 0x5C],
      ''                   --tenant TENANT --environment ENV '' @ [CHR 0x5C],
      ''                   (--authority-seed-dir DIR | --authority-url URL) '' @ [CHR 0x5C],
      ''                   [--out FILE]'',
      [],
      ''  chainbind verify --package FILE --issuer-key FILE '' @ [CHR 0x5C],
      ''                   [--authority-seed-dir DIR | --authority-url URL] '' @ [CHR 0x5C],
      ''                   [--json]'',
      [],
      ''  chainbind open   --package FILE --key FILE --issuer-key FILE [--out FILE]'',
      [],
      ''Exit codes:'',
      ''  0  success'',
      ''  1  operational failure '' @ em_dash @ '' an unreadable file, a key of the wrong length,'',
      ''     or an unreachable intent authority'',
      ''  2  usage error '' @ em_dash @ '' a missing or conflicting flag, or an unrecognised flag'',
      ''  3  the operation completed and the answer is negative:'',
      ''       verify: the Report is not OK() (includes: the intent level was'',
      ''               not evaluated '' @ em_dash @ '' never reported as success)'',
      ''       open:   integrity check failed, or the recipient key opened no'',
      ''               segment'',
      [],
      ''Notes:'',
      ''  - open takes no --segment or --audience flag. The audience is derived by'',
      ''    matching the supplied private key'' @ [CHR 0x27] @ ''s public thumbprint against the'',
      ''    package'' @ [CHR 0x27] @ ''s cnf entries; there is no way to ask to open a segment you do'',
      ''    not hold the key for.'',
      ''  - verify'' @ [CHR 0x27] @ ''s --issuer-key IS the trust store for this invocation: the'',
      ''    supplied key is accepted for whatever iss/kid the package under'',
      ''    verification claims for itself. A production verifier would consult a'',
      ''    real trust store keyed by iss/kid instead.''])"

text \<open>The help goes to standard output in one write, whose failure is not noticed.\<close>

definition run :: "prims \<Rightarrow> cli_env \<Rightarrow> string list \<Rightarrow> world \<Rightarrow> cli_result \<times> world" where
  "run P env args w =
     (case args of
        [] \<Rightarrow> (fails exitUsage top_help, w)
      | cmd # args \<Rightarrow>
        if cmd \<in> {''-h'', ''--help'', ''help''} then
          (\<lparr> cr_exit = exitOK, cr_stdout = (if ce_put env (bytes_of top_help) = None then bytes_of top_help else []),
             cr_stderr = [], cr_file = None \<rparr>, w)
        else if cmd = ''seal'' then runSeal P env args w
        else if cmd = ''verify'' then runVerify_w P env args w
        else if cmd = ''open'' then runOpen P env args w
        else (fails exitUsage (println (println (''chainbind: unknown subcommand '' @ go_quote cmd)) @ top_help), w))"

end
