(* ===== verification/Cli_Run.thy ===== *)
theory Cli_Run
  imports Cli
begin

text \<open>
  What the exit codes and outputs of the command line mean: \<open>verify\<close> succeeds only on a report
  that is OK, so never without an authority; \<open>open\<close> writes only what \<open>Open\<close> released; and what
  \<open>seal\<close> wrote, \<open>verify\<close> accepts and \<open>open\<close> opens.
\<close>

lemmas exit_codes = exitOK_def exitOperational_def exitUsage_def exitNegative_def

lemma fails_simps [simp]:
  "cr_exit (fails code line) = code" "cr_stdout (fails code line) = []" "cr_file (fails code line) = None"
  "cr_stderr (fails code line) = line"
  by (simp_all add: fails_def)

section \<open>Key files\<close>

text \<open>A key file with the key in unpadded base64url, with a line feed at its end or without one.\<close>

lemma url_not_trimmed: "list_all (\<lambda>c. \<not> trims c) (raw_url_encode b)"
proof -
  have "list_all (\<lambda>c. \<not> trims c) url_alphabet" by code_simp
  then show ?thesis
    using b64_encode_chars [of url_alphabet _ b] by (auto simp: list_all_iff raw_url_encode_def alphabet_facts)
qed

lemma key_text_trimmed:
  "TrimSpace (raw_url_encode b) = raw_url_encode b"
  "b \<noteq> [] \<Longrightarrow> TrimSpace (raw_url_encode b @ [CHR 0x0A]) = raw_url_encode b"
proof -
  show "TrimSpace (raw_url_encode b) = raw_url_encode b" using TrimSpace_line(1) [OF url_not_trimmed] .
  assume "b \<noteq> []"
  then have "raw_url_encode b \<noteq> []" using raw_url.enc_inject [of b "[]"] by (auto simp: raw_url_encode_def)
  from TrimSpace_line(2) [OF url_not_trimmed this] show "TrimSpace (raw_url_encode b @ [CHR 0x0A]) = raw_url_encode b" .
qed

lemma readKeyBytes_file:
  assumes "ce_ReadFile env path = Inr (bytes_of (raw_url_encode b))
      \<or> b \<noteq> [] \<and> ce_ReadFile env path = Inr (bytes_of (raw_url_encode b @ [CHR 0x0A]))"
  shows "readKeyBytes env path = Inr b"
  using assms key_text_trimmed [of b] by (auto simp: readKeyBytes_def raw_url_roundtrip)

section \<open>verify\<close>

text \<open>What a run of \<open>verify\<close> that got as far as a report looked at.\<close>

definition verify_reports ::
  "prims \<Rightarrow> cli_env \<Rightarrow> (string, string) fmap \<Rightarrow> intent_verifier option \<Rightarrow> bytes \<Rightarrow> package \<Rightarrow> report \<Rightarrow> bool" where
  "verify_reports P env m iv pub pkg report \<longleftrightarrow>
     flag_str m ''package'' \<noteq> [] \<and> flag_str m ''issuer-key'' \<noteq> [] \<and>
     resolveAuthority P env (flag_str m ''authority-seed-dir'') (flag_str m ''authority-url'') = Inr iv \<and>
     loadIssuerPublicKey env (flag_str m ''issuer-key'') = Inr pub \<and>
     readPackage env (flag_str m ''package'') = Inr pkg \<and>
     Verify P (Some pkg) \<lparr> vo_IssuerKey = Some (\<lambda>iss kid. Some pub), vo_Intent = iv,
                           vo_BindingSpecs = BindingSpecs P \<rparr> = Inr report"

lemma runVerify_answer:
  assumes "cr_exit (runVerify P env args) \<in> {exitOK, exitNegative}"
  obtains m iv pub pkg report where "parse_flags verify_flags args fmempty = Some m"
    "verify_reports P env m iv pub pkg report"
    "cr_exit (runVerify P env args) = (if report_OK (Some report) then exitOK else exitNegative)"
proof -
  from assms obtain m where m: "parse_flags verify_flags args fmempty = Some m"
    by (cases "parse_flags verify_flags args fmempty") (simp_all add: runVerify_eq exit_codes)
  have given: "flag_str m ''package'' \<noteq> []" "flag_str m ''issuer-key'' \<noteq> []"
    using assms by (auto simp: runVerify_eq exit_codes m)
  from assms given obtain iv where iv:
    "resolveAuthority P env (flag_str m ''authority-seed-dir'') (flag_str m ''authority-url'') = Inr iv"
    by (cases "resolveAuthority P env (flag_str m ''authority-seed-dir'') (flag_str m ''authority-url'')")
      (simp_all add: runVerify_eq exit_codes m)
  from assms given obtain pub where pub: "loadIssuerPublicKey env (flag_str m ''issuer-key'') = Inr pub"
    by (cases "loadIssuerPublicKey env (flag_str m ''issuer-key'')") (simp_all add: runVerify_eq exit_codes m iv)
  from assms given obtain pkg where pkg: "readPackage env (flag_str m ''package'') = Inr pkg"
    by (cases "readPackage env (flag_str m ''package'')") (simp_all add: runVerify_eq exit_codes m iv pub)
  let ?opt = "\<lparr> vo_IssuerKey = Some (\<lambda>iss kid. Some pub), vo_Intent = iv, vo_BindingSpecs = BindingSpecs P \<rparr>"
  obtain report where report: "Verify P (Some pkg) ?opt = Inr report" using Verify_total by blast
  have "verify_reports P env m iv pub pkg report"
    unfolding verify_reports_def using given iv pub pkg report by blast
  moreover have "cr_exit (runVerify P env args) = (if report_OK (Some report) then exitOK else exitNegative)"
    using assms given
    by (simp add: runVerify_eq m iv pub pkg report Let_def exit_codes split: if_splits prod.splits option.splits)
  ultimately show ?thesis by (rule that [OF m])
qed

lemma runVerify_human:
  assumes "parse_flags verify_flags args fmempty = Some m" "verify_reports P env m iv pub pkg report"
    and "\<not> flag_bool m ''json''"
  shows "runVerify P env args =
    \<lparr> cr_exit = (if report_OK (Some report) then exitOK else exitNegative),
      cr_stdout = printReportHuman env report, cr_stderr = [], cr_file = None \<rparr>"
  using assms by (simp add: runVerify_eq verify_reports_def)

lemma resolve_None: "resolveAuthority P env seedDir url = Inr None \<longleftrightarrow> seedDir = [] \<and> url = []"
  by (auto simp: resolveAuthority_def split: sum.splits)

lemma OK_needs_authority:
  assumes "Verify P (Some p) opt = Inr r" "report_OK (Some r)" "distinct (map bs_name (vo_BindingSpecs opt))"
  shows "vo_Intent opt \<noteq> None"
  using Verify_OK [OF assms(1,3)] assms(2) by (auto simp: intent_valid_def split: option.splits)

section \<open>open\<close>

text \<open>What a run of \<open>open\<close> that asked \<open>Open\<close> gave it.\<close>

definition open_asks ::
  "cli_env \<Rightarrow> (string, string) fmap \<Rightarrow> bytes \<Rightarrow> bytes \<Rightarrow> package \<Rightarrow> bool" where
  "open_asks env m priv pub pkg \<longleftrightarrow>
     flag_str m ''package'' \<noteq> [] \<and> flag_str m ''key'' \<noteq> [] \<and> flag_str m ''issuer-key'' \<noteq> [] \<and>
     loadRecipientPrivateKey env (flag_str m ''key'') = Inr priv \<and>
     loadIssuerPublicKey env (flag_str m ''issuer-key'') = Inr pub \<and>
     readPackage env (flag_str m ''package'') = Inr pkg"

definition open_options :: "prims \<Rightarrow> bytes \<Rightarrow> verify_options" where
  "open_options P pub =
     \<lparr> vo_IssuerKey = Some (\<lambda>iss kid. Some pub), vo_Intent = None, vo_BindingSpecs = BindingSpecs P \<rparr>"

lemma runOpen_asked:
  assumes "parse_flags open_flags args fmempty = Some m" "open_asks env m priv pub pkg"
  shows "runOpen P env args w =
    (case Open P (Some pkg) priv (Wrapper P) (open_options P pub) w of
       (Inl e, w) \<Rightarrow> (fails exitNegative (println (''chainbind open: '' @ err_text e)), w)
     | (Inr (audience, plaintext), w) \<Rightarrow>
         (case writeOutput env (flag_str m ''out'') (raw_bytes plaintext) of
            (Some e, out, file) \<Rightarrow>
              (\<lparr> cr_exit = exitOperational, cr_stdout = out,
                 cr_stderr = println (''opened audience: '' @ audience) @ println (''chainbind open: '' @ err_text e),
                 cr_file = file \<rparr>, w)
          | (None, out, file) \<Rightarrow>
              (\<lparr> cr_exit = exitOK, cr_stdout = out, cr_stderr = println (''opened audience: '' @ audience),
                 cr_file = file \<rparr>, w)))"
  using assms unfolding runOpen_def open_asks_def open_options_def Let_def by simp

lemma runOpen_wrote:
  assumes "runOpen P env args w = (r, w')" "cr_stdout r \<noteq> [] \<or> cr_file r \<noteq> None \<or> w' \<noteq> w"
  obtains m priv pub pkg where "parse_flags open_flags args fmempty = Some m" "open_asks env m priv pub pkg"
proof -
  from assms obtain m where m: "parse_flags open_flags args fmempty = Some m"
    by (cases "parse_flags open_flags args fmempty") (auto simp: runOpen_def)
  have given: "flag_str m ''package'' \<noteq> []" "flag_str m ''key'' \<noteq> []" "flag_str m ''issuer-key'' \<noteq> []"
    using assms by (auto simp: runOpen_def m)
  from assms given obtain priv where priv: "loadRecipientPrivateKey env (flag_str m ''key'') = Inr priv"
    by (cases "loadRecipientPrivateKey env (flag_str m ''key'')") (auto simp: runOpen_def m)
  from assms given obtain pub where pub: "loadIssuerPublicKey env (flag_str m ''issuer-key'') = Inr pub"
    by (cases "loadIssuerPublicKey env (flag_str m ''issuer-key'')") (auto simp: runOpen_def m priv)
  from assms given obtain pkg where pkg: "readPackage env (flag_str m ''package'') = Inr pkg"
    by (cases "readPackage env (flag_str m ''package'')") (auto simp: runOpen_def m priv pub)
  show ?thesis by (rule that [OF m]) (use given priv pub pkg in \<open>simp add: open_asks_def\<close>)
qed

text \<open>Bytes leave \<open>open\<close> only as a plaintext that \<open>Open\<close> released.\<close>

lemma runOpen_released:
  assumes "runOpen P env args w = (r, w')" "cr_stdout r \<noteq> [] \<or> cr_file r \<noteq> None"
  obtains m priv pub pkg a g where "parse_flags open_flags args fmempty = Some m" "open_asks env m priv pub pkg"
    "Open P (Some pkg) priv (Wrapper P) (open_options P pub) w = (Inr (a, g), w')"
    "writeOutput env (flag_str m ''out'') (raw_bytes g)
       = (fst (writeOutput env (flag_str m ''out'') (raw_bytes g)), cr_stdout r, cr_file r)"
    "cr_exit r = (if fst (writeOutput env (flag_str m ''out'') (raw_bytes g)) = None then exitOK else exitOperational)"
proof -
  have "cr_stdout r \<noteq> [] \<or> cr_file r \<noteq> None \<or> w' \<noteq> w" using assms(2) by blast
  with assms(1) obtain m priv pub pkg where
    m: "parse_flags open_flags args fmempty = Some m" "open_asks env m priv pub pkg" by (rule runOpen_wrote)
  obtain res v where o: "Open P (Some pkg) priv (Wrapper P) (open_options P pub) w = (res, v)" by fastforce
  with assms runOpen_asked [OF m, of P w] obtain a g where ag: "res = Inr (a, g)"
    by (cases res) auto
  obtain e out fl where wr: "writeOutput env (flag_str m ''out'') (raw_bytes g) = (e, out, fl)" by (cases "writeOutput env (flag_str m ''out'') (raw_bytes g)") auto
  have v: "v = w'" "out = cr_stdout r" "fl = cr_file r" "cr_exit r = (if e = None then exitOK else exitOperational)"
    using runOpen_asked [OF m, of P w] o ag wr assms(1) by (auto split: option.splits)
  show ?thesis by (rule that [OF m, of a g]) (use o ag wr v in simp_all)
qed

section \<open>seal\<close>

text \<open>What a run of \<open>seal\<close> that succeeded went through.\<close>

definition seal_ran ::
  "prims \<Rightarrow> cli_env \<Rightarrow> (string, string) fmap \<Rightarrow> intent_verifier \<Rightarrow> bytes \<Rightarrow> audienceAndPublicKey list \<Rightarrow>
     payload \<Rightarrow> seal_request \<Rightarrow> package \<Rightarrow> world \<Rightarrow> world \<Rightarrow> bool" where
  "seal_ran P env m iv priv audiences payload req pkg w w' \<longleftrightarrow>
     resolveAuthority P env (flag_str m ''authority-seed-dir'') (flag_str m ''authority-url'') = Inr (Some iv) \<and>
     loadIssuerSigningKey env (flag_str m ''signing-key'') = Inr priv \<and>
     loadAudiences env (flag_str m ''audiences'') = Inr audiences \<and>
     readPayload env (flag_str m ''payload'') = Inr payload \<and> length priv = PrivateKeySize \<and>
     (\<exists>projection. Project (PayloadValue payload) = Inr projection \<and>
        req = cli_request P env m audiences (split_of payload) projection) \<and>
     Seal P req (local_port P (\<lparr> ls_priv = priv, ls_kid = flag_str m ''kid'' \<rparr>, None)) (Wrapper P) iv w = (Inr pkg, w')"

lemma runSeal_OK:
  assumes "runSeal P env args w = (r, w')" "cr_exit r = exitOK"
  obtains m iv priv audiences payload req pkg raw where "parse_flags seal_flags args fmempty = Some m"
    "seal_ran P env m iv priv audiences payload req pkg w w'" "marshal_indent (package_val pkg) = Inr raw"
    "writeOutput env (flag_str m ''out'') raw = (None, cr_stdout r, cr_file r)"
proof -
  from assms obtain m where m: "parse_flags seal_flags args fmempty = Some m"
    by (cases "parse_flags seal_flags args fmempty") (auto simp: runSeal_def exit_codes)
  have given: "\<not> (\<exists>n \<in> set [''payload'', ''audiences'', ''intent-ref'', ''signing-key'', ''issuer'', ''kid'']. flag_str m n = [])"
  proof
    assume "\<exists>n \<in> set [''payload'', ''audiences'', ''intent-ref'', ''signing-key'', ''issuer'', ''kid'']. flag_str m n = []"
    then have "cr_exit (fst (runSeal P env args w)) = exitUsage" unfolding runSeal_def m option.case by (simp only: if_True) simp
    with assms show False by (simp add: exit_codes)
  qed
  note step = runSeal_def m option.case if_not_P [OF given]
  let ?auth = "resolveAuthority P env (flag_str m ''authority-seed-dir'') (flag_str m ''authority-url'')"
  from assms obtain v where v: "?auth = Inr v"
    unfolding step by (cases ?auth) (auto simp: exit_codes)
  from assms obtain iv where iv: "?auth = Inr (Some iv)"
    unfolding step v by (cases v) (auto simp: exit_codes)
  note step = step iv sum.case
  from assms obtain priv where priv: "loadIssuerSigningKey env (flag_str m ''signing-key'') = Inr priv"
    unfolding step by (cases "loadIssuerSigningKey env (flag_str m ''signing-key'')") (auto simp: exit_codes)
  note step = step priv
  from assms obtain audiences where audiences: "loadAudiences env (flag_str m ''audiences'') = Inr audiences"
    unfolding step by (cases "loadAudiences env (flag_str m ''audiences'')") (auto simp: exit_codes)
  note step = step audiences
  from assms obtain payload where payload: "readPayload env (flag_str m ''payload'') = Inr payload"
    unfolding step by (cases "readPayload env (flag_str m ''payload'')") (auto simp: exit_codes)
  have segs: "Split (PayloadValue payload) = Inr (split_of payload)" by (simp add: Split_eq asPayload_def)
  note step = step payload segs
  from assms obtain projection where projection: "Project (PayloadValue payload) = Inr projection"
    unfolding step by (cases "Project (PayloadValue payload)") (auto simp: exit_codes)
  note step = step projection
  from assms obtain si where si: "local_New priv (flag_str m ''kid'') = Inr si"
    unfolding step by (cases "local_New priv (flag_str m ''kid'')") (auto simp: exit_codes)
  note step = step si
  let ?req = "cli_request P env m audiences (split_of payload) projection"
  from assms obtain pkg where pkg: "Seal P ?req (local_port P (si, None)) (Wrapper P) iv w = (Inr pkg, w')"
    unfolding step by (cases "Seal P ?req (local_port P (si, None)) (Wrapper P) iv w"; cases "fst (Seal P ?req (local_port P (si, None)) (Wrapper P) iv w)")
      (auto simp: exit_codes split: sum.splits prod.splits option.splits)
  note step = step pkg prod.case
  from assms obtain raw where raw: "marshal_indent (package_val pkg) = Inr raw"
    unfolding step by (cases "marshal_indent (package_val pkg)") (auto simp: exit_codes)
  note step = step raw
  have wrote: "writeOutput env (flag_str m ''out'') raw = (None, cr_stdout r, cr_file r)"
    using assms unfolding step by (auto simp: exit_codes split: prod.splits option.splits)
  have "seal_ran P env m iv priv audiences payload ?req pkg w w'"
    unfolding seal_ran_def using iv priv audiences payload projection pkg si
    by (auto simp: local_New_Inr PrivateKeySize_def)
  from that [OF m this raw wrote] show ?thesis .
qed

section \<open>What seal wrote is text\<close>

definition flags_text :: "(string, string) fmap \<Rightarrow> bool" where
  "flags_text m \<longleftrightarrow> (\<forall>name v. fmlookup m name = Some v \<longrightarrow> utf8_valid v)"

lemma flag_str_text: "flags_text m \<Longrightarrow> utf8_valid (flag_str m name)"
  by (auto simp: flags_text_def flag_str_def lookup_or_empty_def split: option.split)

lemma utf8_profile: "utf8_valid Name"
  by (simp add: Name_def)

lemma authorityLabel_text: "utf8_valid seedDir \<Longrightarrow> utf8_valid url \<Longrightarrow> utf8_valid (authorityLabel seedDir url)"
  using utf8_append [of "''seed:''" seedDir] by (simp add: authorityLabel_def del: utf8_valid.simps(2))

lemma resolve_hash_text:
  assumes "resolveAuthority P env seedDir url = Inr (Some iv)" "iv_ConstraintsHash iv ref = Inr h"
  shows "utf8_valid h"
proof -
  have mock: "mock_ConstraintsHash P F None s ref = Inr h \<Longrightarrow> utf8_valid h" for F s
    by (auto simp: mock_ConstraintsHash_def hashConstraints_def split: sum.splits)
  show ?thesis
    using assms mock intent_hash_text
    by (auto simp: resolveAuthority_def mock_port_def http_authority_def split: if_splits sum.splits)
qed

lemma entries_loop_kid: "entries_loop es = Inr out \<Longrightarrow> list_all (\<lambda>e. utf8_valid (ae_Kid e)) es \<Longrightarrow>
    list_all (\<lambda>a. utf8_valid (ap_kid a)) out"
  by (induction es arbitrary: out) (auto split: option.splits sum.splits if_splits)

lemma loadAudiences_kid:
  assumes "loadAudiences env path = Inr out"
  shows "list_all (\<lambda>a. utf8_valid (ap_kid a)) out"
proof -
  let ?e0 = "\<lparr> ae_Name = [], ae_Kid = [], ae_PublicKey = [] \<rparr>"
  from assms obtain raw es where
    es: "json_Unmarshal (dec_list dec_audienceEntry ?e0) [] raw = Inr es" "entries_loop es = Inr out"
    by (auto simp: loadAudiences_def split: sum.splits)
  have "keeps (\<lambda>e. utf8_valid (ae_Kid e)) dec_audienceEntry"
    unfolding dec_audienceEntry_def
    by (rule keeps_struct)
      (auto intro: keeps_field [OF keeps_string, where Q = "\<lambda>e. utf8_valid (ae_Kid e)"]
        keeps_field [OF keeps_any, where Q = "\<lambda>e. utf8_valid (ae_Kid e)"])
  then have "keeps (list_all (\<lambda>e. utf8_valid (ae_Kid e))) (dec_list dec_audienceEntry ?e0)"
    by (rule keeps_list) simp
  from Unmarshal_keeps [OF this _ es(1)] entries_loop_kid [OF es(2)] show ?thesis by simp
qed

lemma seal_ran_text:
  assumes "seal_ran P env m iv priv audiences payload req pkg w w'" "flags_text m" "jcs_total P"
    and "time_valid (ce_now env)"
  shows "package_text pkg"
proof -
  let ?si = "local_port P (\<lparr> ls_priv = priv, ls_kid = flag_str m ''kid'' \<rparr>, None)"
  from assms(1) obtain projection where ran:
    "resolveAuthority P env (flag_str m ''authority-seed-dir'') (flag_str m ''authority-url'') = Inr (Some iv)"
    "loadAudiences env (flag_str m ''audiences'') = Inr audiences"
    "req = cli_request P env m audiences (split_of payload) projection"
    "Seal P req ?si (Wrapper P) iv w = (Inr pkg, w')"
    by (auto simp: seal_ran_def)
  from Seal_Inr [OF ran(4)] have names: "au_Name ` set (sr_Audiences req) = set profile_SegmentOrder"
    by (rule sealed_obtain) (auto simp: loop_done_def same_keys_def SegmentsRoot_Inr ran(3) cli_request_def)
  then have "{AudienceMerchant, AudienceGateway} \<subseteq> au_Name ` set (sr_Audiences req)"
    by (auto simp: profile_SegmentOrder_def)
  from profile_computes [OF assms(3) this] have computes: "\<forall>spec \<in> set (sr_BindingSpecs req). computes req spec"
    by (simp add: ran(3) cli_request_def)
  have "\<forall>a \<in> set profile_SegmentOrder. utf8_valid a" by (simp add: profile_SegmentOrder_def utf8_names)
  moreover have "utf8_valid (au_Kid aud)" if "aud \<in> set (sr_Audiences req)" for aud
    using that loadAudiences_kid [OF ran(2)]
    by (auto simp: ran(3) cli_request_def toChainbindAudiences_def list_all_iff)
  moreover note flag_str_text [OF assms(2)] authorityLabel_text [OF flag_str_text [OF assms(2)] flag_str_text [OF assms(2)]]
  ultimately have "request_text req"
    using names unfolding request_text_def
    by (auto simp: ran(3) cli_request_def utf8_profile simp del: utf8_valid.simps(2))
  from sealed_package_text [OF ran(4) this _ computes] flag_str_text [OF assms(2)] resolve_hash_text [OF ran(1)] assms(4)
  show ?thesis by (simp add: ran(3) cli_request_def local_port_def local_Kid_def)
qed

text \<open>What is on standard output or in the file reads back as the package.\<close>

definition output_of :: "cli_result \<Rightarrow> bytes" where
  "output_of r = (case cr_file r of None \<Rightarrow> cr_stdout r | Some f \<Rightarrow> snd f)"

lemma writeOutput_None:
  assumes "writeOutput env path data = (None, out, fl)"
  shows "\<exists>rest. list_all is_space rest \<and> (case fl of None \<Rightarrow> out | Some f \<Rightarrow> snd f) = data @ bytes_of rest"
proof (cases "path = [] \<and> (data = [] \<or> last data \<noteq> 10)")
  case True
  with assms have "fl = None" "out = data @ bytes_of [CHR 0x0A]"
    by (auto simp: writeOutput_def bytes_of_def split: option.splits)
  then show ?thesis by (intro exI [of _ "[CHR 0x0A]"]) (simp add: is_space_def)
next
  case False
  with assms have "(case fl of None \<Rightarrow> out | Some f \<Rightarrow> snd f) = data @ bytes_of []"
    by (auto simp: writeOutput_def bytes_of_def split: option.splits if_splits)
  then show ?thesis by (intro exI [of _ "[]"]) simp
qed

lemma writeOutput_bytes:
  "writeOutput env path data = (e, out, fl) \<Longrightarrow> out \<noteq> [] \<or> fl \<noteq> None \<Longrightarrow>
     (case fl of None \<Rightarrow> out \<in> {data, data @ [10]} | Some f \<Rightarrow> out = [] \<and> f = (path, data))"
  by (auto simp: writeOutput_def split: if_splits option.splits)

lemma seal_output_read:
  assumes "runSeal P env args w = (r, w')" "cr_exit r = exitOK"
    and "\<And>m. parse_flags seal_flags args fmempty = Some m \<Longrightarrow> flags_text m"
    and "jcs_total P" "time_valid (ce_now env)" "ce_ReadFile env' path = Inr (output_of r)"
  obtains m iv priv audiences payload req pkg where "parse_flags seal_flags args fmempty = Some m"
    "seal_ran P env m iv priv audiences payload req pkg w w'" "readPackage env' path = Inr pkg"
proof -
  obtain m iv priv audiences payload req pkg raw where ran: "parse_flags seal_flags args fmempty = Some m"
    "seal_ran P env m iv priv audiences payload req pkg w w'" "marshal_indent (package_val pkg) = Inr raw"
    "writeOutput env (flag_str m ''out'') raw = (None, cr_stdout r, cr_file r)"
    using runSeal_OK [OF assms(1,2)] .
  have pt: "package_text pkg" using seal_ran_text [OF ran(2) assms(3) [OF ran(1)] assms(4,5)] .
  obtain rest where "list_all is_space rest" "output_of r = raw @ bytes_of rest"
    using writeOutput_None [OF ran(4)] by (auto simp: output_of_def)
  with package_indent_roundtrip [OF pt ran(3)] have "readPackage env' path = Inr pkg"
    by (simp add: readPackage_def assms(6))
  with ran(1,2) show ?thesis by (rule that)
qed

section \<open>seal, then verify and open\<close>

text \<open>A later process on the same authority, whose files may differ.\<close>

definition same_authority :: "cli_env \<Rightarrow> cli_env \<Rightarrow> bool" where
  "same_authority env env' \<longleftrightarrow>
     ce_ReadDir env' = ce_ReadDir env \<and> ce_seed env' = ce_seed env \<and> ce_http env' = ce_http env \<and>
     ce_lib env' = ce_lib env"

text \<open>The key pair of the two key files.\<close>

definition key_files :: "prims \<Rightarrow> cli_env \<Rightarrow> string \<Rightarrow> cli_env \<Rightarrow> string \<Rightarrow> bytes \<Rightarrow> bool" where
  "key_files P env signing env' issuer pub \<longleftrightarrow>
     loadIssuerPublicKey env' issuer = Inr pub \<and>
     (\<forall>priv. loadIssuerSigningKey env signing = Inr priv \<longrightarrow> ed25519_pair P priv pub)"

lemma resolve_same: "same_authority env env' \<Longrightarrow> resolveAuthority P env' seedDir url = resolveAuthority P env seedDir url"
  by (simp add: same_authority_def resolveAuthority_def cong: sum.case_cong)

lemma seal_ran_level1:
  assumes "seal_ran P env m iv priv audiences payload req pkg w w'" "ed25519_pair P priv pub"
    and "vo_IssuerKey opt = Some (\<lambda>iss kid. Some pub)" "vo_BindingSpecs opt = BindingSpecs P"
  shows "level1_valid P pkg opt"
proof -
  let ?si = "local_port P (\<lparr> ls_priv = priv, ls_kid = flag_str m ''kid'' \<rparr>, None)"
  from assms(1) have sealed: "Seal P req ?si (Wrapper P) iv w = (Inr pkg, w')"
    and specs: "sr_BindingSpecs req = BindingSpecs P"
    by (auto simp: seal_ran_def cli_request_def)
  have "local_pair P (\<lparr> ls_priv = priv, ls_kid = flag_str m ''kid'' \<rparr>, None) pub"
    using assms(2) by (simp add: local_pair_def)
  then have "signs_for P ?si pub" unfolding signs_for_def using local_signer.sign_verifies by blast
  from sealed_level1 [OF Seal_Inr [OF sealed] this] BindingSpecs_distinct assms(3,4) specs
  show ?thesis by (simp add: trusts_def)
qed

lemma cli_seal_verify:
  assumes "runSeal P env args w = (r, w')" "cr_exit r = exitOK" "jcs_total P" "time_valid (ce_now env)"
    and "parse_flags seal_flags args fmempty = Some m" "flags_text m"
    and "parse_flags verify_flags args' fmempty = Some m'" "\<not> flag_bool m' ''json''"
    and "flag_str m' ''authority-seed-dir'' = flag_str m ''authority-seed-dir''"
      "flag_str m' ''authority-url'' = flag_str m ''authority-url''" "same_authority env env'"
    and "flag_str m' ''package'' \<noteq> []" "ce_ReadFile env' (flag_str m' ''package'') = Inr (output_of r)"
    and "flag_str m' ''issuer-key'' \<noteq> []"
      "key_files P env (flag_str m ''signing-key'') env' (flag_str m' ''issuer-key'') pub"
  shows "cr_exit (runVerify P env' args') = exitOK"
proof -
  obtain iv priv audiences payload req pkg where ran:
    "seal_ran P env m iv priv audiences payload req pkg w w'" "readPackage env' (flag_str m' ''package'') = Inr pkg"
    using seal_output_read [OF assms(1,2) _ assms(3,4,13)] assms(5,6) by (metis option.inject)
  let ?opt = "\<lparr> vo_IssuerKey = Some (\<lambda>iss kid. Some pub), vo_Intent = Some iv, vo_BindingSpecs = BindingSpecs P \<rparr>"
  have iv: "resolveAuthority P env' (flag_str m' ''authority-seed-dir'') (flag_str m' ''authority-url'') = Inr (Some iv)"
    using ran(1) assms(9,10) resolve_same [OF assms(11)] by (simp add: seal_ran_def)
  have keys: "loadIssuerPublicKey env' (flag_str m' ''issuer-key'') = Inr pub" "ed25519_pair P priv pub"
    using assms(15) ran(1) by (auto simp: key_files_def seal_ran_def)
  obtain report where report: "Verify P (Some pkg) ?opt = Inr report" using Verify_total by blast
  have "verify_reports P env' m' (Some iv) pub pkg report"
    using iv keys(1) ran(2) report assms(12,14) by (simp add: verify_reports_def)
  then have "cr_exit (runVerify P env' args') = (if report_OK (Some report) then exitOK else exitNegative)"
    using runVerify_human [OF assms(7) _ assms(8)] by simp
  moreover have "level1_valid P pkg ?opt" by (rule seal_ran_level1 [OF ran(1) keys(2)]) simp_all
  moreover have "intent_valid P pkg (vo_Intent ?opt)"
    using ran(1) by (auto simp: seal_ran_def intro: sealed_intent [OF Seal_Inr])
  ultimately show ?thesis using Verify_OK [OF report] BindingSpecs_distinct by simp
qed

text \<open>The audience whose file \<open>open\<close> is given, among those \<open>seal\<close> was given.\<close>

definition holds_key :: "prims \<Rightarrow> audienceAndPublicKey list \<Rightarrow> bytes \<Rightarrow> string \<Rightarrow> bool" where
  "holds_key P audiences priv a \<longleftrightarrow>
     (\<exists>x \<in> set audiences. ap_name x = a \<and> PublicKey P priv = Inr (ap_pub x) \<and>
        (\<forall>y \<in> set audiences. Thumbprint P (ap_pub y) = Thumbprint P (ap_pub x) \<longrightarrow> y = x))"

lemma section_not_empty: "segment_plaintext (split_of payload) a \<noteq> Some []"
proof -
  have "section_bytes (VObj kvs) \<noteq> Some []" for kvs
    by (cases kvs) (auto simp: section_bytes_def bytes_of_def)
  then show ?thesis
    by (auto simp: segment_plaintext_def split_of_def subject_val_def checkout_val_def payment_val_def)
qed

lemma cli_seal_open:
  assumes "runSeal P env args w = (r, w')" "cr_exit r = exitOK" "jcs_total P" "time_valid (ce_now env)"
    and "wrapper_laws P" "gcm_ok P"
    and "parse_flags seal_flags args fmempty = Some m" "flags_text m"
    and "loadAudiences env (flag_str m ''audiences'') = Inr audiences" "holds_key P audiences priv a"
      "readPayload env (flag_str m ''payload'') = Inr payload"
    and "parse_flags open_flags args' fmempty = Some m'"
    and "flag_str m' ''package'' \<noteq> []" "ce_ReadFile env' (flag_str m' ''package'') = Inr (output_of r)"
    and "flag_str m' ''key'' \<noteq> []" "loadRecipientPrivateKey env' (flag_str m' ''key'') = Inr priv"
    and "flag_str m' ''issuer-key'' \<noteq> []"
      "key_files P env (flag_str m ''signing-key'') env' (flag_str m' ''issuer-key'') pub"
    and "flag_str m' ''out'' \<noteq> []" "\<And>data. ce_WriteFile env' (flag_str m' ''out'') data = None"
  shows "fst (runOpen P env' args' v) =
    \<lparr> cr_exit = exitOK, cr_stdout = [], cr_stderr = println (''opened audience: '' @ a),
      cr_file = Some (flag_str m' ''out'', raw_bytes (segment_plaintext (split_of payload) a)) \<rparr>"
proof -
  obtain iv sk req pkg where ran:
    "seal_ran P env m iv sk audiences payload req pkg w w'" "readPackage env' (flag_str m' ''package'') = Inr pkg"
  proof -
    have flags: "flags_text m0" if "parse_flags seal_flags args fmempty = Some m0" for m0
      using that assms(7,8) by simp
    obtain m0 iv sk auds pl req pkg where ran: "parse_flags seal_flags args fmempty = Some m0"
      "seal_ran P env m0 iv sk auds pl req pkg w w'" "readPackage env' (flag_str m' ''package'') = Inr pkg"
      using seal_output_read [OF assms(1,2) flags assms(3,4,14)] .
    have "m0 = m" using ran(1) assms(7) by simp
    moreover from ran(2) assms(9,11) have "auds = audiences" "pl = payload"
      unfolding seal_ran_def \<open>m0 = m\<close> by simp_all
    ultimately show thesis using that ran(2,3) by simp
  qed
  let ?si = "local_port P (\<lparr> ls_priv = sk, ls_kid = flag_str m ''kid'' \<rparr>, None)"
  from ran(1) have sealed: "Seal P req ?si (Wrapper P) iv w = (Inr pkg, w')"
    and req: "sr_Audiences req = toChainbindAudiences audiences" "sr_Segments req = split_of payload"
    by (auto simp: seal_ran_def cli_request_def)
  have keys: "loadIssuerPublicKey env' (flag_str m' ''issuer-key'') = Inr pub" "ed25519_pair P sk pub"
    using assms(18) ran(1) by (auto simp: key_files_def seal_ran_def)
  from assms(10) obtain x where x: "x \<in> set audiences" "ap_name x = a" "PublicKey P priv = Inr (ap_pub x)"
    "\<forall>y \<in> set audiences. Thumbprint P (ap_pub y) = Thumbprint P (ap_pub x) \<longrightarrow> y = x"
    by (auto simp: holds_key_def)
  let ?aud = "\<lparr> au_Name = ap_name x, au_PublicKey = ap_pub x, au_Kid = ap_kid x \<rparr>"
  have owns: "owns (Wrapper P) req priv ?aud"
    unfolding owns_def req(1) toChainbindAudiences_def
  proof (intro conjI ballI impI)
    show "?aud \<in> set (map (\<lambda>a. \<lparr> au_Name = ap_name a, au_PublicKey = ap_pub a, au_Kid = ap_kid a \<rparr>) audiences)"
      using x(1) by simp
    show "kw_PublicKey (Wrapper P) priv = Inr (au_PublicKey ?aud)" using x(3) by (simp add: Wrapper_def)
    fix aud'
    assume "aud' \<in> set (map (\<lambda>a. \<lparr> au_Name = ap_name a, au_PublicKey = ap_pub a, au_Kid = ap_kid a \<rparr>) audiences)"
      and same: "kw_Thumbprint (Wrapper P) (au_PublicKey aud') = kw_Thumbprint (Wrapper P) (au_PublicKey ?aud)"
    then obtain y where y: "y \<in> set audiences" "aud' = \<lparr> au_Name = ap_name y, au_PublicKey = ap_pub y, au_Kid = ap_kid y \<rparr>"
      by auto
    with same x(4) have "y = x" by (simp add: Wrapper_def)
    with y(2) show "aud' = ?aud" by simp
  qed
  have "\<exists>dek. opens P pkg priv (Wrapper P) (au_Name ?aud) (segment_plaintext (sr_Segments req) (au_Name ?aud)) dek"
    by (rule sealed_opens_wrapper [OF sealed assms(5,6) owns]) (simp add: req section_not_empty)
  then obtain dek where "opens P pkg priv (Wrapper P) a (segment_plaintext (split_of payload) a) dek"
    using x(2) req(2) by auto
  moreover have "level1_valid P pkg (open_options P pub)"
    by (rule seal_ran_level1 [OF ran(1) keys(2)]) (simp_all add: open_options_def)
  ultimately have "Open P (Some pkg) priv (Wrapper P) (open_options P pub) v
      = (Inr (a, segment_plaintext (split_of payload) a), emit (EvZero dek) v)"
    by (subst Open_Inr) (auto simp: open_options_def BindingSpecs_distinct)
  moreover have "open_asks env' m' priv pub pkg"
    using assms(13,15-17) keys(1) ran(2) by (simp add: open_asks_def)
  ultimately show ?thesis
    using runOpen_asked [OF assms(12)] assms(19,20) by (simp add: writeOutput_def)
qed

end
