(* ===== verification/Demo_Cli.thy ===== *)
theory Demo_Cli
  imports Demo_Shell Cli_Run
begin

text \<open>
  A concrete process for the witnesses of the command line: six files, the authority of
  \<open>demo_client\<close> behind a URL, and output that never fails.
\<close>

definition demo_entries_text :: bytes where
  "demo_entries_text = bytes_of (render (vlist seed_val demo_seeds))"

definition key_text :: "bytes \<Rightarrow> bytes" where
  "key_text b = bytes_of (raw_url_encode b @ [CHR 0x0A])"

text \<open>\<open>pkg\<close> is the content of the package file.\<close>

definition demo_files :: "bytes \<Rightarrow> string \<Rightarrow> bytes res" where
  "demo_files pkg path =
     (if path = ''payload'' then Inr (bytes_of ''{}'')
      else if path = ''audiences'' then Inr demo_entries_text
      else if path = ''seed'' then Inr (key_text (replicate 32 1))
      else if path = ''issuer'' then Inr (key_text (replicate 32 0))
      else if path = ''merchant'' then Inr (key_text (demo_private 2))
      else if path = ''package'' then Inr pkg
      else Inl (LibErr ''no such file or directory''))"

definition demo_env :: "bytes \<Rightarrow> cli_env" where
  "demo_env pkg =
     \<lparr> ce_ReadFile = demo_files pkg, ce_ReadDir = (\<lambda>dir. Inl (LibErr ''no such file or directory'')),
       ce_WriteFile = (\<lambda>path data. None), ce_put = (\<lambda>data. None), ce_now = demo_now,
       ce_key = (\<lambda>seed. replicate 64 7), ce_seed = (\<lambda>raw. Inl (LibErr ''no'')), ce_http = demo_client,
       ce_lib = \<lparr> rd_floats = demo_floats, rd_time = (\<lambda>s. None) \<rparr> \<rparr>"

definition demo_seal_args :: "string list" where
  "demo_seal_args =
     [''--payload'', ''payload'', ''--audiences=audiences'', ''--intent-ref'', ''ref'', ''-signing-key'', ''seed'',
      ''--issuer'', ''k'', ''--kid'', ''k1'', ''--authority-url'', ''k'']"

definition demo_verify_args :: "string list" where
  "demo_verify_args = [''--package'', ''package'', ''--issuer-key'', ''issuer'', ''--authority-url'', ''k'']"

definition demo_open_args :: "string list" where
  "demo_open_args =
     [''--package'', ''package'', ''--key'', ''merchant'', ''--issuer-key'', ''issuer'', ''--out'', ''plain'']"

definition demo_seal_set :: "(string, string) fmap" where
  "demo_seal_set = fold (\<lambda>(k, v). fmupd k v)
     [(''payload'', ''payload''), (''audiences'', ''audiences''), (''intent-ref'', ''ref''),
      (''signing-key'', ''seed''), (''issuer'', ''k''), (''kid'', ''k1''), (''authority-url'', ''k'')] fmempty"

definition demo_verify_set :: "(string, string) fmap" where
  "demo_verify_set = fold (\<lambda>(k, v). fmupd k v)
     [(''package'', ''package''), (''issuer-key'', ''issuer''), (''authority-url'', ''k'')] fmempty"

definition demo_open_set :: "(string, string) fmap" where
  "demo_open_set = fold (\<lambda>(k, v). fmupd k v)
     [(''package'', ''package''), (''key'', ''merchant''), (''issuer-key'', ''issuer''), (''out'', ''plain'')] fmempty"

lemma demo_flag_of:
  "flag_of ''--payload'' = FlagArg ''payload'' None"
  "flag_of ''--intent-ref'' = FlagArg ''intent-ref'' None"
  "flag_of ''--issuer'' = FlagArg ''issuer'' None"
  "flag_of ''--kid'' = FlagArg ''kid'' None"
  "flag_of ''--authority-url'' = FlagArg ''authority-url'' None"
  "flag_of ''--package'' = FlagArg ''package'' None"
  "flag_of ''--issuer-key'' = FlagArg ''issuer-key'' None"
  "flag_of ''--key'' = FlagArg ''key'' None"
  "flag_of ''--out'' = FlagArg ''out'' None"
  "flag_of ''-signing-key'' = FlagArg ''signing-key'' None"
  "flag_of ''--audiences=audiences'' = FlagArg ''audiences'' (Some ''audiences'')"
  by code_simp+

lemma demo_parsed_flags:
  "parse_flags seal_flags demo_seal_args fmempty = Some demo_seal_set"
  "parse_flags verify_flags demo_verify_args fmempty = Some demo_verify_set"
  "parse_flags open_flags demo_open_args fmempty = Some demo_open_set"
  by (simp_all add: demo_seal_args_def demo_verify_args_def demo_open_args_def demo_seal_set_def
      demo_verify_set_def demo_open_set_def seal_flags_def verify_flags_def open_flags_def
      demo_flag_of)

lemma demo_flags:
  "flag_str demo_seal_set ''payload'' = ''payload''" "flag_str demo_seal_set ''audiences'' = ''audiences''"
  "flag_str demo_seal_set ''intent-ref'' = ''ref''" "flag_str demo_seal_set ''signing-key'' = ''seed''"
  "flag_str demo_seal_set ''issuer'' = ''k''" "flag_str demo_seal_set ''kid'' = ''k1''"
  "flag_str demo_seal_set ''authority-url'' = ''k''" "flag_str demo_seal_set ''authority-seed-dir'' = []"
  "flag_str demo_seal_set ''tenant'' = []" "flag_str demo_seal_set ''environment'' = []"
  "flag_str demo_seal_set ''out'' = []"
  "flag_str demo_verify_set ''package'' = ''package''" "flag_str demo_verify_set ''issuer-key'' = ''issuer''"
  "flag_str demo_verify_set ''authority-url'' = ''k''" "flag_str demo_verify_set ''authority-seed-dir'' = []"
  "flag_str demo_open_set ''package'' = ''package''" "flag_str demo_open_set ''issuer-key'' = ''issuer''"
  "flag_str demo_open_set ''key'' = ''merchant''" "flag_str demo_open_set ''out'' = ''plain''"
  "\<not> flag_bool demo_verify_set ''json''"
  by (simp_all add: demo_seal_set_def demo_verify_set_def demo_open_set_def flag_str_def flag_bool_def
      lookup_or_empty_def)

lemma demo_flags_text: "flags_text demo_seal_set"
  unfolding flags_text_def
proof (intro allI impI)
  fix name v assume "fmlookup demo_seal_set name = Some v"
  then have "v \<in> {''payload'', ''audiences'', ''ref'', ''seed'', ''k'', ''k1''}"
    by (auto simp: demo_seal_set_def split: if_splits)
  then show "utf8_valid v" by auto
qed

section \<open>The files\<close>

declare json_escape.simps(2) [simp del] fold_key.simps(2) [simp del]

lemma demo_read [simp]:
  "ce_ReadFile (demo_env pkg) ''payload'' = Inr (bytes_of ''{}'')"
  "ce_ReadFile (demo_env pkg) ''audiences'' = Inr demo_entries_text"
  "ce_ReadFile (demo_env pkg) ''seed'' = Inr (key_text (replicate 32 1))"
  "ce_ReadFile (demo_env pkg) ''issuer'' = Inr (key_text (replicate 32 0))"
  "ce_ReadFile (demo_env pkg) ''merchant'' = Inr (key_text (demo_private 2))"
  "ce_ReadFile (demo_env pkg) ''package'' = Inr pkg"
  by (simp_all add: demo_env_def demo_files_def)

lemma length_private: "length (demo_private n) = 32"
  by (simp add: demo_private_def)

lemma key_file: "b \<noteq> [] \<Longrightarrow> ce_ReadFile env path = Inr (key_text b) \<Longrightarrow> readKeyBytes env path = Inr b"
  by (rule readKeyBytes_file) (simp add: key_text_def)

lemma demo_keys_loaded:
  "loadIssuerSigningKey (demo_env pkg) ''seed'' = Inr (replicate 64 7)"
  "loadIssuerPublicKey (demo_env pkg) ''issuer'' = Inr (replicate 32 0)"
  "loadRecipientPrivateKey (demo_env pkg) ''merchant'' = Inr (demo_private 2)"
proof -
  have "readKeyBytes (demo_env pkg) ''seed'' = Inr (replicate 32 1)"
    "readKeyBytes (demo_env pkg) ''issuer'' = Inr (replicate 32 0)"
    "readKeyBytes (demo_env pkg) ''merchant'' = Inr (demo_private 2)"
    by (rule key_file; simp add: demo_private_def)+
  then show "loadIssuerSigningKey (demo_env pkg) ''seed'' = Inr (replicate 64 7)"
    "loadIssuerPublicKey (demo_env pkg) ''issuer'' = Inr (replicate 32 0)"
    "loadRecipientPrivateKey (demo_env pkg) ''merchant'' = Inr (demo_private 2)"
    by (simp_all add: loadIssuerSigningKey_def loadIssuerPublicKey_def loadRecipientPrivateKey_def PublicKeySize_def
        length_private) (simp add: demo_env_def)
qed

definition demo_loaded :: "audienceAndPublicKey list" where
  "demo_loaded = map (\<lambda>(a, k, n). \<lparr> ap_name = a, ap_kid = k, ap_pub = demo_public n \<rparr>)
     [(AudienceUser, ''k1'', 1), (AudienceMerchant, ''k2'', 2), (AudienceGateway, ''k3'', 3)]"

definition as_entry :: "audienceSeed \<Rightarrow> audienceEntry" where
  "as_entry s = \<lparr> ae_Name = as_Name s, ae_Kid = as_Kid s, ae_PublicKey = as_PublicKey s \<rparr>"

lemma demo_entry:
  "utf8_valid (as_Name s) \<Longrightarrow> utf8_valid (as_Kid s) \<Longrightarrow> utf8_valid (as_PublicKey s) \<Longrightarrow>
     decodes dec_audienceEntry (seed_val s) (as_entry s)"
  by (simp add: decodes_def dec_audienceEntry_def seed_val_def member_names dec_string_def as_entry_def)

lemma demo_loads: "loadAudiences (demo_env pkg) ''audiences'' = Inr demo_loaded"
proof -
  let ?v = "vlist seed_val demo_seeds" and ?e0 = "\<lparr> ae_Name = [], ae_Kid = [], ae_PublicKey = [] \<rparr>"
  have "decodes dec_audienceEntry (seed_val s) (as_entry s)" if "s \<in> set demo_seeds" for s
    using that by (auto simp: demo_seeds_def ascii_raw_url intro!: demo_entry)
  then have "dec_elems dec_audienceEntry ?e0 olds (map (\<lambda>s. syntax_of (seed_val s)) ss) = Some (map as_entry ss)"
    if "set ss \<subseteq> set demo_seeds" for ss olds
    using that by (induction ss arbitrary: olds) (simp_all add: decodes_def)
  from this [of demo_seeds] have "dec_list dec_audienceEntry ?e0 (syntax_of ?v) [] = Some (map as_entry demo_seeds)"
    by (simp add: dec_list_def vlist_def comp_def)
  moreover have "marshal ?v = Inr demo_entries_text" "readable ?v" "depth ?v \<le> maxNestingDepth"
    by (simp_all add: demo_entries_text_def marshal_def vlist_def demo_seeds_def seed_val_def maxNestingDepth_def)
  ultimately have "json_Unmarshal (dec_list dec_audienceEntry ?e0) [] demo_entries_text = Inr (map as_entry demo_seeds)"
    by (intro Unmarshal_written)
  then show ?thesis
    by (simp add: loadAudiences_def demo_seeds_def as_entry_def key_text_trimmed raw_url_roundtrip demo_loaded_def)
      (simp add: demo_public_def)
qed

lemma demo_payload_file: "readPayload (demo_env pkg) ''payload'' = Inr payload0"
proof -
  have "marshal (VObj []) = Inr (bytes_of ''{}'')" by (simp add: marshal_def)
  then have "json_Unmarshal dec_payload payload0 (bytes_of ''{}'') = Inr payload0"
    by (rule Unmarshal_written) (simp_all add: maxNestingDepth_def dec_payload_def dec_struct_def)
  then show ?thesis by (simp add: readPayload_def)
qed

lemma demo_resolved:
  "resolveAuthority P (demo_env pkg) [] ''k'' = Inr (Some (http_authority (intent_New demo_client ''k'' None)))"
  by (simp add: resolveAuthority_def demo_env_def)

section \<open>The run of seal\<close>

definition demo_cli_request :: "bytes \<Rightarrow> projection \<Rightarrow> seal_request" where
  "demo_cli_request pkg q = cli_request flat_prims (demo_env pkg) demo_seal_set demo_loaded (split_of payload0) q"

lemma demo_cli_sealable: "sealable flat_prims (demo_cli_request pkg q)"
proof -
  have "request_text (demo_cli_request pkg q)"
    by (simp add: demo_cli_request_def cli_request_def request_text_def demo_flags demo_loaded_def
        toChainbindAudiences_def authorityLabel_def Name_def)
  moreover have "agreeable flat_prims (demo_public n)" for n
    using demo_agreeable by (simp add: flat_prims_def agreeable_def)
  ultimately show ?thesis
    by (simp add: sealable_def demo_cli_request_def cli_request_def demo_loaded_def toChainbindAudiences_def
        profile_SegmentOrder_def split_of_lookup time_ok_def demo_env_def demo_now_def demo_request_def)
qed

lemma demo_cli_sealed:
  obtains q pkg' s where "Project (PayloadValue payload0) = Inr q"
    "Seal flat_prims (demo_cli_request pkg q) (local_port flat_prims (\<lparr> ls_priv = replicate 64 7, ls_kid = ''k1'' \<rparr>, None))
       (Wrapper flat_prims) (http_authority (intent_New demo_client ''k'' None)) demo_world = (Inr pkg', s)"
proof -
  let ?si = "local_port flat_prims (\<lparr> ls_priv = replicate 64 7, ls_kid = ''k1'' \<rparr>, None)"
  obtain q where q: "Project (PayloadValue payload0) = Inr q" using demo_projected by blast
  have names: "{AudienceMerchant, AudienceGateway} \<subseteq> au_Name ` set (sr_Audiences (demo_cli_request pkg q))"
    by (simp add: demo_cli_request_def cli_request_def toChainbindAudiences_def demo_loaded_def)
  have jcs: "jcs_total flat_prims" using flat_laws by (simp add: sealing_laws_def)
  have computes: "\<forall>spec \<in> set (sr_BindingSpecs (demo_cli_request pkg q)). computes (demo_cli_request pkg q) spec"
    using profile_computes [OF jcs names] by (simp add: demo_cli_request_def cli_request_def)
  have "answers ?si" by (simp add: answers_def local_port_def local_Kid_def local_Sign_def)
  moreover have "authorizes (http_authority (intent_New demo_client ''k'' None)) (demo_cli_request pkg q)"
    using demo_allows demo_hashes by (simp add: authorizes_def demo_cli_request_def cli_request_def)
  moreover have "entropy_needed (demo_cli_request pkg q) \<le> length (entropy demo_world)"
    by (simp add: entropy_needed_def demo_cli_request_def cli_request_def toChainbindAudiences_def demo_loaded_def
        demo_world_def)
  ultimately obtain pkg' s where
    "Seal flat_prims (demo_cli_request pkg q) ?si (Wrapper flat_prims)
       (http_authority (intent_New demo_client ''k'' None)) demo_world = (Inr pkg', s)"
    using Seal_live [OF flat_laws demo_cli_sealable computes] by blast
  with q show thesis by (rule that)
qed

lemma demo_env_fields [simp]:
  "ce_now (demo_env pkg) = demo_now" "ce_put (demo_env pkg) b = None" "ce_WriteFile (demo_env pkg) path b = None"
  by (simp_all add: demo_env_def)

lemma demo_jcs: "jcs_total flat_prims"
  using flat_laws by (simp add: sealing_laws_def)

lemma demo_now_valid: "time_valid demo_now"
  by (simp add: time_valid_def demo_now_def demo_request_def daysIn_def)

lemma demo_pair: "ed25519_pair flat_prims (replicate 64 7) (replicate 32 0)"
  by (simp add: ed25519_pair_def flat_prims_def)

lemma demo_wraps: "wrapper_laws flat_prims" "gcm_ok flat_prims"
  using demo_laws(2) demo_gcm_ok by (simp_all add: flat_prims_def wrapper_laws_def aes_ok_def ecdh_ok_def gcm_ok_def)

lemma demo_cli_run:
  obtains r w where "runSeal flat_prims (demo_env pkg) demo_seal_args demo_world = (r, w)" "cr_exit r = exitOK"
proof -
  let ?si = "\<lparr> ls_priv = replicate 64 7, ls_kid = ''k1'' \<rparr>"
  let ?iv = "http_authority (intent_New demo_client ''k'' None)"
  obtain q pkg' s where sealed: "Project (PayloadValue payload0) = Inr q"
    "Seal flat_prims (demo_cli_request pkg q) (local_port flat_prims (?si, None)) (Wrapper flat_prims) ?iv demo_world
      = (Inr pkg', s)" by (rule demo_cli_sealed)
  have ran: "seal_ran flat_prims (demo_env pkg) demo_seal_set ?iv (replicate 64 7) demo_loaded payload0
      (demo_cli_request pkg q) pkg' demo_world s"
    unfolding seal_ran_def demo_flags
    using sealed demo_resolved demo_keys_loaded demo_loads demo_payload_file
    by (auto simp: PrivateKeySize_def demo_cli_request_def)
  have "package_text pkg'"
    using seal_ran_text [OF ran demo_flags_text demo_jcs] demo_now_valid by simp
  then obtain raw where raw: "marshal_indent (package_val pkg') = Inr raw" using indent_marshals by blast
  have given: "\<not> (\<exists>n \<in> set [''payload'', ''audiences'', ''intent-ref'', ''signing-key'', ''issuer'', ''kid'']. flag_str demo_seal_set n = [])"
    by (simp add: demo_flags)
  have segs: "Split (PayloadValue payload0) = Inr (split_of payload0)" by (simp add: Split_eq asPayload_def)
  have si: "local_New (replicate 64 7) ''k1'' = Inr ?si" by (simp add: local_New_Inr)
  have wrote: "\<exists>out. writeOutput (demo_env pkg) [] raw = (None, out, None)" by (simp add: writeOutput_def)
  have "\<exists>out. runSeal flat_prims (demo_env pkg) demo_seal_args demo_world
      = (\<lparr> cr_exit = exitOK, cr_stdout = out, cr_stderr = [], cr_file = None \<rparr>, s)"
    unfolding runSeal_def demo_parsed_flags option.case if_not_P [OF given] unfolding demo_flags demo_resolved
      demo_keys_loaded demo_loads demo_payload_file segs sealed(1) si sum.case option.case
      demo_cli_request_def [symmetric] sealed(2) raw prod.case
    using wrote by auto
  then obtain out where "runSeal flat_prims (demo_env pkg) demo_seal_args demo_world
      = (\<lparr> cr_exit = exitOK, cr_stdout = out, cr_stderr = [], cr_file = None \<rparr>, s)" ..
  then show thesis by (rule that) simp
qed

lemma demo_same_authority: "same_authority (demo_env pkg) (demo_env pkg')"
  by (simp add: same_authority_def demo_env_def)

lemma demo_key_files: "key_files flat_prims (demo_env pkg) ''seed'' (demo_env pkg') ''issuer'' (replicate 32 0)"
  by (simp add: key_files_def demo_keys_loaded demo_pair)

lemma flat_thumbprint: "Thumbprint flat_prims pub = Thumbprint demo_prims pub"
proof -
  have same: "thumbprintOf flat_prims = thumbprintOf demo_prims"
    by (intro ext) (simp add: thumbprintOf_def flat_prims_def)
  show ?thesis unfolding Thumbprint_def same ..
qed

lemma demo_holds: "holds_key flat_prims demo_loaded (demo_private 2) AudienceMerchant"
proof -
  have "PublicKey flat_prims (demo_private 2) = Inr (demo_public 2)"
    by (simp add: PublicKey_def ecdh_NewPrivateKey_def demo_private_def flat_prims_def demo_prims_def demo_public_def)
  then show ?thesis
    using demo_thumbprints
    by (intro holds_key_def [THEN iffD2] bexI [of _ "\<lparr> ap_name = AudienceMerchant, ap_kid = ''k2'', ap_pub = demo_public 2 \<rparr>"])
      (auto simp: demo_loaded_def flat_thumbprint)
qed

end
