(* ===== verification/Mock_Authority.thy ===== *)
theory Mock_Authority
  imports Intent_Http Mock_Intent Package_Wire Seal Key_Wrap
begin

text \<open>
  \<^verbatim>\<open>cmd/mock-authority/main.go\<close>: the in-process authority served over HTTP, in the wire shape
  the HTTP adapter speaks. The theorems join the two ends: the adapter talking to this
  server decides as the in-process authority does, and fails whenever that one fails.
\<close>

definition envOr :: "(string \<Rightarrow> string) \<Rightarrow> string \<Rightarrow> string \<Rightarrow> string" where
  "envOr getenv name fallback = (let v = getenv name in if v \<noteq> [] then v else fallback)"

section \<open>The handler\<close>

definition dec_check_body :: "float_lib \<Rightarrow> goval jdec" where
  "dec_check_body F = dec_struct [(''projection'', at_field id (\<lambda>f. f) (dec_any F))]"

definition decision_val :: "intent_decision \<Rightarrow> goval" where
  "decision_val d = VObj [(''allowed'', VBool (id_Allowed d)), (''reason'', VStr (id_Reason d))]"

definition hash_val :: "string \<Rightarrow> goval" where
  "hash_val h = VObj [(''constraints_hash'', VStr h)]"

definition authority_writeJSON :: "goval \<Rightarrow> response" where
  "authority_writeJSON v = json_response 200 v"

text \<open>The server as it runs: its number routines, the order it ranges in, its store.\<close>

record mock_server =
  sv_floats :: float_lib
  sv_order :: "mock_constraints \<Rightarrow> (string \<times> mock_rule) list"
  sv_auths :: mock_state

text \<open>\<open>ctx\<close> is the error of the request's context, \<open>None\<close> while the client is there.\<close>

definition check_handler :: "mock_server \<Rightarrow> err option \<Rightarrow> string \<Rightarrow> handler" where
  "check_handler S ctx ref r =
     (case json_Decode (dec_check_body (sv_floats S)) VNull (length (rq_body r)) (rq_body r) of
        Inl e \<Rightarrow> Some (http_Error ''malformed request body'' 400)
      | Inr projection \<Rightarrow>
     (case mock_Check (sv_floats S) (sv_order S) ctx (sv_auths S) ref projection of
        None \<Rightarrow> None
      | Some (Inl e) \<Rightarrow> Some (http_Error ''intent check failed'' 500)
      | Some (Inr decision) \<Rightarrow> Some (authority_writeJSON (decision_val decision))))"

definition hash_handler :: "prims \<Rightarrow> mock_server \<Rightarrow> err option \<Rightarrow> string \<Rightarrow> handler" where
  "hash_handler P S ctx ref r =
     (case mock_ConstraintsHash P (sv_floats S) ctx (sv_auths S) ref of
        Inl e \<Rightarrow> Some (http_Error ''constraints hash failed'' 500)
      | Inr hash \<Rightarrow> Some (authority_writeJSON (hash_val hash)))"

definition health_handler :: "err option \<Rightarrow> handler" where
  "health_handler ctx r =
     (case mock_Ping ctx of
        Some e \<Rightarrow> Some (http_Error ''not ready'' 503)
      | None \<Rightarrow> Some (authority_writeJSON (VObj [(''status'', VStr ''ok'')])))"

definition newHandler :: "prims \<Rightarrow> mock_server \<Rightarrow> err option \<Rightarrow> handler" where
  "newHandler P S ctx = serve_mux Some
     [\<lparr> ro_method = ''POST'', ro_path = [Lit ''v1'', Lit ''intents'', Wild, Lit ''check''],
        ro_handler = (\<lambda>vs. check_handler S ctx (hd vs)) \<rparr>,
      \<lparr> ro_method = ''GET'', ro_path = [Lit ''v1'', Lit ''intents'', Wild, Lit ''constraints-hash''],
        ro_handler = (\<lambda>vs. hash_handler P S ctx (hd vs)) \<rparr>,
      \<lparr> ro_method = ''GET'', ro_path = [Lit ''v1'', Lit ''health''],
        ro_handler = (\<lambda>vs. health_handler ctx) \<rparr>]"

section \<open>Routing of the adapter's requests\<close>

definition plain_ref :: "string \<Rightarrow> bool" where
  "plain_ref ref \<longleftrightarrow> ref \<notin> {[], ''.'', ''..''}"

lemma path_value_literals [simp]:
  "path_value ''v1'' = ''v1''" "path_value ''intents'' = ''intents''" "path_value ''check'' = ''check''"
  "path_value ''constraints-hash'' = ''constraints-hash''" "path_value ''health'' = ''health''"
  by (simp_all add: path_value_def)

lemma intent_path:
  assumes "CHR ''/'' \<notin> set tail"
  shows "split_on (CHR ''/'') (CHR ''/'' # ''v1/intents/'' @ PathEscape ref @ CHR ''/'' # tail)
           = [[], ''v1'', ''intents'', PathEscape ref, tail]"
  using no_slash_escape [of ref] assms by (simp add: split_on_append split_on_plain)

lemma plain_segments:
  "plain_ref ref \<Longrightarrow> tail \<notin> {[], ''.'', ''..''} \<Longrightarrow> clean_segments [''v1'', ''intents'', PathEscape ref, tail]"
  by (auto simp: clean_segments_def plain_ref_def escape_dots eq_commute [of _ "PathEscape ref"])

lemma route_check:
  assumes "plain_ref ref" "rq_method rq = ''POST''"
    "rq_target rq = CHR ''/'' # ''v1/intents/'' @ PathEscape ref @ ''/check''"
  shows "newHandler P S ctx rq = check_handler S ctx ref rq"
  using assms(2) plain_segments [OF assms(1), of "''check''"] intent_path [of "''check''" ref]
  by (simp add: newHandler_def serve_mux_def assms(3) serves_def)

lemma route_hash:
  assumes "plain_ref ref" "rq_method rq = ''GET''"
    "rq_target rq = CHR ''/'' # ''v1/intents/'' @ PathEscape ref @ ''/constraints-hash''"
  shows "newHandler P S ctx rq = hash_handler P S ctx ref rq"
  using assms(2) plain_segments [OF assms(1), of "''constraints-hash''"] intent_path [of "''constraints-hash''" ref]
  by (simp add: newHandler_def serve_mux_def assms(3) serves_def)

text \<open>A reference that is empty or dots is no path of the server: it is redirected.\<close>

lemma route_odd:
  assumes "\<not> plain_ref ref" "rq_target rq = CHR ''/'' # ''v1/intents/'' @ PathEscape ref @ CHR ''/'' # tail"
    "CHR ''/'' \<notin> set tail"
  shows "newHandler P S ctx rq = Some \<lparr> rs_status = 301, rs_type = [], rs_body = [] \<rparr>"
proof -
  have "\<not> clean_segments [''v1'', ''intents'', PathEscape ref, tail]"
    using assms(1) by (auto simp: clean_segments_def plain_ref_def escape_dots eq_commute [of _ "PathEscape ref"])
  with intent_path [OF assms(3), of ref] show ?thesis
    by (simp add: newHandler_def serve_mux_def assms(2))
qed

lemma route_health:
  assumes "rq_method rq = ''GET''" "rq_target rq = ''/v1/health''"
  shows "newHandler P S ctx rq = health_handler ctx rq"
  using assms by (simp add: newHandler_def serve_mux_def serves_def clean_segments_def)

section \<open>What the server decodes\<close>

declare json_escape.simps(2) [simp del] unquote.simps(2) [simp del]

text \<open>
  A projection of scalars, as the checkout profile makes one. The numbers of the server's
  \<^verbatim>\<open>encoding/json\<close> read back: what it writes for a float it read is that float.
\<close>

fun scalar_val :: "goval \<Rightarrow> bool" where
  "scalar_val (VArr _) \<longleftrightarrow> False"
| "scalar_val (VObj _) \<longleftrightarrow> False"
| "scalar_val (VFail _) \<longleftrightarrow> False"
| "scalar_val _ \<longleftrightarrow> True"

definition flat_projection :: "goval \<Rightarrow> bool" where
  "flat_projection v \<longleftrightarrow>
     (\<exists>kvs. v = VObj kvs \<and> list_all (\<lambda>(k, u). scalar_val u) kvs) \<and> wf_val v \<and> readable v"

definition floats_reread :: "float_lib \<Rightarrow> bool" where
  "floats_reread F \<longleftrightarrow> (\<forall>n q. fl_parse F n = Some q \<longrightarrow> fl_parse F (fl_json F q) = Some q)"

lemma utf8_sanitize: "utf8_valid (sanitize s)"
  using utf8_unquote [of "json_escape s"] by (simp only: unquote_escape)

lemma sanitize_twice [simp]: "sanitize (sanitize s) = sanitize s"
  by (rule sanitize_valid) (rule utf8_sanitize)

text \<open>A member that reads back as it is.\<close>

definition rereads :: "float_lib \<Rightarrow> string \<times> jval \<Rightarrow> bool" where
  "rereads F kj \<longleftrightarrow> (case kj of (k, j) \<Rightarrow>
     sanitize k = k \<and> decode_any F (jval_val F j) = Some j \<and> first_fail (jval_val F j) = None)"

lemma scalar_reread:
  assumes "floats_reread F" "scalar_val u" "decode_any F u = Some j"
  shows "decode_any F (jval_val F j) = Some j \<and> first_fail (jval_val F j) = None"
  using assms by (cases u) (auto simp: floats_reread_def)

lemma decode_pairs_scalars:
  assumes "floats_reread F"
  shows "list_all (\<lambda>(k, u). scalar_val u) kvs \<Longrightarrow> decode_pairs F kvs = Some js \<Longrightarrow>
    list_all (rereads F) js"
proof (induction kvs arbitrary: js)
  case (Cons kv kvs)
  obtain k u where kv: "kv = (k, u)" by (cases kv)
  with Cons.prems obtain j js' where "decode_any F u = Some j" "decode_pairs F kvs = Some js'"
    "js = (sanitize k, j) # js'" by (auto split: option.splits)
  moreover from this scalar_reread [OF assms, of u j] kv Cons.prems(1)
  have "rereads F (sanitize k, j)" by (simp add: rereads_def)
  ultimately show ?case using Cons.IH Cons.prems(1) kv by simp
qed simp

lemma decode_pairs_back:
  "list_all (rereads F) js \<Longrightarrow>
     decode_pairs F (map (\<lambda>(k, j). (k, jval_val F j)) js) = Some js \<and>
     first_fail_members (map (\<lambda>(k, j). (k, jval_val F j)) js) = None"
  by (induction js) (auto simp: rereads_def)

lemma fmap_of_rev: "distinct (map fst kvs) \<Longrightarrow> fmap_of_list (rev kvs) = fmap_of_list kvs"
  by (rule fmap_ext) (simp add: fmlookup_of_list map_of_inject_set rev_map [symmetric]
      map_of_inject_set [of "rev kvs" kvs, THEN iffD2])

lemma jval_pairs_map: "jval_pairs F kvs = map (\<lambda>(k, j). (k, jval_val F j)) kvs"
  by (induction kvs) auto

lemma entries_map_values:
  fixes kvs :: "('a :: linorder \<times> 'c) list"
  shows "entries (fmap_of_list (map (\<lambda>(k, v). (k, f v)) kvs)) = map (\<lambda>(k, v). (k, f v)) (entries (fmap_of_list kvs))"
proof -
  have m: "fmap_of_list (map (\<lambda>(k, v). (k, f v)) kvs) = fmmap f (fmap_of_list kvs)"
    by (rule fmap_ext) (simp add: fmlookup_of_list map_of_map comp_def)
  have "map (\<lambda>k. (k, the (map_option f (fmlookup m' k)))) ks = map (\<lambda>(k, v). (k, f v)) (map (\<lambda>k. (k, the (fmlookup m' k))) ks)"
    if "set ks \<subseteq> fset (fmdom m')" for m' :: "('a, 'c) fmap" and ks
    using that by (induction ks) (auto simp: fmdom_iff)
  from this [of "sorted_list_of_fset (fmdom (fmap_of_list kvs))" "fmap_of_list kvs"] show ?thesis
    by (simp add: m entries_def sorted_list_of_fmap_def sorted_list_of_fset.rep_eq)
qed

lemma set_entries_list: "set (entries (fmap_of_list kvs)) \<subseteq> set kvs"
proof
  fix kv
  assume "kv \<in> set (entries (fmap_of_list kvs))"
  then have "map_of (entries (fmap_of_list kvs)) (fst kv) = Some (snd kv)"
    by (intro map_of_is_SomeI) (simp_all add: fst_entries sorted_list_of_fset.rep_eq)
  then show "kv \<in> set kvs" using map_of_SomeD [of kvs "fst kv" "snd kv"] by (simp add: fmlookup_of_list)
qed

lemma projectionFields_reread:
  assumes "flat_projection v" "floats_reread F" "decode_any F v = Some j"
  shows "projectionFields F (jval_val F j) = projectionFields F v"
proof -
  from assms(1,3) obtain kvs js where v: "v = VObj kvs" "decode_pairs F kvs = Some js" "j = JObj js"
    "list_all (\<lambda>(k, u). scalar_val u) kvs" "wf_val v"
    by (auto simp: flat_projection_def)
  let ?m = "fmap_of_list (rev js)"
  have "list_all (rereads F) js"
    by (rule decode_pairs_scalars [OF assms(2) v(4,2)])
  then have "list_all (rereads F) (entries ?m)"
    using set_entries_list [of "rev js"] by (auto simp: list_all_iff)
  note again = decode_pairs_back [OF this]
  have val: "jval_val F j = VObj (map (\<lambda>(k, j). (k, jval_val F j)) (entries ?m))"
    by (simp add: v(3) jval_pairs_map rev_map entries_map_values)
  have "fmap_of_list (entries ?m) = ?m" by (rule fmap_ext) (simp add: fmlookup_of_list)
  then have m: "fmap_of_list (rev (entries ?m)) = ?m"
    by (simp add: fmap_of_rev fst_entries sorted_list_of_fset.rep_eq)
  show ?thesis
    using first_fail_wf [OF v(5)] again
    by (simp add: projectionFields_def marshal_def val m v(1,2))
qed

lemma server_reads:
  assumes "flat_projection v" "marshal (check_request_val v) = Inr body"
  shows "json_Decode (dec_check_body F) VNull (length body) body =
    decoded (dec_check_body F) VNull (Some (syntax_of (check_request_val v)))"
    and "decoded (dec_check_body F) VNull (Some (syntax_of (check_request_val v))) =
    (case decode_any F v of None \<Rightarrow> Inl (LibErr ''json: cannot unmarshal value'') | Some j \<Rightarrow> Inr (jval_val F j))"
proof -
  from assms(1) obtain kvs where v: "v = VObj kvs" "list_all (\<lambda>(k, u). scalar_val u) kvs" "wf_val v" "readable v"
    by (auto simp: flat_projection_def)
  have "depth u = 0" if "scalar_val u" for u using that by (cases u) simp_all
  then have "depth_members kvs \<le> 0" using v(2) by (intro depth_members_le) (auto simp: list_all_iff)
  then have "depth (check_request_val v) \<le> maxNestingDepth"
    by (simp add: check_request_val_def v(1) maxNestingDepth_def)
  from Decode_text [OF assms(2) _ this, of "length body" "dec_check_body F" VNull "[]"] v(4)
  show "json_Decode (dec_check_body F) VNull (length body) body =
    decoded (dec_check_body F) VNull (Some (syntax_of (check_request_val v)))"
    by (simp add: check_request_val_def)
  show "decoded (dec_check_body F) VNull (Some (syntax_of (check_request_val v))) =
    (case decode_any F v of None \<Rightarrow> Inl (LibErr ''json: cannot unmarshal value'') | Some j \<Rightarrow> Inr (jval_val F j))"
    using value_of_syntax [OF v(3)]
    by (simp add: decoded_def dec_check_body_def check_request_val_def dec_struct_def find_field_def at_field_def
        dec_any_def split: option.split)
qed

section \<open>The adapter over the server is the in-process authority\<close>

lemma marshal_check: "flat_projection v \<Longrightarrow> \<exists>body. marshal (check_request_val v) = Inr body"
  using first_fail_wf [of v] by (auto simp: flat_projection_def marshal_def check_request_val_def)

lemma check_fails:
  assumes "flat_projection v" "decode_any F v = None"
  shows "\<exists>r. mock_Check F order ctx s ref v = Some (Inl r)"
  using assms by (auto simp: flat_projection_def mock_Check_def projectionFields_def
      split: option.split sum.split)

lemma check_answer:
  assumes "flat_projection v" "floats_reread (sv_floats S)" "marshal (check_request_val v) = Inr body"
    and "rq_body rq = body"
  shows "check_handler S ctx ref rq =
    (case mock_Check (sv_floats S) (sv_order S) ctx (sv_auths S) ref v of
       None \<Rightarrow> None
     | Some (Inl e) \<Rightarrow> Some (if decode_any (sv_floats S) v = None then http_Error ''malformed request body'' 400
                             else http_Error ''intent check failed'' 500)
     | Some (Inr d) \<Rightarrow> Some (authority_writeJSON (decision_val d)))"
proof (cases "decode_any (sv_floats S) v")
  case None
  obtain e where "mock_Check (sv_floats S) (sv_order S) ctx (sv_auths S) ref v = Some (Inl e)"
    using check_fails [OF assms(1) None] by blast
  with None server_reads [OF assms(1,3), of "sv_floats S"] assms(4) show ?thesis
    by (simp add: check_handler_def)
next
  case (Some j)
  then have "mock_Check (sv_floats S) (sv_order S) ctx (sv_auths S) ref (jval_val (sv_floats S) j) =
      mock_Check (sv_floats S) (sv_order S) ctx (sv_auths S) ref v"
    unfolding mock_Check_def by (subst projectionFields_reread [OF assms(1,2)]) simp_all
  with Some server_reads [OF assms(1,3), of "sv_floats S"] assms(4) show ?thesis
    by (simp add: check_handler_def)
qed

lemma decode_decision:
  assumes "length (encode (decision_val d)) \<le> maxResponseBody"
  shows "json_Decode dec_check_response check_response0 maxResponseBody (encode (decision_val d)) =
    Inr (d\<lparr>id_Reason := sanitize (id_Reason d)\<rparr>)"
  by (rule encode_read [where d = dec_check_response, OF _ _ _ _ assms])
    (simp_all add: decision_val_def maxNestingDepth_def dec_check_response_def dec_struct_def find_field_def
      at_field_def dec_bool_def dec_string_def unquote_escape check_response0_def)

lemma decode_hash:
  assumes "length (encode (hash_val h)) \<le> maxResponseBody"
  shows "json_Decode dec_hash_response [] maxResponseBody (encode (hash_val h)) = Inr (sanitize h)"
  by (rule encode_read [where d = dec_hash_response, OF _ _ _ _ assms])
    (simp_all add: hash_val_def maxNestingDepth_def dec_hash_response_def dec_struct_def find_field_def
      at_field_def dec_string_def unquote_escape)

text \<open>
  What the adapter answers, case by case. A reason longer than the client reads is an error,
  and one that is not valid UTF-8 arrives with its bad bytes replaced.
\<close>

theorem http_check_refines:
  assumes "connected C base (newHandler P S ctx)" "plain_ref ref" "flat_projection v"
    and "floats_reread (sv_floats S)"
  defines "answer \<equiv> mock_Check (sv_floats S) (sv_order S) ctx (sv_auths S) ref v"
  shows "answer = Some (Inr d) \<Longrightarrow> length (encode (decision_val d)) \<le> maxResponseBody \<Longrightarrow>
      intent_Check \<lparr> hv_baseURL = base, hv_client = C \<rparr> ref v = Inr (d\<lparr>id_Reason := sanitize (id_Reason d)\<rparr>)"
    and "(\<nexists>d. answer = Some (Inr d)) \<Longrightarrow>
      \<exists>e. intent_Check \<lparr> hv_baseURL = base, hv_client = C \<rparr> ref v = Inl e"
proof -
  let ?v = "\<lparr> hv_baseURL = base, hv_client = C \<rparr>"
  obtain body where body: "marshal (check_request_val v) = Inr body" using marshal_check [OF assms(3)] by blast
  let ?rq = "check_request ?v ref body"
  let ?path = "''v1/intents/'' @ PathEscape ref @ ''/check''"
  have target: "rq_target ?rq = base @ CHR ''/'' # ?path" by (simp add: check_request_def)
  have srv: "newHandler P S ctx (?rq\<lparr>rq_target := CHR ''/'' # ?path\<rparr>)
      = check_handler S ctx ref (?rq\<lparr>rq_target := CHR ''/'' # ?path\<rparr>)"
    by (rule route_check [OF assms(2)]) (simp_all add: check_request_def)
  note reply = check_answer [OF assms(3,4) body, of "?rq\<lparr>rq_target := CHR ''/'' # ?path\<rparr>" ctx ref, folded answer_def]
  have ok: "cl_parse C (rq_target ?rq) = None" using assms(1) target by (simp add: connected_def)
  show "intent_Check ?v ref v = Inr (d\<lparr>id_Reason := sanitize (id_Reason d)\<rparr>)"
    if "answer = Some (Inr d)" "length (encode (decision_val d)) \<le> maxResponseBody"
  proof -
    have "cl_do C ?rq = Inr (authority_writeJSON (decision_val d))"
      by (rule connected_answer [OF assms(1) target]) (use srv reply that(1) in \<open>simp add: check_request_def\<close>)
    then show ?thesis
      using body ok decode_decision [OF that(2)]
      by (auto simp: intent_Check_Inr authority_writeJSON_def json_response_def status_2xx_def)
  qed
  show "\<exists>e. intent_Check ?v ref v = Inl e" if "\<nexists>d. answer = Some (Inr d)"
  proof (rule ccontr)
    assume "\<nexists>e. intent_Check ?v ref v = Inl e"
    then obtain d where "intent_Check ?v ref v = Inr d" by (cases "intent_Check ?v ref v") auto
    with body obtain rs where rs: "cl_do C ?rq = Inr rs" "status_2xx rs" by (auto simp: intent_Check_Inr)
    show False
    proof (cases answer)
      case None
      with srv reply have "newHandler P S ctx (?rq\<lparr>rq_target := CHR ''/'' # ?path\<rparr>) = None"
        by (simp add: check_request_def)
      from connected_panic [OF assms(1) target this] rs(1) show False by auto
    next
      case (Some r)
      with that obtain e where "answer = Some (Inl e)" by (cases r) auto
      with srv reply obtain code msg where
        "newHandler P S ctx (?rq\<lparr>rq_target := CHR ''/'' # ?path\<rparr>) = Some (http_Error msg code)" "code \<ge> 300"
        by (auto simp: check_request_def split: if_splits)
      from connected_answer [OF assms(1) target this(1)] this(2) rs show False
        by (simp add: http_Error_def status_2xx_def)
    qed
  qed
qed

lemma json_plain: "list_all plain_char s \<Longrightarrow> json_string s = CHR 0x22 # s @ [CHR 0x22]"
  by (simp add: json_string_def plain_text)

lemma plain_H: "list_all plain_char (H P b)"
proof -
  have "list_all plain_char (''sha256:'' @ hex_digits)"
    by (simp add: hex_digits_def plain_char_def quote_ascii_def json_ascii_def)
  then have "\<forall>c \<in> set hex_digits. plain_char c" "list_all plain_char ''sha256:''" by (auto simp: list_all_iff)
  moreover have "set (hex_encode b') \<subseteq> set hex_digits" for b'
  proof (induction b')
    case (Cons x xs)
    have "unat x div 16 < 16" "unat x mod 16 < 16" using unat_byte_bound [of x] by (auto simp: div_less_iff_less_mult)
    then have "set (hex_byte x) \<subseteq> set hex_digits"
      by (simp add: hex_byte_def length_hex_digits)
    with Cons show ?case by (simp add: hex_encode_def)
  qed (simp add: hex_encode_def)
  ultimately show ?thesis by (auto simp: H_def list_all_iff)
qed

lemma hash_fits:
  assumes "sha256_ok P"
  shows "length (encode (hash_val (H P b))) \<le> maxResponseBody"
proof -
  have name: "list_all plain_char ''constraints_hash''"
    by (simp add: plain_char_def quote_ascii_def json_ascii_def)
  have "length (H P b) = 71" using assms by (simp add: H_def sha256_ok_def)
  then show ?thesis
    by (simp add: encode_def hash_val_def marshal_def maxResponseBody_def json_plain [OF name] json_plain [OF plain_H])
qed

lemma allowed_fits: "length (encode (decision_val \<lparr> id_Allowed = True, id_Reason = [] \<rparr>)) \<le> maxResponseBody"
proof -
  have "list_all plain_char ''allowed''" "list_all plain_char ''reason''"
    by (simp_all add: plain_char_def quote_ascii_def json_ascii_def)
  then show ?thesis
    by (simp add: encode_def decision_val_def marshal_def maxResponseBody_def json_plain)
qed

text \<open>The hash comes over as it is, and never as anything else.\<close>

theorem http_hash_refines:
  assumes "connected C base (newHandler P S ctx)" "plain_ref ref" "sha256_ok P"
  shows "intent_ConstraintsHash \<lparr> hv_baseURL = base, hv_client = C \<rparr> ref = Inr h \<longleftrightarrow>
    mock_ConstraintsHash P (sv_floats S) ctx (sv_auths S) ref = Inr h"
proof -
  let ?v = "\<lparr> hv_baseURL = base, hv_client = C \<rparr>"
  let ?rq = "hash_request ?v ref"
  let ?path = "''v1/intents/'' @ PathEscape ref @ ''/constraints-hash''"
  let ?answer = "mock_ConstraintsHash P (sv_floats S) ctx (sv_auths S) ref"
  have target: "rq_target ?rq = base @ CHR ''/'' # ?path" by (simp add: hash_request_def)
  have srv: "newHandler P S ctx (?rq\<lparr>rq_target := CHR ''/'' # ?path\<rparr>)
      = hash_handler P S ctx ref (?rq\<lparr>rq_target := CHR ''/'' # ?path\<rparr>)"
    by (rule route_hash [OF assms(2)]) (simp_all add: hash_request_def)
  have ok: "cl_parse C (rq_target ?rq) = None" using assms(1) target by (simp add: connected_def)
  show ?thesis
  proof (cases ?answer)
    case (Inl e)
    then have "cl_do C ?rq = Inr (http_Error ''constraints hash failed'' 500)"
      by (intro connected_answer [OF assms(1) target]) (use srv in \<open>simp add: hash_handler_def\<close>)
    with Inl show ?thesis by (auto simp: intent_Hash_Inr http_Error_def status_2xx_def)
  next
    case (Inr k)
    then obtain canon where k: "k = H P canon"
      by (auto simp: mock_ConstraintsHash_def hashConstraints_def split: option.splits sum.splits)
    from Inr have "cl_do C ?rq = Inr (authority_writeJSON (hash_val k))"
      by (intro connected_answer [OF assms(1) target]) (use srv in \<open>simp add: hash_handler_def\<close>)
    moreover have "json_Decode dec_hash_response [] maxResponseBody (encode (hash_val k)) = Inr k"
      using decode_hash [OF hash_fits [OF assms(3)], of canon] by (simp add: k sanitize_valid)
    moreover have "k \<noteq> []" by (simp add: k H_def)
    ultimately show ?thesis
      using ok Inr by (auto simp: intent_Hash_Inr authority_writeJSON_def json_response_def status_2xx_def)
  qed
qed

section \<open>Sealing through the server\<close>

definition in_process :: "prims \<Rightarrow> mock_server \<Rightarrow> err option \<Rightarrow> intent_verifier" where
  "in_process P S ctx =
     \<lparr> iv_Check = (\<lambda>ref projection.
         case mock_Check (sv_floats S) (sv_order S) ctx (sv_auths S) ref projection of
           None \<Rightarrow> Inl (LibErr ''panic'') | Some r \<Rightarrow> r),
       iv_ConstraintsHash = mock_ConstraintsHash P (sv_floats S) ctx (sv_auths S) \<rparr>"

text \<open>Two authorities whose allowances and hashes are the same are the same to \<^verbatim>\<open>Seal\<close>.\<close>

definition allows :: "intent_verifier \<Rightarrow> string \<Rightarrow> goval \<Rightarrow> bool" where
  "allows iv ref v \<longleftrightarrow> (\<exists>d. iv_Check iv ref v = Inr d \<and> id_Allowed d)"

lemma Seal_same_authority:
  assumes "allows iv (sr_IntentRef req) (sr_Projection req) \<longleftrightarrow> allows iv' (sr_IntentRef req) (sr_Projection req)"
    and "\<And>h. iv_ConstraintsHash iv (sr_IntentRef req) = Inr h \<longleftrightarrow> iv_ConstraintsHash iv' (sr_IntentRef req) = Inr h"
  shows "snd (Seal P req si w iv s) = snd (Seal P req si w iv' s) \<and>
    (\<forall>p. fst (Seal P req si w iv s) = Inr p \<longleftrightarrow> fst (Seal P req si w iv' s) = Inr p)"
proof (cases "allows iv (sr_IntentRef req) (sr_Projection req)")
  case True
  then obtain d d' where d: "iv_Check iv (sr_IntentRef req) (sr_Projection req) = Inr d" "id_Allowed d"
    "iv_Check iv' (sr_IntentRef req) (sr_Projection req) = Inr d'" "id_Allowed d'"
    using assms(1) by (auto simp: allows_def)
  show ?thesis
  proof (cases "iv_ConstraintsHash iv (sr_IntentRef req)")
    case (Inl e)
    with assms(2) obtain e' where "iv_ConstraintsHash iv' (sr_IntentRef req) = Inl e'"
      by (cases "iv_ConstraintsHash iv' (sr_IntentRef req)") auto
    with Inl d show ?thesis by (auto simp: Seal_def Let_def split: sum.split)
  next
    case (Inr h)
    then have "iv_ConstraintsHash iv' (sr_IntentRef req) = Inr h" using assms(2) by blast
    with Inr d show ?thesis by (auto simp: Seal_def Let_def split: sum.split)
  qed
next
  case False
  with assms(1) have "\<not> allows iv' (sr_IntentRef req) (sr_Projection req)" by simp
  with False show ?thesis by (auto simp: Seal_def Let_def allows_def split: sum.split)
qed

lemma mock_allows_empty:
  assumes "mock_Check F order ctx s ref v = Some (Inr d)" "id_Allowed d"
  shows "d = \<lparr> id_Allowed = True, id_Reason = [] \<rparr>"
proof -
  have "check_rules F flds rules = Some d \<Longrightarrow> id_Allowed d \<Longrightarrow> d = \<lparr> id_Allowed = True, id_Reason = [] \<rparr>" for flds rules
    by (induction rules) (auto split: option.splits verdict.splits)
  with assms show ?thesis by (auto simp: mock_Check_def split: option.splits sum.splits)
qed

lemma http_allows:
  assumes "connected C base (newHandler P S ctx)" "plain_ref ref" "flat_projection v" "floats_reread (sv_floats S)"
    and fits: "\<And>d. mock_Check (sv_floats S) (sv_order S) ctx (sv_auths S) ref v = Some (Inr d) \<Longrightarrow>
      length (encode (decision_val d)) \<le> maxResponseBody"
  shows "allows (http_authority \<lparr> hv_baseURL = base, hv_client = C \<rparr>) ref v \<longleftrightarrow> allows (in_process P S ctx) ref v"
proof -
  note check = http_check_refines [OF assms(1-4)]
  let ?answer = "mock_Check (sv_floats S) (sv_order S) ctx (sv_auths S) ref v"
  let ?remote = "intent_Check \<lparr> hv_baseURL = base, hv_client = C \<rparr> ref v"
  show ?thesis
  proof (cases "\<exists>d. ?answer = Some (Inr d)")
    case False
    with check(2) show ?thesis by (auto simp: allows_def http_authority_def in_process_def split: option.splits)
  next
    case True
    then obtain d where d: "?answer = Some (Inr d)" by blast
    from check(1) [OF d fits [OF d]] d show ?thesis
      by (simp add: allows_def http_authority_def in_process_def)
  qed
qed

lemma http_seal_refines:
  assumes "connected C base (newHandler P S ctx)" "plain_ref (sr_IntentRef req)"
    "flat_projection (sr_Projection req)" "floats_reread (sv_floats S)" "sha256_ok P"
    and "\<And>d. mock_Check (sv_floats S) (sv_order S) ctx (sv_auths S) (sr_IntentRef req) (sr_Projection req)
           = Some (Inr d) \<Longrightarrow> length (encode (decision_val d)) \<le> maxResponseBody"
  shows "snd (Seal P req si w (http_authority \<lparr> hv_baseURL = base, hv_client = C \<rparr>) s)
       = snd (Seal P req si w (in_process P S ctx) s)"
    and "fst (Seal P req si w (http_authority \<lparr> hv_baseURL = base, hv_client = C \<rparr>) s) = Inr p \<longleftrightarrow>
         fst (Seal P req si w (in_process P S ctx) s) = Inr p"
proof -
  have "iv_ConstraintsHash (http_authority \<lparr> hv_baseURL = base, hv_client = C \<rparr>) (sr_IntentRef req) = Inr h \<longleftrightarrow>
      iv_ConstraintsHash (in_process P S ctx) (sr_IntentRef req) = Inr h" for h
    using http_hash_refines [OF assms(1,2,5)] by (simp add: http_authority_def in_process_def)
  note same = Seal_same_authority [OF http_allows [OF assms(1-4,6)] this, of P si w s]
  show "snd (Seal P req si w (http_authority \<lparr> hv_baseURL = base, hv_client = C \<rparr>) s)
       = snd (Seal P req si w (in_process P S ctx) s)" using same by blast
  show "fst (Seal P req si w (http_authority \<lparr> hv_baseURL = base, hv_client = C \<rparr>) s) = Inr p \<longleftrightarrow>
         fst (Seal P req si w (in_process P S ctx) s) = Inr p" using same by blast
qed

section \<open>The contract\<close>

text \<open>The authority as a caller over HTTP sees it, and what its server does between calls.\<close>

definition remote_port :: "prims \<Rightarrow> string \<times> mock_server \<Rightarrow> intent_verifier" where
  "remote_port P s = http_authority
     \<lparr> hv_baseURL = fst s, hv_client = loopback (fst s) (newHandler P (snd s) None) \<rparr>"

inductive server_step :: "string \<times> mock_server \<Rightarrow> string \<times> mock_server \<Rightarrow> bool" where
  server_use: "server_step (base, S) (base, S\<lparr>sv_auths := recordUse ref (sv_auths S)\<rparr>)"

inductive_cases server_stepE: "server_step s t"

lemma server_use_same: "newHandler P (S\<lparr>sv_auths := recordUse ref (sv_auths S)\<rparr>) ctx = newHandler P S ctx"
proof -
  have "check_handler (S\<lparr>sv_auths := recordUse ref (sv_auths S)\<rparr>) ctx r = check_handler S ctx r"
    "hash_handler P (S\<lparr>sv_auths := recordUse ref (sv_auths S)\<rparr>) ctx r = hash_handler P S ctx r" for r
    by (rule ext, simp add: check_handler_def hash_handler_def recordUse_Check recordUse_hash cong: sum.case_cong)+
  then show ?thesis by (simp add: newHandler_def)
qed

interpretation remote: authority_port remote_port server_step
  by unfold_locales (auto elim!: server_stepE simp: remote_port_def server_use_same)

text \<open>A healthy server is a reachable one.\<close>

lemma http_ping_refines:
  assumes "connected C base (newHandler P S ctx)"
  shows "intent_Ping \<lparr> hv_baseURL = base, hv_client = C \<rparr> = None \<longleftrightarrow> mock_Ping ctx = None"
proof -
  let ?rq = "health_request \<lparr> hv_baseURL = base, hv_client = C \<rparr>"
  have target: "rq_target ?rq = base @ CHR ''/'' # ''v1/health''" by (simp add: health_request_def)
  have srv: "newHandler P S ctx (?rq\<lparr>rq_target := CHR ''/'' # ''v1/health''\<rparr>)
      = health_handler ctx (?rq\<lparr>rq_target := CHR ''/'' # ''v1/health''\<rparr>)"
    by (rule route_health) (simp_all add: health_request_def)
  have ok: "cl_parse C (rq_target ?rq) = None" using assms(1) target by (simp add: connected_def)
  have "cl_do C ?rq = Inr (case mock_Ping ctx of Some e \<Rightarrow> http_Error ''not ready'' 503
      | None \<Rightarrow> authority_writeJSON (VObj [(''status'', VStr ''ok'')]))"
    by (intro connected_answer [OF assms(1) target])
      (use srv in \<open>simp add: health_handler_def split: option.split\<close>)
  then show ?thesis
    using ok by (auto simp: intent_Ping_None http_Error_def status_2xx_def authority_writeJSON_def
        json_response_def split: option.splits)
qed

end
