(* ===== verification/Demo_Api.thy ===== *)
theory Demo_Api
  imports Demo_Cli Mock_Authority
begin

text \<open>
  The concrete API server, command line and HTTP authority of the witnesses put to use: the
  server is well configured, the runs of the command line end well, and the authority's
  server answers over a loopback connection.
\<close>

lemma demo_configured: "well_configured flat_prims demo_config ''k:v1'' (replicate 32 0)"
proof -
  have "vault_honest flat_prims (sv_signer demo_server) (\<lambda>n. replicate 32 0)"
    "(\<lambda>n :: int. replicate 32 (0 :: byte)) (vs_version (sv_signer demo_server)) = sv_issuerPub demo_server"
    using demo_vault_honest by (simp_all add: demo_server_def)
  then have "well_configured flat_prims demo_config (sv_issuerKid demo_server) (sv_issuerPub demo_server)"
    unfolding demo_config_def
    by (rule started_well_configured [OF demo_started]) (simp_all add: demo_startup_def)
  then show ?thesis by (simp add: demo_server_def)
qed

lemma Seal_moves: "Seal P req si (Wrapper P) iv s = (Inr p, s') \<Longrightarrow> s' \<noteq> s"
  using x25519.Seal_events unfolding advances_def by fastforce

lemma Seal_not_asked:
  assumes "Seal P req si (Wrapper P) iv s = (Inr p, s')"
  shows "\<not> asked_only s s'"
proof
  assume "asked_only s s'"
  then obtain qs where qs: "trace s' = trace s @ qs" "set qs \<subseteq> range EvConstraintsHash \<union> range EvPing"
    unfolding asked_only_def by force
  from x25519.Seal_events [OF assms] obtain es where "trace s' = trace s @ EvCheck (sr_IntentRef req) # es"
    by (auto simp: advances_def)
  with qs show False by auto
qed

text \<open>The merchant opens its segment of the package of the first deployment.\<close>

lemma demo_opens:
  obtains p dek where "level1_valid demo_prims p demo_options"
    "opens demo_prims p (demo_private 2) (Wrapper demo_prims) AudienceMerchant
       (section_bytes (checkout_val (pl_Checkout demo_payload))) dek"
proof -
  obtain p s where p: "Seal demo_prims demo_request demo_signer (Wrapper demo_prims) demo_authority demo_world = (Inr p, s)"
    "level1_valid demo_prims p demo_options" by (rule demo_package)
  have "segment_plaintext (sr_Segments demo_request) (au_Name (demo_audience AudienceMerchant 2))
      = section_bytes (checkout_val (pl_Checkout demo_payload))"
    by (simp add: segment_plaintext_def demo_request_def demo_audience_def split_of_lookup)
  with sealed_opens_wrapper [OF p(1) demo_laws(2) demo_gcm_ok demo_owns demo_plaintext] p(2)
  show thesis using that by (auto simp: demo_audience_def)
qed

section \<open>The command line\<close>

lemma demo_open_run:
  assumes "runSeal flat_prims (demo_env []) demo_seal_args demo_world = (r, w)" "cr_exit r = exitOK"
  shows "fst (runOpen flat_prims (demo_env (output_of r)) demo_open_args v) =
    \<lparr> cr_exit = exitOK, cr_stdout = [], cr_stderr = println (''opened audience: '' @ AudienceMerchant),
      cr_file = Some (flag_str demo_open_set ''out'', raw_bytes (segment_plaintext (split_of payload0) AudienceMerchant)) \<rparr>"
  by (rule cli_seal_open [OF assms demo_jcs _ demo_wraps demo_parsed_flags(1) demo_flags_text _ demo_holds _
        demo_parsed_flags(3), where pub = "replicate 32 0"])
    (simp_all add: demo_now_valid demo_flags demo_loads demo_payload_file demo_keys_loaded demo_key_files)

lemma demo_cli_opens:
  obtains pkg r w where "runOpen flat_prims (demo_env pkg) demo_open_args demo_world = (r, w)" "cr_file r \<noteq> None"
proof -
  obtain r w where run: "runSeal flat_prims (demo_env []) demo_seal_args demo_world = (r, w)" "cr_exit r = exitOK"
    by (rule demo_cli_run)
  obtain r' w' where o: "runOpen flat_prims (demo_env (output_of r)) demo_open_args demo_world = (r', w')" by fastforce
  with demo_open_run [OF run, of demo_world] have "cr_file r' \<noteq> None" by simp
  with o show thesis by (rule that)
qed

lemma demo_cli_verifies:
  obtains pkg where "cr_exit (runVerify flat_prims (demo_env pkg) demo_verify_args) = exitOK"
proof -
  obtain r w where run: "runSeal flat_prims (demo_env []) demo_seal_args demo_world = (r, w)" "cr_exit r = exitOK"
    by (rule demo_cli_run)
  have "cr_exit (runVerify flat_prims (demo_env (output_of r)) demo_verify_args) = exitOK"
    by (rule cli_seal_verify [OF run demo_jcs _ demo_parsed_flags(1) demo_flags_text demo_parsed_flags(2) demo_flags(20)
          _ _ demo_same_authority, where pub = "replicate 32 0"])
      (simp_all add: demo_now_valid demo_flags demo_key_files)
  then show thesis by (rule that)
qed

section \<open>The authority behind HTTP\<close>

definition demo_mock :: mock_server where
  "demo_mock = \<lparr> sv_floats = demo_floats\<lparr>fl_json := (\<lambda>q. ''42'')\<rparr>, sv_order = (\<lambda>doc. entries (rules_of doc)),
                 sv_auths = demo_auths \<rparr>"

lemma demo_mock_hyps: "plain_ref (sr_IntentRef demo_request)" "flat_projection (sr_Projection demo_request)"
  "floats_reread (sv_floats demo_mock)"
proof -
  have "num_ok ''42''" using num_ok_dec_int [of 42] by (simp add: dec_int_def dec_nat.simps digit_char_def)
  then show "flat_projection (sr_Projection demo_request)"
    by (simp add: flat_projection_def demo_request_def num_char_def)
qed (auto simp: plain_ref_def demo_request_def floats_reread_def demo_mock_def demo_floats_def split: if_splits)

lemma demo_mock_check:
  "mock_Check (sv_floats demo_mock) (sv_order demo_mock) None (sv_auths demo_mock) (sr_IntentRef demo_request)
     (sr_Projection demo_request) = Some (Inr \<lparr> id_Allowed = True, id_Reason = [] \<rparr>)"
  by (simp add: demo_mock_def mock_Check_def mock_lookup_def demo_auths_def demo_request_def
      projectionFields_def marshal_def demo_floats_def demo_entries evaluate_def rules_of_def)

end
