(* ===== verification/Server_Life.thy ===== *)
theory Server_Life
  imports Api_Main Mock_Authority "HOL-Library.Multiset"
begin

text \<open>
  The two server processes from \<^verbatim>\<open>main\<close> to exit. \<^verbatim>\<open>cmd/chainbind-api\<close> serves until a signal
  (\<^verbatim>\<open>serveUntilSignal\<close>): the listening goroutine, the channel it reports on, the requests in
  flight and the shutdown are a step relation over one state. \<^verbatim>\<open>cmd/mock-authority\<close> listens
  until its listener fails.
\<close>

section \<open>The constants and the end of \<^verbatim>\<open>main\<close>\<close>

text \<open>Durations are in nanoseconds.\<close>

definition startupTimeout :: int where
  "startupTimeout = 10 * 10 ^ 9"

definition readHeaderTimeout :: int where
  "readHeaderTimeout = 5 * 10 ^ 9"

definition shutdownGrace :: int where
  "shutdownGrace = 10 * 10 ^ 9"

text \<open>\<^verbatim>\<open>http.ErrServerClosed\<close>, and the error of a context whose deadline has passed.\<close>

definition ErrServerClosed :: err where
  "ErrServerClosed = LibErr ''http: Server closed''"

definition DeadlineExceeded :: err where
  "DeadlineExceeded = LibErr ''context deadline exceeded''"

text \<open>What \<^verbatim>\<open>main\<close> logs last and exits with, given what \<^verbatim>\<open>run\<close> returned.\<close>

definition main_end :: "err option \<Rightarrow> string list \<times> int" where
  "main_end r = (case r of Some e \<Rightarrow> ([''chainbind-api: exiting''], 1) | None \<Rightarrow> ([], 0))"

section \<open>Serving until a signal\<close>

text \<open>
  The goroutine is in \<^verbatim>\<open>ListenAndServe\<close>, holds the value it sends, or has ended; the main
  goroutine is in the \<^verbatim>\<open>select\<close>, in \<^verbatim>\<open>Shutdown\<close> with a deadline, at the last receive, or has
  returned.
\<close>

datatype serving = Listening | Sending "err option" | Ended

datatype main_at = Selecting | Draining int | Receiving | Returned "err option"

record life =
  lf_clock :: int
  lf_signalled :: bool
  lf_closing :: bool
  lf_serving :: serving
  lf_chan :: "err option list"
  lf_main :: main_at
  lf_accepted :: "request list"
  lf_pending :: "request list"
  lf_answered :: "(request \<times> response) list"
  lf_world :: world
  lf_log :: "string list"

definition life0 :: "int \<Rightarrow> world \<Rightarrow> life" where
  "life0 now w =
     \<lparr> lf_clock = now, lf_signalled = False, lf_closing = False, lf_serving = Listening, lf_chan = [],
       lf_main = Selecting, lf_accepted = [], lf_pending = [], lf_answered = [], lf_world = w,
       lf_log = [''chainbind-api: listening''] \<rparr>"

definition running :: "life \<Rightarrow> bool" where
  "running L \<longleftrightarrow> (\<forall>r. lf_main L \<noteq> Returned r)"

text \<open>What the goroutine sends for the error that \<^verbatim>\<open>ListenAndServe\<close> returned.\<close>

definition serve_result :: "err \<Rightarrow> err option" where
  "serve_result e = (if e \<noteq> ErrServerClosed then Some e else None)"

text \<open>
  \<open>handles rq w rs w'\<close>: the handler may answer \<open>rq\<close> with \<open>rs\<close>, taking the world from \<open>w\<close> to
  \<open>w'\<close>; requests are answered one at a time, in any order. \<open>lag\<close> bounds how long after its deadline
  \<^verbatim>\<open>Shutdown\<close> returns. \<^verbatim>\<open>ListenAndServe\<close> returns \<^verbatim>\<open>ErrServerClosed\<close> only once the server is
  closing, and any other error at any time; \<^verbatim>\<open>Shutdown\<close> returns when no request is in flight,
  with the error of closing the listeners, or when its deadline has passed. A \<^verbatim>\<open>select\<close> with
  both cases ready takes either.
\<close>

inductive lstep ::
  "(request \<Rightarrow> world \<Rightarrow> response \<Rightarrow> world \<Rightarrow> bool) \<Rightarrow> int \<Rightarrow> life \<Rightarrow> life \<Rightarrow> bool"
  for handles :: "request \<Rightarrow> world \<Rightarrow> response \<Rightarrow> world \<Rightarrow> bool" and lag :: int where
  tick: "running L \<Longrightarrow> 0 \<le> d \<Longrightarrow> (\<forall>t. lf_main L = Draining t \<longrightarrow> lf_clock L + d \<le> t + lag) \<Longrightarrow>
     lstep handles lag L (L\<lparr>lf_clock := lf_clock L + d\<rparr>)"
| signal: "running L \<Longrightarrow> lstep handles lag L (L\<lparr>lf_signalled := True\<rparr>)"
| accept: "running L \<Longrightarrow> lf_serving L = Listening \<Longrightarrow> \<not> lf_closing L \<Longrightarrow>
     lstep handles lag L (L\<lparr>lf_accepted := lf_accepted L @ [rq], lf_pending := lf_pending L @ [rq]\<rparr>)"
| answer: "running L \<Longrightarrow> lf_pending L = as @ rq # bs \<Longrightarrow> handles rq (lf_world L) rs w \<Longrightarrow>
     lstep handles lag L (L\<lparr>lf_pending := as @ bs, lf_answered := lf_answered L @ [(rq, rs)], lf_world := w\<rparr>)"
| serve_returns: "running L \<Longrightarrow> lf_serving L = Listening \<Longrightarrow> (e = ErrServerClosed \<longrightarrow> lf_closing L) \<Longrightarrow>
     lstep handles lag L (L\<lparr>lf_serving := Sending (serve_result e)\<rparr>)"
| send: "running L \<Longrightarrow> lf_serving L = Sending r \<Longrightarrow> length (lf_chan L) < 1 \<Longrightarrow>
     lstep handles lag L (L\<lparr>lf_serving := Ended, lf_chan := lf_chan L @ [r]\<rparr>)"
| select_err: "lf_main L = Selecting \<Longrightarrow> lf_chan L = r # rest \<Longrightarrow>
     lstep handles lag L (L\<lparr>lf_chan := rest, lf_main := Returned r\<rparr>)"
| select_signal: "lf_main L = Selecting \<Longrightarrow> lf_signalled L \<Longrightarrow>
     lstep handles lag L (L\<lparr>lf_main := Draining (lf_clock L + shutdownGrace), lf_closing := True,
       lf_log := lf_log L @ [''chainbind-api: shutting down'']\<rparr>)"
| drained: "lf_main L = Draining t \<Longrightarrow> lf_pending L = [] \<Longrightarrow>
     lstep handles lag L (L\<lparr>lf_main := (case closed of Some e \<Rightarrow> Returned (Some e) | None \<Rightarrow> Receiving)\<rparr>)"
| expired: "lf_main L = Draining t \<Longrightarrow> t \<le> lf_clock L \<Longrightarrow>
     lstep handles lag L (L\<lparr>lf_main := Returned (Some DeadlineExceeded)\<rparr>)"
| receive: "lf_main L = Receiving \<Longrightarrow> lf_chan L = r # rest \<Longrightarrow>
     lstep handles lag L (L\<lparr>lf_chan := rest, lf_main := Returned r\<rparr>)"

inductive_cases lstepE: "lstep handles lag L L'"

section \<open>The invariant\<close>

text \<open>
  A server that closes has been signalled, a nil error is only ever sent by a server that
  closes, main waits for a value only if one is or will be sent, and every accepted request
  is in flight or answered.
\<close>

definition life_ok :: "life \<Rightarrow> bool" where
  "life_ok L \<longleftrightarrow>
     (lf_closing L \<longrightarrow> lf_signalled L) \<and>
     (lf_main L = Selecting \<longrightarrow> \<not> lf_closing L) \<and>
     (\<forall>t. lf_main L = Draining t \<longrightarrow> lf_closing L) \<and>
     (lf_main L = Receiving \<longrightarrow> lf_closing L \<and> lf_pending L = []) \<and>
     (lf_main L = Returned None \<longrightarrow> lf_closing L \<and> lf_pending L = []) \<and>
     (lf_serving L = Sending None \<or> None \<in> set (lf_chan L) \<longrightarrow> lf_closing L) \<and>
     (running L \<longrightarrow> (lf_chan L = [] \<longleftrightarrow> lf_serving L \<noteq> Ended)) \<and>
     mset (lf_accepted L) = mset (lf_pending L) + mset (map fst (lf_answered L))"

lemma running_simps [simp]:
  "lf_main L = Selecting \<Longrightarrow> running L" "lf_main L = Draining t \<Longrightarrow> running L"
  "lf_main L = Receiving \<Longrightarrow> running L" "lf_main L = Returned r \<Longrightarrow> \<not> running L"
  by (simp_all add: running_def)

lemma running_cong: "lf_main L' = lf_main L \<Longrightarrow> running L' \<longleftrightarrow> running L"
  by (simp add: running_def)

lemma life_ok_start: "life_ok (life0 now w)"
  by (simp add: life_ok_def life0_def)

lemma no_None: "None \<noteq> r \<longleftrightarrow> (\<exists>e. r = Some e)"
  by (cases r) auto

lemma life_ok_step:
  assumes "lstep handles lag L L'" "life_ok L"
  shows "life_ok L'"
  using assms
  by (cases rule: lstep.cases)
    (auto simp: life_ok_def serve_result_def running_def no_None split: option.splits if_splits)

lemma life_ok_reachable: "(lstep handles lag)\<^sup>*\<^sup>* L L' \<Longrightarrow> life_ok L \<Longrightarrow> life_ok L'"
  by (induction rule: rtranclp_induct) (auto intro: life_ok_step)

text \<open>A shutdown ends within its grace period, up to the lag.\<close>

definition timely :: "int \<Rightarrow> life \<Rightarrow> bool" where
  "timely lag L \<longleftrightarrow>
     (\<forall>t. lf_main L = Draining t \<longrightarrow> lf_clock L \<le> t + lag \<and> t \<le> lf_clock L + shutdownGrace)"

lemma timely_start: "timely lag (life0 now w)"
  by (simp add: timely_def life0_def)

lemma timely_step: "lstep handles lag L L' \<Longrightarrow> timely lag L \<Longrightarrow> 0 \<le> lag \<Longrightarrow> timely lag L'"
  by (erule lstep.cases) (auto simp: timely_def shutdownGrace_def split: option.splits)

lemma timely_reachable:
  "(lstep handles lag)\<^sup>*\<^sup>* L L' \<Longrightarrow> timely lag L \<Longrightarrow> 0 \<le> lag \<Longrightarrow> timely lag L'"
  by (induction rule: rtranclp_induct) (auto intro: timely_step)

text \<open>Once main has returned nothing happens; once it drains its deadline stands.\<close>

lemma returned_final: "lf_main L = Returned r \<Longrightarrow> \<not> lstep handles lag L L'"
  by (auto elim!: lstepE)

lemma draining_step:
  "lstep handles lag L L' \<Longrightarrow> lf_main L \<in> {Draining t, Receiving} \<union> range Returned \<Longrightarrow>
     lf_main L' \<in> {Draining t, Receiving} \<union> range Returned"
  by (erule lstep.cases) (auto split: option.splits)

lemma draining_reachable:
  assumes "(lstep handles lag)\<^sup>*\<^sup>* L L'" "lf_main L = Draining t"
  shows "lf_main L' \<in> {Draining t, Receiving} \<union> range Returned"
  using assms(1)
  by (induction rule: rtranclp_induct) (use assms(2) in \<open>auto dest: draining_step\<close>)

section \<open>The end of the process\<close>

text \<open>
  From any state a signal has been seen in, the process can end by itself: no request has to
  be answered for it, and no more than the grace period has to pass.
\<close>

definition ends_within :: "(request \<Rightarrow> world \<Rightarrow> response \<Rightarrow> world \<Rightarrow> bool) \<Rightarrow> int \<Rightarrow> life \<Rightarrow> int \<Rightarrow> bool" where
  "ends_within handles lag L d \<longleftrightarrow>
     (\<exists>L' r. (lstep handles lag)\<^sup>*\<^sup>* L L' \<and> lf_main L' = Returned r \<and>
        lf_answered L' = lf_answered L \<and> lf_clock L' \<le> lf_clock L + d)"

lemma ends_within_step:
  assumes "lstep handles lag L K" "ends_within handles lag K d'" "lf_answered K = lf_answered L"
    "lf_clock K + d' \<le> lf_clock L + d"
  shows "ends_within handles lag L d"
proof -
  from assms(2) obtain L' r where "(lstep handles lag)\<^sup>*\<^sup>* K L'" "lf_main L' = Returned r"
    "lf_answered L' = lf_answered K" "lf_clock L' \<le> lf_clock K + d'" unfolding ends_within_def by blast
  with assms(1,3,4) show ?thesis
    unfolding ends_within_def by (intro exI [of _ L'] exI [of _ r]) (auto intro: converse_rtranclp_into_rtranclp)
qed

lemma ends_within_returned: "lf_main L = Returned r \<Longrightarrow> ends_within handles lag L 0"
  unfolding ends_within_def by (intro exI [of _ L]) simp

lemma receiving_ends:
  assumes "life_ok L" "lf_main L = Receiving"
  shows "ends_within handles lag L 0"
proof -
  have receive: "ends_within handles lag K 0" if "lf_main K = Receiving" "lf_chan K = r # rest" for K r rest
    by (rule ends_within_step [OF lstep.receive [OF that] ends_within_returned]) simp_all
  have send: "ends_within handles lag K 0"
    if "lf_main K = Receiving" "lf_serving K = Sending r" "lf_chan K = []" for K r
    by (rule ends_within_step [OF lstep.send [OF _ that(2)] receive [of _ r "[]"]]) (simp_all add: that)
  show ?thesis
  proof (cases "lf_serving L")
    case Ended
    with assms receive [of L] show ?thesis by (auto simp: life_ok_def neq_Nil_conv)
  next
    case (Sending r)
    with assms send [of L] show ?thesis by (auto simp: life_ok_def)
  next
    case Listening
    with assms have l: "running L" "lf_closing L" "lf_chan L = []" by (auto simp: life_ok_def)
    show ?thesis
      by (rule ends_within_step [OF lstep.serve_returns [OF l(1) Listening, of ErrServerClosed]
            send [of _ "serve_result ErrServerClosed"]]) (simp_all add: l assms)
  qed
qed

lemma draining_ends:
  assumes "timely lag L" "0 \<le> lag" "lf_main L = Draining t"
  shows "ends_within handles lag L shutdownGrace"
proof -
  let ?d = "max 0 (t - lf_clock L)"
  let ?K = "L\<lparr>lf_clock := lf_clock L + ?d\<rparr>"
  have tick: "lstep handles lag L ?K" using assms by (intro lstep.tick) (auto simp: timely_def)
  have "?d \<le> shutdownGrace" using assms(1,3) by (auto simp: timely_def shutdownGrace_def)
  moreover have "ends_within handles lag ?K 0"
    by (rule ends_within_step [OF lstep.expired [of ?K t] ends_within_returned]) (simp_all add: assms(3))
  ultimately show ?thesis using ends_within_step [OF tick, of 0 shutdownGrace] by simp
qed

lemma signalled_ends:
  assumes "life_ok L" "timely lag L" "0 \<le> lag" "lf_signalled L" "running L"
  shows "ends_within handles lag L shutdownGrace"
proof (cases "lf_main L")
  case Selecting
  let ?K = "L\<lparr>lf_main := Draining (lf_clock L + shutdownGrace), lf_closing := True,
       lf_log := lf_log L @ [''chainbind-api: shutting down'']\<rparr>"
  have "timely lag ?K" using assms(3) by (simp add: timely_def shutdownGrace_def)
  then have "ends_within handles lag ?K shutdownGrace" using assms(3) by (rule draining_ends) simp
  from ends_within_step [OF lstep.select_signal [OF Selecting assms(4)] this] show ?thesis by simp
next
  case (Draining t)
  then show ?thesis using draining_ends [OF assms(2,3)] by blast
next
  case Receiving
  have "ends_within handles lag L 0" using assms(1) Receiving by (rule receiving_ends)
  then show ?thesis unfolding ends_within_def shutdownGrace_def by force
next
  case (Returned r)
  with assms(5) show ?thesis by simp
qed

section \<open>The processes\<close>

text \<open>
  A deployed handler at some moment: the authorizer's answers and the clock are whatever they
  are then.
\<close>

definition api_handles ::
  "prims \<Rightarrow> read_lib \<Rightarrow> 'set server \<Rightarrow> request \<Rightarrow> world \<Rightarrow> response \<Rightarrow> world \<Rightarrow> bool" where
  "api_handles P R sv rq w rs w' \<longleftrightarrow>
     (\<exists>authz now. NewHandler P R (server_config P sv authz) now rq w = (rs, w'))"

text \<open>
  \<^verbatim>\<open>chainbind-api\<close>: the lines it logs and the code it exits with, if it exits.
\<close>

inductive api_main ::
  "prims \<Rightarrow> read_lib \<Rightarrow> 'set startup \<Rightarrow> int \<Rightarrow> int \<Rightarrow> world \<Rightarrow> string list \<Rightarrow> int \<Rightarrow> life option \<Rightarrow> bool"
  for P :: prims and R :: read_lib and st :: "'set startup" and lag :: int and now :: int and w :: world where
  not_started: "api_run st = Inl e \<Longrightarrow> main_end (Some e) = (log, code) \<Longrightarrow>
     loaded = (case Load (st_env st) of Inl e \<Rightarrow> [] | Inr cfg \<Rightarrow> [''chainbind-api: configuration loaded'']) \<Longrightarrow>
     api_main P R st lag now w (loaded @ log) code None"
| served: "api_run st = Inr sv \<Longrightarrow> (lstep (api_handles P R sv) lag)\<^sup>*\<^sup>* (life0 now w) L \<Longrightarrow>
     lf_main L = Returned r \<Longrightarrow> main_end r = (log, code) \<Longrightarrow>
     api_main P R st lag now w (''chainbind-api: configuration loaded'' # lf_log L @ log) code (Some L)"

inductive_cases api_mainE: "api_main P R st lag now w logged code served"

lemma api_exit_0:
  assumes "api_main P R st lag now w logged 0 served"
  obtains sv L where "served = Some L" "api_run st = Inr sv" "lf_signalled L" "lf_pending L = []"
    "mset (map fst (lf_answered L)) = mset (lf_accepted L)" "lf_main L = Returned None"
  using assms
proof (cases rule: api_main.cases)
  case (not_started e log loaded)
  then show thesis by (simp add: main_end_def)
next
  case (served sv L r log)
  then have "r = None" by (cases r) (simp_all add: main_end_def)
  with served that [of L sv] life_ok_reachable [OF served(4) life_ok_start] show thesis
    by (auto simp: life_ok_def)
qed

text \<open>
  \<^verbatim>\<open>mock-authority\<close>: \<open>dirs\<close> reads a directory, \<open>listened\<close> is the error \<^verbatim>\<open>ListenAndServe\<close> returned,
  which is never nil.
\<close>

definition defaultAddr :: string where
  "defaultAddr = '':9000''"

definition defaultSeedDir :: string where
  "defaultSeedDir = ''/seed''"

record authority_process =
  ap_addr :: string
  ap_server :: mock_server

definition authority_start ::
  "(string \<Rightarrow> string) \<Rightarrow> float_lib \<Rightarrow> (mock_constraints \<Rightarrow> (string \<times> mock_rule) list) \<Rightarrow> (bytes \<Rightarrow> seed_doc res) \<Rightarrow>
     (string \<Rightarrow> dir_entry list res) \<Rightarrow> authority_process res" where
  "authority_start getenv F order decode dirs =
     (let addr = envOr getenv ''AUTHORITY_ADDR'' defaultAddr;
          seedDir = envOr getenv ''AUTHORITY_SEED_DIR'' defaultSeedDir in
      case mock_New decode (dirs seedDir) of
        Inl e \<Rightarrow> Inl e
      | Inr auths \<Rightarrow> Inr \<lparr> ap_addr = addr, ap_server = \<lparr> sv_floats = F, sv_order = order, sv_auths = auths \<rparr> \<rparr>)"

definition authority_main ::
  "authority_process res \<Rightarrow> err option \<Rightarrow> string list \<times> int" where
  "authority_main start listened =
     (case start of
        Inl e \<Rightarrow> ([''mock-authority: load seed dir''], 1)
      | Inr proc \<Rightarrow>
          (let log = [''mock-authority: seed loaded'', ''mock-authority: listening''] in
           case listened of
             Some e \<Rightarrow> (log @ [''mock-authority: server stopped''], 1)
           | None \<Rightarrow> (log, 0)))"

text \<open>The authority only ever serves the seeds of a directory that loads, and never ends well.\<close>

lemma authority_main_code: "listened \<noteq> None \<Longrightarrow> snd (authority_main start listened) = 1"
  by (auto simp: authority_main_def Let_def split: sum.split)

lemma authority_start_seeds:
  assumes "authority_start getenv F order decode dirs = Inr proc"
  shows "mock_New decode (dirs (envOr getenv ''AUTHORITY_SEED_DIR'' defaultSeedDir)) = Inr (sv_auths (ap_server proc))"
    "ap_addr proc = envOr getenv ''AUTHORITY_ADDR'' defaultAddr"
  using assms by (auto simp: authority_start_def Let_def split: sum.splits)

end
