(* ===== verification/Access.thy ===== *)
theory Access
  imports Shell_Api Keycloak Server_Life
begin

text \<open>
  The two interfaces the HTTP shell declares itself, \<^verbatim>\<open>Authorizer\<close> of \<^verbatim>\<open>auth.go\<close> and \<^verbatim>\<open>Prober\<close>
  of \<^verbatim>\<open>ready.go\<close>, each a locale that is interpreted on the adapters \<^verbatim>\<open>run\<close> wires in; and the
  deployed server as one system, the serving process together with the key cache its requests
  share.
\<close>

section \<open>The authorizer\<close>

text \<open>
  \<open>answers p s bearer r\<close>: in the state \<open>s\<close>, \<^verbatim>\<open>Authorize\<close> may return \<open>r\<close> for the bearer. Nil is for
  who is admitted, and every error is one of the two sentinels the shell tells apart.
\<close>

locale authorizing_port =
  fixes answers :: "'p \<Rightarrow> 's \<Rightarrow> string \<Rightarrow> err option \<Rightarrow> bool"
    and admitted :: "'p \<Rightarrow> 's \<Rightarrow> string \<Rightarrow> bool"
  assumes nil_admitted: "answers p s bearer None \<Longrightarrow> admitted p s bearer"
    and one_sentinel: "answers p s bearer (Some e) \<Longrightarrow> err_is e ErrUnauthorized \<noteq> err_is e ErrForbidden"
begin

lemma require_refused:
  assumes "answers p s (bearerToken rq) (authz (bearerToken rq))" "\<not> admitted p s (bearerToken rq)"
  obtains e where "authz (bearerToken rq) = Some e"
    "err_is e ErrForbidden \<Longrightarrow> requireIssuerAdmin authz nxt rq w =
       (writeProblem 403 typeForbidden ''forbidden'' ''missing required role'', w)"
    "err_is e ErrUnauthorized \<Longrightarrow> requireIssuerAdmin authz nxt rq w =
       (writeProblem 401 typeUnauthorized ''unauthorized'' ''missing or invalid bearer token'', w)"
proof -
  obtain e where e: "authz (bearerToken rq) = Some e" using assms nil_admitted by fastforce
  have "err_is e ErrUnauthorized \<noteq> err_is e ErrForbidden" using assms(1) one_sentinel by (simp add: e)
  with e that show thesis by (simp add: requireIssuerAdmin_def)
qed

lemma effect_admitted:
  assumes "NewHandler P R cfg now rq w = (rs, w')" "\<not> asked_only w w'"
    and "answers p s (bearerToken rq) (hc_Authorizer cfg (bearerToken rq))"
  shows "seal_target rq \<and> admitted p s (bearerToken rq)"
  using effect_authorized [OF assms(1,2)] assms(3) nil_admitted by simp

end

text \<open>
  \<^verbatim>\<open>keycloak.Provider\<close> over the shared cache: the key set a call gets is one the cache serves or
  one it fetched itself.
\<close>

definition keycloak_answers :: "'set provider \<Rightarrow> 'set shared \<Rightarrow> string \<Rightarrow> err option \<Rightarrow> bool" where
  "keycloak_answers p g bearer r \<longleftrightarrow>
     (\<exists>now fetch later c. fst (Authorize p now fetch later bearer c) = r \<and>
        (\<forall>ks. fst (keySet p now fetch later c) = Inr ks \<longrightarrow> serves_set p g ks))"

definition keycloak_admitted :: "'set provider \<Rightarrow> 'set shared \<Rightarrow> string \<Rightarrow> bool" where
  "keycloak_admitted p g bearer \<longleftrightarrow> (\<exists>ks. serves_set p g ks \<and> admits p ks bearer)"

interpretation keycloak: authorizing_port keycloak_answers keycloak_admitted
proof unfold_locales
  fix p :: "'a provider" and g bearer
  assume "keycloak_answers p g bearer None"
  then show "keycloak_admitted p g bearer"
    unfolding keycloak_answers_def keycloak_admitted_def by (auto simp: Authorize_None)
next
  fix p :: "'a provider" and g bearer e
  assume "keycloak_answers p g bearer (Some e)"
  then show "err_is e ErrUnauthorized \<noteq> err_is e ErrForbidden"
    unfolding keycloak_answers_def using Authorize_errors(1) by blast
qed

section \<open>The probers\<close>

locale probing_port =
  fixes ping :: "'s \<Rightarrow> err option"
    and reached :: "'s \<Rightarrow> bool"
  assumes nil_reached: "ping s = None \<Longrightarrow> reached s"
begin

definition named :: "string \<times> 's \<Rightarrow> namedProber" where
  "named = (\<lambda>(name, s). \<lparr> np_name = name, np_Ping = ping s \<rparr>)"

lemma ready_reached:
  "rs_status (fst (readyHandler (map named ps) rq w)) = 200 \<Longrightarrow> (name, s) \<in> set ps \<Longrightarrow> reached s"
  by (induction ps arbitrary: w)
    (auto simp: named_def writeProblem_def nil_reached Let_def split: option.splits)

lemma ready_first:
  "ping s = Some e \<Longrightarrow> (\<forall>q \<in> set ps. ping (snd q) = None) \<Longrightarrow>
     fst (readyHandler (map named (ps @ (name, s) # qs)) rq w) = writeProblem 503 typeServiceNotReady ''not ready'' name"
  by (induction ps arbitrary: w) (auto simp: named_def Let_def)

text \<open>Each prober up to the first that fails is pinged, once and in order.\<close>

lemma ready_pings:
  "snd (readyHandler (map named ps) rq w) =
     w\<lparr>trace := trace w @ map (EvPing \<circ> fst) (takeWhile (\<lambda>q. ping (snd q) = None) ps
        @ take 1 (dropWhile (\<lambda>q. ping (snd q) = None) ps))\<rparr>"
  by (induction ps arbitrary: w) (auto simp: named_def Let_def emit_def split: option.split)

end

text \<open>
  The two probers \<^verbatim>\<open>run\<close> wires in, each reached when its one GET request was answered with a 2xx
  response.
\<close>

definition probe_ping :: "vault_signer + http_verifier \<Rightarrow> err option" where
  "probe_ping s = (case s of Inl v \<Rightarrow> vault_Ping v | Inr a \<Rightarrow> intent_Ping a)"

definition probe_reached :: "vault_signer + http_verifier \<Rightarrow> bool" where
  "probe_reached s \<longleftrightarrow>
     (\<exists>rs. status_2xx rs \<and>
        (case s of
           Inl v \<Rightarrow> cl_do (vs_client v) (keys_request v) = Inr rs
         | Inr a \<Rightarrow> cl_do (hv_client a) (health_request a) = Inr rs))"

lemma vault_Ping_reached: "vault_Ping v = None \<Longrightarrow> probe_reached (Inl v)"
  by (auto simp: vault_Ping_def fetchKeyMetadata_def vault_doJSON_def do_json_def do_request_def Let_def
      probe_reached_def split: sum.splits option.splits if_splits)

interpretation wired: probing_port probe_ping probe_reached
proof unfold_locales
  fix s :: "vault_signer + http_verifier"
  assume "probe_ping s = None"
  then show "probe_reached s"
    using vault_Ping_reached by (cases s) (auto simp: probe_ping_def probe_reached_def intent_Ping_None)
qed

lemma deployed_ready:
  "ready_target rq \<Longrightarrow> NewHandler P R (server_config P sv authz) now rq =
    readyHandler (map wired.named [(''vault'', Inl (sv_signer sv)), (''intent-authority'', Inr (sv_intent sv))]) rq"
  by (simp add: NewHandler_ready wired.named_def probe_ping_def server_config_def)

section \<open>The deployed server\<close>

text \<open>
  A system is the serving process, the key cache, and what \<^verbatim>\<open>Authorize\<close> has answered for the
  requests in flight and when, on one clock. \<^verbatim>\<open>requireIssuerAdmin\<close> decides before the body is
  read and the authority, the wrapper and Vault are called, and nothing bounds how long the body
  takes to arrive: so a request is decided in one step, with an answer \<open>keycloak\<close> gives while the
  cache is as it is, and answered in a later one, any time and any other steps after. The moment
  of a decision is that at which its key set is taken; a request is decided once.
\<close>

record 'set system =
  sy_life :: life
  sy_keys :: "'set shared"
  sy_decided :: "(request \<times> err option \<times> int) list"

text \<open>The handler of a request that was decided with \<open>r\<close>, and those of the routes that nobody decides.\<close>

definition decided_handles ::
  "prims \<Rightarrow> read_lib \<Rightarrow> 'set server \<Rightarrow> request \<Rightarrow> err option \<Rightarrow> request \<Rightarrow> world \<Rightarrow> response \<Rightarrow> world \<Rightarrow> bool" where
  "decided_handles P R sv rq r rq' w rs w' \<longleftrightarrow>
     rq' = rq \<and> (\<exists>now. NewHandler P R (server_config P sv (\<lambda>bearer. r)) now rq w = (rs, w'))"

definition open_handles ::
  "prims \<Rightarrow> read_lib \<Rightarrow> 'set server \<Rightarrow> request \<Rightarrow> world \<Rightarrow> response \<Rightarrow> world \<Rightarrow> bool" where
  "open_handles P R sv rq w rs w' \<longleftrightarrow> \<not> seal_target rq \<and> api_handles P R sv rq w rs w'"

definition undecided :: "'set system \<Rightarrow> request \<Rightarrow> bool" where
  "undecided S rq \<longleftrightarrow>
     count (mset (map fst (sy_decided S))) rq < count (mset (lf_pending (sy_life S))) rq"

inductive sstep ::
  "prims \<Rightarrow> read_lib \<Rightarrow> 'set server \<Rightarrow> (int \<Rightarrow> 'set) \<Rightarrow> int \<Rightarrow> 'set system \<Rightarrow> 'set system \<Rightarrow> bool"
  for P :: prims and R :: read_lib and sv :: "'set server" and published :: "int \<Rightarrow> 'set" and lag :: int where
  decide: "running (sy_life S) \<Longrightarrow> seal_target rq \<Longrightarrow> undecided S rq \<Longrightarrow>
     keycloak_answers (fst (sv_authz sv)) (sy_keys S) (bearerToken rq) r \<Longrightarrow>
     sstep P R sv published lag S (S\<lparr>sy_decided := sy_decided S @ [(rq, r, lf_clock (sy_life S))]\<rparr>)"
| answer: "sy_decided S = as @ (rq, r, t) # bs \<Longrightarrow> lstep (decided_handles P R sv rq r) lag (sy_life S) L \<Longrightarrow>
     lf_answered L \<noteq> lf_answered (sy_life S) \<Longrightarrow>
     sstep P R sv published lag S (S\<lparr>sy_life := L, sy_decided := as @ bs\<rparr>)"
| process: "lstep (open_handles P R sv) lag (sy_life S) L \<Longrightarrow> lf_clock L = lf_clock (sy_life S) \<Longrightarrow>
     sstep P R sv published lag S (S\<lparr>sy_life := L\<rparr>)"
| cache: "kstep (fst (sv_authz sv)) published lag (sy_keys S) K \<Longrightarrow> sh_clock K = sh_clock (sy_keys S) \<Longrightarrow>
     sstep P R sv published lag S (S\<lparr>sy_keys := K\<rparr>)"
| time: "lstep (open_handles P R sv) lag (sy_life S) ((sy_life S)\<lparr>lf_clock := lf_clock (sy_life S) + d\<rparr>) \<Longrightarrow>
     kstep (fst (sv_authz sv)) published lag (sy_keys S) ((sy_keys S)\<lparr>sh_clock := sh_clock (sy_keys S) + d\<rparr>) \<Longrightarrow>
     0 \<le> d \<Longrightarrow>
     sstep P R sv published lag S
       (S\<lparr>sy_life := (sy_life S)\<lparr>lf_clock := lf_clock (sy_life S) + d\<rparr>,
          sy_keys := (sy_keys S)\<lparr>sh_clock := sh_clock (sy_keys S) + d\<rparr>\<rparr>)"

inductive_cases sstepE: "sstep P R sv published lag S S'"

definition system0 :: "'set server \<Rightarrow> int \<Rightarrow> world \<Rightarrow> 'set system" where
  "system0 sv now w =
     \<lparr> sy_life = life0 now w,
       sy_keys = \<lparr> sh_clock = now, sh_cache = snd (sv_authz sv), sh_request = (\<lambda>i. Idle) \<rparr>,
       sy_decided = [] \<rparr>"

text \<open>A run of the system is a run of its process and a run of its cache, on one clock.\<close>

lemma system_keys:
  "(sstep P R sv published lag)\<^sup>*\<^sup>* S S' \<Longrightarrow> (kstep (fst (sv_authz sv)) published lag)\<^sup>*\<^sup>* (sy_keys S) (sy_keys S')"
  by (induction rule: rtranclp_induct) (auto elim!: sstepE intro: rtranclp.rtrancl_into_rtrancl)

lemma system_api:
  "decided_handles P R sv rq r rq' w rs w' \<Longrightarrow> api_handles P R sv rq' w rs w'"
  "open_handles P R sv rq w rs w' \<Longrightarrow> api_handles P R sv rq w rs w'"
  unfolding decided_handles_def open_handles_def api_handles_def by blast+

lemma lstep_mono:
  "lstep h lag L L' \<Longrightarrow> (\<And>rq w rs w'. h rq w rs w' \<Longrightarrow> h' rq w rs w') \<Longrightarrow> lstep h' lag L L'"
  by (erule lstep.cases; hypsubst; rule lstep.intros; blast)

lemma system_life:
  "(sstep P R sv published lag)\<^sup>*\<^sup>* S S' \<Longrightarrow> (lstep (api_handles P R sv) lag)\<^sup>*\<^sup>* (sy_life S) (sy_life S')"
proof (induction rule: rtranclp_induct)
  case (step S' S'')
  then have "lstep (api_handles P R sv) lag (sy_life S') (sy_life S'') \<or> sy_life S'' = sy_life S'"
    by (auto elim!: sstepE dest: lstep_mono [OF _ system_api(1)] lstep_mono [OF _ system_api(2)])
  with step.IH show ?case by (auto intro: rtranclp.rtrancl_into_rtrancl)
qed simp

text \<open>What a step of the process leaves as it is, and what it does when it answers.\<close>

lemma lstep_answered:
  assumes "lstep h lag L L'" "lf_answered L' \<noteq> lf_answered L"
  obtains as rq bs rs where "lf_pending L = as @ rq # bs" "lf_pending L' = as @ bs"
    "h rq (lf_world L) rs (lf_world L')" "lf_answered L' = lf_answered L @ [(rq, rs)]" "lf_clock L' = lf_clock L"
  using assms by (cases rule: lstep.cases) auto

lemma lstep_world: "lstep h lag L L' \<Longrightarrow> lf_answered L' = lf_answered L \<Longrightarrow> lf_world L' = lf_world L"
  by (erule lstep.cases) auto

lemma lstep_pending:
  "lstep h lag L L' \<Longrightarrow> lf_answered L' = lf_answered L \<Longrightarrow> \<exists>rqs. lf_pending L' = lf_pending L @ rqs"
  by (erule lstep.cases) auto

lemma system_clock:
  "(sstep P R sv published lag)\<^sup>*\<^sup>* S S' \<Longrightarrow> lf_clock (sy_life S) = sh_clock (sy_keys S) \<Longrightarrow>
     lf_clock (sy_life S') = sh_clock (sy_keys S')"
  by (induction rule: rtranclp_induct) (auto elim!: sstepE elim: lstep_answered)

lemma started_provider:
  assumes "api_run st = Inr sv"
  shows "fst (sv_authz sv) =
    \<lparr> pr_jwksURL = st_env st ''CHAINBIND_KEYCLOAK_JWKS_URL'', pr_issuer = st_env st ''CHAINBIND_KEYCLOAK_ISSUER'',
      pr_audience = st_env st ''CHAINBIND_KEYCLOAK_AUDIENCE'', pr_cacheTTL = defaultCacheTTL,
      pr_fetchTimeout = defaultFetchTimeout, pr_parse = st_parse st \<rparr>"
    "ca_set (snd (sv_authz sv)) = None"
  using assms
  by (auto simp: api_run_def Let_def keycloak_New_def Load_cases config_of_def split: sum.splits if_splits)

section \<open>Who was let in, and under which keys\<close>

text \<open>
  A bearer that carries the role under keys which, at the moment \<open>ta\<close>, were published no longer
  ago than the cache, the fetch and the lag allow.
\<close>

definition admitted_at :: "'set provider \<Rightarrow> (int \<Rightarrow> 'set) \<Rightarrow> int \<Rightarrow> string \<Rightarrow> int \<Rightarrow> bool" where
  "admitted_at p published lag bearer ta \<longleftrightarrow>
     (\<exists>t. admits p (published t) bearer \<and> t \<le> ta \<and> ta \<le> t + pr_cacheTTL p + pr_fetchTimeout p + lag)"

text \<open>
  Only requests to seal are decided, each was decided in the past and, when it was let in, by such
  a bearer; and no more requests are decided than are in flight.
\<close>

definition decided_ok :: "'set provider \<Rightarrow> (int \<Rightarrow> 'set) \<Rightarrow> int \<Rightarrow> 'set system \<Rightarrow> bool" where
  "decided_ok p published lag S \<longleftrightarrow>
     (\<forall>(rq, r, ta) \<in> set (sy_decided S). seal_target rq \<and> ta \<le> lf_clock (sy_life S) \<and>
        (r = None \<longrightarrow> admitted_at p published lag (bearerToken rq) ta)) \<and>
     mset (map fst (sy_decided S)) \<subseteq># mset (lf_pending (sy_life S))"

lemma decide_admitted:
  assumes "(kstep p published lag)\<^sup>*\<^sup>* g0 g" "Keycloak.started g0" "0 \<le> lag" "0 \<le> pr_cacheTTL p"
    and "keycloak_answers p g bearer None"
  shows "admitted_at p published lag bearer (sh_clock g)"
proof -
  obtain ks where ks: "serves_set p g ks" "admits p ks bearer"
    using keycloak.nil_admitted [OF assms(5)] unfolding keycloak_admitted_def by blast
  from served_age [OF assms(1-4) ks(1)] ks(2) show ?thesis unfolding admitted_at_def by blast
qed

lemma decided_ok_decide:
  assumes "decided_ok p published lag S" "seal_target rq" "undecided S rq"
    and "r = None \<Longrightarrow> admitted_at p published lag (bearerToken rq) (lf_clock (sy_life S))"
  shows "decided_ok p published lag (S\<lparr>sy_decided := sy_decided S @ [(rq, r, lf_clock (sy_life S))]\<rparr>)"
proof -
  have sub: "mset (map fst (sy_decided S)) \<subseteq># mset (lf_pending (sy_life S))"
    using assms(1) by (simp add: decided_ok_def)
  have "add_mset rq (mset (map fst (sy_decided S))) \<subseteq># mset (lf_pending (sy_life S))"
    unfolding subseteq_mset_def
  proof
    fix x
    show "count (add_mset rq (mset (map fst (sy_decided S)))) x \<le> count (mset (lf_pending (sy_life S))) x"
      using mset_subset_eq_count [OF sub, of x] assms(3) by (auto simp: undecided_def)
  qed
  with assms show ?thesis by (simp add: decided_ok_def)
qed

lemma decided_ok_answer:
  assumes "decided_ok p published lag S" "sy_decided S = as @ (rq, r, t) # bs"
    and "lf_pending (sy_life S) = cs @ rq # ds" "lf_pending L = cs @ ds" "lf_clock L = lf_clock (sy_life S)"
  shows "decided_ok p published lag (S\<lparr>sy_life := L, sy_decided := as @ bs\<rparr>)"
  using assms by (auto simp: decided_ok_def)

lemma decided_ok_open:
  assumes "decided_ok p published lag S" "lf_pending (sy_life S) = cs @ rq # ds" "\<not> seal_target rq"
    and "lf_pending L = cs @ ds" "lf_clock L = lf_clock (sy_life S)"
  shows "decided_ok p published lag (S\<lparr>sy_life := L\<rparr>)"
proof -
  have "rq \<notin># mset (map fst (sy_decided S))" using assms(1,3) by (force simp: decided_ok_def)
  moreover have "mset (map fst (sy_decided S)) \<subseteq># add_mset rq (mset (cs @ ds))"
    using assms(1,2) by (simp add: decided_ok_def)
  ultimately have "mset (map fst (sy_decided S)) \<subseteq># mset (cs @ ds)"
    by (metis subset_eq_diff_conv add_mset_add_single diff_single_trivial)
  with assms show ?thesis by (simp add: decided_ok_def)
qed

lemma decided_ok_later:
  assumes "decided_ok p published lag S" "sy_decided S' = sy_decided S" "lf_clock (sy_life S) \<le> lf_clock (sy_life S')"
    and "lf_pending (sy_life S') = lf_pending (sy_life S) @ rqs"
  shows "decided_ok p published lag S'"
proof -
  have "mset (map fst (sy_decided S)) \<subseteq># mset (lf_pending (sy_life S')) "
    using assms(1) unfolding assms(4) by (simp add: decided_ok_def subset_mset.add_increasing2)
  with assms(1-3) show ?thesis unfolding decided_ok_def by fastforce
qed

lemma decided_ok_step:
  assumes "sstep P R sv published lag S S'" "decided_ok (fst (sv_authz sv)) published lag S"
    and "\<And>bearer. keycloak_answers (fst (sv_authz sv)) (sy_keys S) bearer None \<Longrightarrow>
       admitted_at (fst (sv_authz sv)) published lag bearer (lf_clock (sy_life S))"
  shows "decided_ok (fst (sv_authz sv)) published lag S'"
  using assms(1)
proof cases
  case (decide rq r)
  then show ?thesis using assms(2,3) by (auto intro!: decided_ok_decide)
next
  case (answer as rq r t bs L)
  obtain cs rq' ds rs where p: "lf_pending (sy_life S) = cs @ rq' # ds" "lf_pending L = cs @ ds"
    "decided_handles P R sv rq r rq' (lf_world (sy_life S)) rs (lf_world L)" "lf_clock L = lf_clock (sy_life S)"
    by (rule lstep_answered [OF answer(3,4)])
  from p(3) have "rq' = rq" by (simp add: decided_handles_def)
  with decided_ok_answer [OF assms(2) answer(2) _ p(2,4)] p(1) answer(1) show ?thesis by simp
next
  case (process L)
  show ?thesis
  proof (cases "lf_answered L = lf_answered (sy_life S)")
    case True
    then obtain rqs where "lf_pending L = lf_pending (sy_life S) @ rqs" using lstep_pending [OF process(2)] by blast
    with process(1,3) assms(2) show ?thesis by (auto intro: decided_ok_later)
  next
    case False
    obtain cs rq ds rs where p: "lf_pending (sy_life S) = cs @ rq # ds" "lf_pending L = cs @ ds"
      "open_handles P R sv rq (lf_world (sy_life S)) rs (lf_world L)" "lf_clock L = lf_clock (sy_life S)"
      by (rule lstep_answered [OF process(2) False])
    from p(3) have "\<not> seal_target rq" by (simp add: open_handles_def)
    from decided_ok_open [OF assms(2) p(1) this p(2,4)] process(1) show ?thesis by simp
  qed
next
  case (cache K)
  with assms(2) show ?thesis by (auto intro: decided_ok_later [where rqs = "[]"])
next
  case (time d)
  with assms(2) show ?thesis by (auto intro: decided_ok_later [where rqs = "[]"])
qed

lemma system_decided:
  assumes "api_run st = Inr sv" "(sstep P R sv published lag)\<^sup>*\<^sup>* (system0 sv now w) S" "0 \<le> lag"
  shows "decided_ok (fst (sv_authz sv)) published lag S"
  using assms(2)
proof (induction rule: rtranclp_induct)
  case base
  then show ?case by (simp add: decided_ok_def system0_def)
next
  case (step S S')
  have start: "Keycloak.started (sy_keys (system0 sv now w))"
    using started_provider(2) [OF assms(1)] by (simp add: system0_def started_def)
  have clock: "lf_clock (sy_life S) = sh_clock (sy_keys S)"
    using system_clock [OF step(1)] by (simp add: system0_def life0_def)
  have "0 \<le> pr_cacheTTL (fst (sv_authz sv))" by (simp add: started_provider [OF assms(1)] defaultCacheTTL_def)
  from decide_admitted [OF system_keys [OF step(1)] start assms(3) this] step(2,3) show ?case
    by (auto intro: decided_ok_step simp: clock)
qed

text \<open>
  Whatever the deployed server does to the world beyond asking, it does for a request to seal that
  was let in earlier, by a bearer that carried the role under keys which were recent then.
\<close>

lemma system_access:
  assumes "api_run st = Inr sv" "(sstep P R sv published lag)\<^sup>*\<^sup>* (system0 sv now w) S" "0 \<le> lag"
    and "sstep P R sv published lag S S'" "\<not> asked_only (lf_world (sy_life S)) (lf_world (sy_life S'))"
  obtains rq rs ta t tok where "lf_answered (sy_life S') = lf_answered (sy_life S) @ [(rq, rs)]" "seal_target rq"
    "(rq, None, ta) \<in> set (sy_decided S)" "ta \<le> lf_clock (sy_life S)"
    "st_parse st (published t) (st_env st ''CHAINBIND_KEYCLOAK_ISSUER'') (st_env st ''CHAINBIND_KEYCLOAK_AUDIENCE'')
       (bearerToken rq) = Inr tok" "hasRole tok RoleIssuerAdmin"
    "t \<le> ta" "ta \<le> t + defaultCacheTTL + defaultFetchTimeout + lag"
proof -
  let ?p = "fst (sv_authz sv)"
  have moved: "lf_world (sy_life S') \<noteq> lf_world (sy_life S)" using assms(5) asked_only_refl by metis
  obtain rq rs ta where h: "decided_handles P R sv rq None rq (lf_world (sy_life S)) rs (lf_world (sy_life S'))"
    and answered: "lf_answered (sy_life S') = lf_answered (sy_life S) @ [(rq, rs)]"
    and decided: "(rq, None, ta) \<in> set (sy_decided S)"
    using assms(4)
  proof cases
    case (answer as rq r t bs L)
    obtain rq' rs where a: "decided_handles P R sv rq r rq' (lf_world (sy_life S)) rs (lf_world L)"
      "lf_answered L = lf_answered (sy_life S) @ [(rq', rs)]" by (rule lstep_answered [OF answer(3,4)])
    then have "rq' = rq" by (simp add: decided_handles_def)
    with a have run: "decided_handles P R sv rq r rq (lf_world (sy_life S)) rs (lf_world L)"
      "lf_answered L = lf_answered (sy_life S) @ [(rq, rs)]" by simp_all
    then obtain moment where "NewHandler P R (server_config P sv (\<lambda>bearer. r)) moment rq (lf_world (sy_life S)) = (rs, lf_world L)"
      by (auto simp: decided_handles_def)
    from effect_authorized [OF this] assms(5) answer(1) have "r = None" by (simp add: server_config_def)
    with run answer(1,2) that show thesis by auto
  next
    case (process L)
    from moved process(1) have "lf_answered L \<noteq> lf_answered (sy_life S)" using lstep_world [OF process(2)] by auto
    from lstep_answered [OF process(2) this] obtain rq rs where
      "open_handles P R sv rq (lf_world (sy_life S)) rs (lf_world L)" by blast
    with assms(5) process(1) show thesis by (auto simp: open_handles_def api_handles_def dest: effect_authorized)
  qed (use moved in auto)
  from system_decided [OF assms(1-3)] decided have ok: "seal_target rq" "ta \<le> lf_clock (sy_life S)"
    "admitted_at ?p published lag (bearerToken rq) ta" by (auto simp: decided_ok_def)
  from ok(3) obtain t tok where "pr_parse ?p (published t) (pr_issuer ?p) (pr_audience ?p) (bearerToken rq) = Inr tok"
    "hasRole tok RoleIssuerAdmin" "t \<le> ta" "ta \<le> t + pr_cacheTTL ?p + pr_fetchTimeout ?p + lag"
    unfolding admitted_at_def admits_def by blast
  with ok(1,2) answered decided that show thesis by (simp add: started_provider [OF assms(1)])
qed

end
