(* ===== verification/Deadlines.thy ===== *)
theory Deadlines
  imports Server_Life
begin

text \<open>
  The time limits of the two HTTP clients (\<^verbatim>\<open>withDeadline\<close> of \<^verbatim>\<open>intent/http/verifier.go\<close> and
  \<^verbatim>\<open>signer/vault/signer.go\<close>): a network whose answers take time, contexts with a deadline, and
  every operation of the two adapters run in time. An operation sends at most one request, so
  it takes as long as the one answer it waits for; the locale \<open>single_request\<close> says so once.
\<close>

section \<open>Contexts and a network that takes time\<close>

text \<open>Times and timeouts are in nanoseconds. A context is the time it is done at, if any.\<close>

type_synonym due = "int option"

definition past :: "due \<Rightarrow> int \<Rightarrow> bool" where
  "past ctx t = (case ctx of None \<Rightarrow> False | Some d \<Rightarrow> d \<le> t)"

definition WithTimeout :: "due \<Rightarrow> int \<Rightarrow> int \<Rightarrow> due" where
  "WithTimeout ctx now timeout =
     (case ctx of None \<Rightarrow> Some (now + timeout) | Some d \<Rightarrow> Some (min d (now + timeout)))"

definition withDeadline :: "int \<Rightarrow> due \<Rightarrow> int \<Rightarrow> due" where
  "withDeadline timeout ctx now = (if timeout \<le> 0 then ctx else WithTimeout ctx now timeout)"

text \<open>Each adapter has its own method of that name.\<close>

definition vault_withDeadline :: "int \<Rightarrow> due \<Rightarrow> int \<Rightarrow> due" where
  "vault_withDeadline timeout ctx now = (if timeout \<le> 0 then ctx else WithTimeout ctx now timeout)"

lemma vault_withDeadline_same: "vault_withDeadline = withDeadline"
  by (simp add: fun_eq_iff vault_withDeadline_def withDeadline_def)

text \<open>
  What becomes of a request: nothing ever, an error after a delay, or the head of a response
  after a delay, with the body in chunks, each after a further delay.
\<close>

datatype outcome = Silent | Fails nat err | Answers nat nat string "(nat \<times> bytes) list"

type_synonym network = "int \<Rightarrow> request \<Rightarrow> outcome"

text \<open>The bytes of the body that can be read, and when the reading ends.\<close>

fun body_by :: "due \<Rightarrow> int \<Rightarrow> (nat \<times> bytes) list \<Rightarrow> int \<times> bytes" where
  "body_by ctx t [] = (t, [])"
| "body_by ctx t ((d, chunk) # chunks) =
     (if past ctx (t + int d) then (the ctx, [])
      else (case body_by ctx (t + int d) chunks of (t', body) \<Rightarrow> (t', chunk @ body)))"

text \<open>
  \<^verbatim>\<open>http.Client.Do\<close> under a context, with the body read to the end; \<open>None\<close> is a call that
  never returns. The JSON decoder may stop before the end of the body, so the times are upper
  bounds.
\<close>

definition do_at :: "due \<Rightarrow> int \<Rightarrow> outcome \<Rightarrow> (int \<times> response res) option" where
  "do_at ctx now out =
     (if past ctx now then Some (now, Inl DeadlineExceeded)
      else
     (case out of
        Silent \<Rightarrow> map_option (\<lambda>d. (d, Inl DeadlineExceeded)) ctx
      | Fails d e \<Rightarrow>
          if past ctx (now + int d) then Some (the ctx, Inl DeadlineExceeded) else Some (now + int d, Inl e)
      | Answers d status ctype chunks \<Rightarrow>
          if past ctx (now + int d) then Some (the ctx, Inl DeadlineExceeded)
          else (case body_by ctx (now + int d) chunks of
                  (t, body) \<Rightarrow> Some (t, Inr \<lparr> rs_status = status, rs_type = ctype, rs_body = body \<rparr>))))"

text \<open>
  An operation in time: \<open>sent\<close> is the request it sends, \<open>f\<close> what it returns given how its
  request is answered. Without a request it takes no time.
\<close>

definition in_time ::
  "due \<Rightarrow> network \<Rightarrow> int \<Rightarrow> request option \<Rightarrow> ((request \<Rightarrow> response res) \<Rightarrow> 'a) \<Rightarrow> (int \<times> 'a) option" where
  "in_time ctx net now sent f =
     (case sent of
        None \<Rightarrow> Some (now, f (\<lambda>rq. Inl DeadlineExceeded))
      | Some rq \<Rightarrow> map_option (\<lambda>(t, r). (t, f (\<lambda>_. r))) (do_at ctx now (net now rq)))"

section \<open>How long it takes\<close>

lemma past_Some [simp]: "past (Some d) t \<longleftrightarrow> d \<le> t" "\<not> past None t"
  by (simp_all add: past_def)

lemma body_by_bound: "\<not> past ctx t \<Longrightarrow> body_by ctx t chunks = (t', body) \<Longrightarrow> t \<le> t' \<and> (\<forall>d. ctx = Some d \<longrightarrow> t' \<le> d)"
proof (induction ctx t chunks arbitrary: body rule: body_by.induct)
  case (1 ctx t)
  then show ?case by (auto simp: past_def)
next
  case (2 ctx t d chunk chunks)
  show ?case
  proof (cases "past ctx (t + int d)")
    case True
    with 2 show ?thesis by (auto simp: past_def split: option.splits)
  next
    case False
    with 2 show ?thesis by (fastforce split: prod.splits)
  qed
qed

lemma do_at_bound:
  assumes "do_at ctx now out = Some (t, r)"
  shows "now \<le> t" "ctx = Some d \<Longrightarrow> t \<le> max now d"
  using assms body_by_bound [of ctx]
  by (fastforce simp: do_at_def past_def split: if_splits outcome.splits option.splits prod.splits)+

lemma do_at_total: "ctx = Some d \<Longrightarrow> \<exists>t r. do_at ctx now out = Some (t, r)"
  by (auto simp: do_at_def split: outcome.split prod.split)

lemma withDeadline_due:
  assumes "0 < timeout"
  obtains d where "withDeadline timeout ctx now = Some d" "d \<le> now + timeout"
  using assms by (cases ctx) (auto simp: withDeadline_def WithTimeout_def)

lemma in_time_bounded:
  assumes "0 < timeout"
  obtains t r where "in_time (withDeadline timeout ctx now) net now sent f = Some (t, r)" "now \<le> t" "t \<le> now + timeout"
proof (cases sent)
  case None
  with assms that show thesis by (simp add: in_time_def)
next
  case (Some rq)
  obtain d where d: "withDeadline timeout ctx now = Some d" "d \<le> now + timeout"
    using assms by (rule withDeadline_due)
  obtain t r where r: "do_at (Some d) now (net now rq) = Some (t, r)" using do_at_total by blast
  have "now \<le> t" "t \<le> max now d" using do_at_bound [OF r] by simp_all
  with d r Some assms that [of t "f (\<lambda>_. r)"] show thesis by (simp add: in_time_def)
qed

text \<open>Without a timeout and a deadline a silent peer is waited for forever.\<close>

lemma in_time_hangs:
  assumes "timeout \<le> 0" "sent = Some rq" "net now rq = Silent"
  shows "in_time (withDeadline timeout None now) net now sent f = None"
  using assms by (simp add: in_time_def withDeadline_def do_at_def)

text \<open>An answer is a response whose head came before the deadline.\<close>

lemma do_at_Inr:
  assumes "do_at ctx now out = Some (t, Inr rs)"
  obtains d chunks where "out = Answers d (rs_status rs) (rs_type rs) chunks" "\<not> past ctx (now + int d)"
    "body_by ctx (now + int d) chunks = (t, rs_body rs)"
  using assms by (auto simp: do_at_def split: if_splits outcome.splits option.splits prod.splits)

text \<open>Without a deadline in the way the body is all of its chunks.\<close>

lemma body_by_all:
  "\<not> past ctx (t + int (sum_list (map fst chunks))) \<Longrightarrow>
     body_by ctx t chunks = (t + int (sum_list (map fst chunks)), concat (map snd chunks))"
proof (induction chunks arbitrary: t)
  case (Cons c chunks)
  obtain d chunk where c: "c = (d, chunk)" by (cases c)
  have "\<not> past ctx (t + int d)" using Cons.prems by (auto simp: c past_def split: option.splits)
  with Cons.IH [of "t + int d"] Cons.prems show ?case by (simp add: c add.assoc)
qed simp

section \<open>Operations that send at most one request\<close>

text \<open>
  \<open>op v send\<close> is what the operation returns for the arguments \<open>v\<close> over a client that answers
  with \<open>send\<close>; only the answer to the one request it sends matters.
\<close>

locale single_request =
  fixes sent :: "'v \<Rightarrow> request option"
    and op :: "'v \<Rightarrow> (request \<Rightarrow> response res) \<Rightarrow> 'a"
  assumes same_answer: "(\<And>rq. sent v = Some rq \<Longrightarrow> send rq = send' rq) \<Longrightarrow> op v send = op v send'"
begin

lemma in_time_answered:
  assumes "sent v = Some rq" "do_at ctx now (net now rq) = Some (t, send rq)"
  shows "in_time ctx net now (sent v) (op v) = Some (t, op v send)"
  using assms same_answer [of v "\<lambda>_. send rq" send] by (simp add: in_time_def)

lemma in_time_unsent: "sent v = None \<Longrightarrow> in_time ctx net now (sent v) (op v) = Some (now, op v send)"
  using same_answer [of v "\<lambda>rq. Inl DeadlineExceeded" send] by (simp add: in_time_def)

lemma in_time_op:
  assumes "in_time ctx net now (sent v) (op v) = Some (t, r)"
  obtains "sent v = None" "t = now" "r = op v (\<lambda>rq. Inl DeadlineExceeded)"
  | rq a where "sent v = Some rq" "do_at ctx now (net now rq) = Some (t, a)" "r = op v (\<lambda>_. a)"
  using assms by (auto simp: in_time_def split: option.splits)

lemma in_time_run: "in_time ctx net now (sent v) (op v) = Some (t, r) \<Longrightarrow> \<exists>send. r = op v send"
  by (auto simp: in_time_def split: option.splits)

end

section \<open>The intent adapter\<close>

text \<open>\<open>dv_verifier\<close> has the base URL and the checks of URLs, \<open>dv_net\<close> is what its client reaches.\<close>

record deadline_verifier =
  dv_verifier :: http_verifier
  dv_timeout :: int
  dv_net :: network

definition dialled :: "client \<Rightarrow> (request \<Rightarrow> response res) \<Rightarrow> client" where
  "dialled C send = C\<lparr>cl_do := send\<rparr>"

definition verifier_over :: "http_verifier \<Rightarrow> (request \<Rightarrow> response res) \<Rightarrow> http_verifier" where
  "verifier_over v send = v\<lparr>hv_client := dialled (hv_client v) send\<rparr>"

definition built :: "client \<Rightarrow> request \<Rightarrow> request option" where
  "built C rq = (if cl_parse C (rq_target rq) = None then Some rq else None)"

definition check_sent :: "http_verifier \<times> string \<times> goval \<Rightarrow> request option" where
  "check_sent = (\<lambda>(v, ref, projection).
     case marshal (check_request_val projection) of
       Inl e \<Rightarrow> None | Inr body \<Rightarrow> built (hv_client v) (check_request v ref body))"

definition check_op :: "http_verifier \<times> string \<times> goval \<Rightarrow> (request \<Rightarrow> response res) \<Rightarrow> intent_decision res" where
  "check_op = (\<lambda>(v, ref, projection) send. intent_Check (verifier_over v send) ref projection)"

definition hash_sent :: "http_verifier \<times> string \<Rightarrow> request option" where
  "hash_sent = (\<lambda>(v, ref). built (hv_client v) (hash_request v ref))"

definition hash_op :: "http_verifier \<times> string \<Rightarrow> (request \<Rightarrow> response res) \<Rightarrow> string res" where
  "hash_op = (\<lambda>(v, ref) send. intent_ConstraintsHash (verifier_over v send) ref)"

definition health_sent :: "http_verifier \<Rightarrow> request option" where
  "health_sent v = built (hv_client v) (health_request v)"

definition health_op :: "http_verifier \<Rightarrow> (request \<Rightarrow> response res) \<Rightarrow> err option" where
  "health_op v send = intent_Ping (verifier_over v send)"

definition timed_Check ::
  "deadline_verifier \<Rightarrow> due \<Rightarrow> int \<Rightarrow> string \<Rightarrow> goval \<Rightarrow> (int \<times> intent_decision res) option" where
  "timed_Check d ctx now ref projection =
     (let ctx = withDeadline (dv_timeout d) ctx now; v = (dv_verifier d, ref, projection) in
      in_time ctx (dv_net d) now (check_sent v) (check_op v))"

definition timed_ConstraintsHash ::
  "deadline_verifier \<Rightarrow> due \<Rightarrow> int \<Rightarrow> string \<Rightarrow> (int \<times> string res) option" where
  "timed_ConstraintsHash d ctx now ref =
     (let ctx = withDeadline (dv_timeout d) ctx now; v = (dv_verifier d, ref) in
      in_time ctx (dv_net d) now (hash_sent v) (hash_op v))"

definition timed_intent_Ping :: "deadline_verifier \<Rightarrow> due \<Rightarrow> int \<Rightarrow> (int \<times> err option) option" where
  "timed_intent_Ping d ctx now =
     (let ctx = withDeadline (dv_timeout d) ctx now; v = dv_verifier d in
      in_time ctx (dv_net d) now (health_sent v) (health_op v))"

lemma over_simps [simp]:
  "check_request (verifier_over v send) = check_request v" "hash_request (verifier_over v send) = hash_request v"
  "health_request (verifier_over v send) = health_request v"
  "hv_client (verifier_over v send) = dialled (hv_client v) send"
  "cl_parse (dialled C send) = cl_parse C" "cl_do (dialled C send) = send"
  by (simp_all add: verifier_over_def check_request_def hash_request_def health_request_def dialled_def fun_eq_iff)

lemmas sent_request = intent_doJSON_def do_json_def do_request_def Let_def built_def

interpretation check_call: single_request check_sent check_op
  by unfold_locales
    (auto simp: check_sent_def check_op_def intent_Check_def sent_request split: option.splits if_splits sum.splits)

interpretation hash_call: single_request hash_sent hash_op
  by unfold_locales
    (auto simp: hash_sent_def hash_op_def intent_ConstraintsHash_def sent_request split: option.splits if_splits)

interpretation health_call: single_request health_sent health_op
  by unfold_locales
    (auto simp: health_sent_def health_op_def intent_Ping_def sent_request split: option.splits if_splits)

section \<open>What an operation in time returns\<close>

text \<open>The request was answered in time: its head came before the deadline.\<close>

definition in_good_time :: "due \<Rightarrow> int \<Rightarrow> outcome \<Rightarrow> bool" where
  "in_good_time ctx now out \<longleftrightarrow>
     (case out of Answers d status ctype chunks \<Rightarrow> \<not> past ctx now \<and> \<not> past ctx (now + int d) | _ \<Rightarrow> False)"

lemma do_at_late:
  assumes "do_at ctx now out = Some (t, a)" "\<not> in_good_time ctx now out"
  shows "\<exists>e. a = Inl e"
  using assms by (auto simp: do_at_def in_good_time_def split: if_splits outcome.splits option.splits prod.splits)

lemma do_at_answer:
  assumes "do_at ctx now out = Some (t, Inr rs)"
  obtains d chunks where "out = Answers d (rs_status rs) (rs_type rs) chunks" "in_good_time ctx now out"
  using assms by (auto simp: do_at_def in_good_time_def split: if_splits outcome.splits option.splits prod.splits)

lemma check_op_cases:
  assumes "check_sent (v, ref, projection) = Some rq"
  shows "check_op (v, ref, projection) (\<lambda>_. Inl e)
      = Inl (errorf ''http: check: '' (Joined (Sentinel ErrAuthorityUnreachable) '': '' e))"
    and "check_op (v, ref, projection) (\<lambda>_. Inr rs) = Inr dec \<Longrightarrow> status_2xx rs"
  using assms by (auto simp: check_sent_def check_op_def intent_Check_def sent_request split: sum.splits if_splits)

lemma check_op_unsent: "check_sent v = None \<Longrightarrow> \<exists>e. check_op v send = Inl e"
  by (auto simp: check_sent_def check_op_def intent_Check_def sent_request split: sum.splits if_splits prod.splits option.splits)

text \<open>
  A verdict in time is a 2xx response whose head came before the deadline; a request that was
  sent and not answered in time is an unreachable authority.
\<close>

lemma timed_Check_result:
  assumes "timed_Check d ctx now ref projection = Some (t, r)"
  defines "until \<equiv> withDeadline (dv_timeout d) ctx now" and "sent \<equiv> check_sent (dv_verifier d, ref, projection)"
  shows "r = Inr dec \<Longrightarrow> \<exists>rq delay status ctype chunks. sent = Some rq \<and>
      dv_net d now rq = Answers delay status ctype chunks \<and> 200 \<le> status \<and> status < 300 \<and>
      in_good_time until now (dv_net d now rq)"
    and "sent = Some rq \<Longrightarrow> \<not> in_good_time until now (dv_net d now rq) \<Longrightarrow>
      \<exists>e. r = Inl e \<and> err_is e ErrAuthorityUnreachable"
proof -
  have run: "in_time until (dv_net d) now sent (check_op (dv_verifier d, ref, projection)) = Some (t, r)"
    using assms by (simp add: timed_Check_def Let_def)
  note cases = check_call.in_time_op [OF run [unfolded sent_def], folded sent_def]
  show "\<exists>rq delay status ctype chunks. sent = Some rq \<and>
      dv_net d now rq = Answers delay status ctype chunks \<and> 200 \<le> status \<and> status < 300 \<and>
      in_good_time until now (dv_net d now rq)" if verdict: "r = Inr dec"
  proof (rule cases)
    assume "sent = None" "r = check_op (dv_verifier d, ref, projection) (\<lambda>rq. Inl DeadlineExceeded)"
    with that check_op_unsent [of "(dv_verifier d, ref, projection)" "\<lambda>rq. Inl DeadlineExceeded"] show ?thesis by (auto simp: sent_def)
  next
    fix rq a
    assume rq: "sent = Some rq" and a: "do_at until now (dv_net d now rq) = Some (t, a)"
      and r: "r = check_op (dv_verifier d, ref, projection) (\<lambda>_. a)"
    obtain rs where rs: "a = Inr rs"
      using check_op_cases(1) [OF rq [unfolded sent_def]] r verdict by (cases a) auto
    from check_op_cases(2) [OF rq [unfolded sent_def], of rs dec] r verdict rs have "status_2xx rs" by simp
    with rq do_at_answer [OF a [unfolded rs]] show ?thesis by (fastforce simp: status_2xx_def)
  qed
  show "\<exists>e. r = Inl e \<and> err_is e ErrAuthorityUnreachable"
    if "sent = Some rq" "\<not> in_good_time until now (dv_net d now rq)"
  proof (rule cases)
    fix rq' a
    assume "sent = Some rq'" and a: "do_at until now (dv_net d now rq') = Some (t, a)"
      and r: "r = check_op (dv_verifier d, ref, projection) (\<lambda>_. a)"
    with that obtain e where "a = Inl e" using do_at_late by fastforce
    with r check_op_cases(1) [OF that(1) [unfolded sent_def]] show ?thesis by simp
  qed (use that in simp)
qed

text \<open>An answer that has come whole before the deadline counts as if it took no time.\<close>

lemma timed_Check_prompt:
  assumes "check_sent (dv_verifier d, ref, projection) = Some rq" "dv_net d now rq = Answers delay status ctype chunks"
    and "\<not> past (withDeadline (dv_timeout d) ctx now) (now + int delay + int (sum_list (map fst chunks)))"
    and "send rq = Inr \<lparr> rs_status = status, rs_type = ctype, rs_body = concat (map snd chunks) \<rparr>"
  shows "timed_Check d ctx now ref projection =
    Some (now + int delay + int (sum_list (map fst chunks)), intent_Check (verifier_over (dv_verifier d) send) ref projection)"
proof -
  let ?until = "withDeadline (dv_timeout d) ctx now"
  have "\<not> past ?until now" "\<not> past ?until (now + int delay)" using assms(3) by (auto simp: past_def split: option.splits)
  then have "do_at ?until now (dv_net d now rq) = Some (now + int delay + int (sum_list (map fst chunks)), send rq)"
    by (simp add: do_at_def assms(2,4) body_by_all [OF assms(3)])
  from check_call.in_time_answered [where net = "dv_net d" and send = send, OF assms(1) this]
  show ?thesis by (simp add: timed_Check_def Let_def check_op_def)
qed

text \<open>A request is overdue when its deadline passes before the head of an answer, or a failure, arrives.\<close>

definition overdue :: "due \<Rightarrow> int \<Rightarrow> outcome \<Rightarrow> bool" where
  "overdue ctx now out \<longleftrightarrow> past ctx now \<or>
     (case out of Silent \<Rightarrow> True | Fails d e \<Rightarrow> past ctx (now + int d) | Answers d status ctype chunks \<Rightarrow> past ctx (now + int d))"

lemma do_at_overdue: "do_at ctx now out = Some (t, a) \<Longrightarrow> overdue ctx now out \<Longrightarrow> a = Inl DeadlineExceeded"
  by (auto simp: do_at_def overdue_def split: if_splits outcome.splits option.splits)

lemma timed_Check_overdue:
  assumes "timed_Check d ctx now ref projection = Some (t, r)" "check_sent (dv_verifier d, ref, projection) = Some rq"
    and "overdue (withDeadline (dv_timeout d) ctx now) now (dv_net d now rq)"
  shows "r = Inl (errorf ''http: check: '' (Joined (Sentinel ErrAuthorityUnreachable) '': '' DeadlineExceeded))"
proof -
  have run: "in_time (withDeadline (dv_timeout d) ctx now) (dv_net d) now (check_sent (dv_verifier d, ref, projection))
      (check_op (dv_verifier d, ref, projection)) = Some (t, r)"
    using assms(1) by (simp add: timed_Check_def Let_def)
  show ?thesis
    by (rule check_call.in_time_op [OF run]) (use assms(2,3) in \<open>auto dest: do_at_overdue simp: check_op_cases(1)\<close>)
qed

section \<open>Where the timeouts are set\<close>

text \<open>The intent adapter of the server, and that of the command line (\<^verbatim>\<open>cmd/chainbind/authority.go\<close>).\<close>

definition authorityTimeout :: int where
  "authorityTimeout = 10 * 10 ^ 9"

definition server_authority :: "'set server \<Rightarrow> network \<Rightarrow> deadline_verifier" where
  "server_authority sv net = \<lparr> dv_verifier = sv_intent sv, dv_timeout = startupTimeout, dv_net = net \<rparr>"

definition cli_authority :: "client \<Rightarrow> string \<Rightarrow> network \<Rightarrow> deadline_verifier" where
  "cli_authority dflt url net = \<lparr> dv_verifier = intent_New dflt url None, dv_timeout = authorityTimeout, dv_net = net \<rparr>"

lemma timed_Check_bounded:
  assumes "0 < dv_timeout d"
  obtains t r where "timed_Check d ctx now ref projection = Some (t, r)" "now \<le> t" "t \<le> now + dv_timeout d"
  unfolding timed_Check_def Let_def by (rule in_time_bounded [OF assms])

text \<open>The adapter in one statement: it answers within its timeout, and only what came in good time.\<close>

lemma authority_in_time:
  assumes "0 < dv_timeout d"
  shows "\<exists>t r. timed_Check d ctx now ref projection = Some (t, r) \<and> now \<le> t \<and> t \<le> now + dv_timeout d \<and>
    (\<forall>dec. r = Inr dec \<longrightarrow>
       (\<exists>rq delay status ctype chunks. check_sent (dv_verifier d, ref, projection) = Some rq \<and>
          dv_net d now rq = Answers delay status ctype chunks \<and> 200 \<le> status \<and> status < 300 \<and>
          int delay < dv_timeout d)) \<and>
    (\<forall>rq. check_sent (dv_verifier d, ref, projection) = Some rq \<longrightarrow>
       \<not> in_good_time (withDeadline (dv_timeout d) ctx now) now (dv_net d now rq) \<longrightarrow>
       (\<exists>e. r = Inl e \<and> err_is e ErrAuthorityUnreachable))"
proof -
  obtain t r where run: "timed_Check d ctx now ref projection = Some (t, r)" "now \<le> t" "t \<le> now + dv_timeout d"
    using assms by (rule timed_Check_bounded)
  have "int delay < dv_timeout d"
    if "in_good_time (withDeadline (dv_timeout d) ctx now) now (Answers delay status ctype chunks)" for delay status ctype chunks
    using that assms by (auto simp: in_good_time_def withDeadline_def WithTimeout_def split: option.splits)
  with run timed_Check_result [OF run(1)] show ?thesis by (metis (no_types, lifting))
qed

text \<open>
  An authority that is overdue at the deployed server: the client is told within the timeout
  that it could not be reached, and nothing but the question has happened.
\<close>

lemma overdue_refused:
  assumes "seal_target rq" "hc_Authorizer cfg (bearerToken rq) = None" "hasJSONContentType rq"
    and "json_Decode dec_payload payload0 maxSealRequestBody (rq_body rq) = Inr payload"
    and "Project (PayloadValue payload) = Inr projection"
    and "check_sent (dv_verifier d, ci_IntentRef (pl_Intent payload), projection_val projection) = Some q"
    and "overdue (withDeadline (dv_timeout d) ctx asked) asked (dv_net d asked q)"
    and "timed_Check d ctx asked (ci_IntentRef (pl_Intent payload)) (projection_val projection) =
      Some (t, iv_Check (hc_IntentVerifier cfg) (ci_IntentRef (pl_Intent payload)) (projection_val projection))"
    and "hc_Audiences cfg \<noteq> []" "distinct (map au_Name (hc_Audiences cfg))"
    "au_Name ` set (hc_Audiences cfg) \<subseteq> set profile_SegmentOrder"
  shows "NewHandler P R cfg now rq w =
    (writeProblem 502 typeAuthorityDown ''authority unreachable'' ''the intent authority could not be reached'',
     emit (EvCheck (ci_IntentRef (pl_Intent payload))) w)"
  using shell_unreachable [OF assms(1-5) timed_Check_overdue [OF assms(8,6,7)] _ assms(9-11)]
  by (simp add: DeadlineExceeded_def)

section \<open>Verifying in time\<close>

text \<open>
  \<^verbatim>\<open>Verify\<close> asks the authority at most once, for the constraints hash, and only when Level 1
  has passed; over the HTTP adapter it is an operation with at most one request.
\<close>

definition level1_report :: "prims \<Rightarrow> package \<Rightarrow> verify_options \<Rightarrow> report res" where
  "level1_report P p opt = Verify P (Some p) (opt\<lparr>vo_Intent := None\<rparr>)"

definition verify_sent :: "prims \<times> http_verifier \<times> package \<times> verify_options \<Rightarrow> request option" where
  "verify_sent = (\<lambda>(P, v, p, opt).
     case level1_report P p opt of
       Inl e \<Rightarrow> None
     | Inr r \<Rightarrow> if level1Passed r then hash_sent (v, in_intent_ref (pk_intent p)) else None)"

definition verify_op ::
  "prims \<times> http_verifier \<times> package \<times> verify_options \<Rightarrow> (request \<Rightarrow> response res) \<Rightarrow> report res" where
  "verify_op = (\<lambda>(P, v, p, opt) send. Verify P (Some p) (opt\<lparr>vo_Intent := Some (http_authority (verifier_over v send))\<rparr>))"

definition timed_Verify ::
  "prims \<Rightarrow> deadline_verifier \<Rightarrow> due \<Rightarrow> int \<Rightarrow> package \<Rightarrow> verify_options \<Rightarrow> (int \<times> report res) option" where
  "timed_Verify P d ctx now p opt =
     (let ctx = withDeadline (dv_timeout d) ctx now; v = (P, dv_verifier d, p, opt) in
      in_time ctx (dv_net d) now (verify_sent v) (verify_op v))"

lemma verify_content_opt: "verify_content P p (opt\<lparr>vo_Intent := iv\<rparr>) r = verify_content P p opt r"
  by (simp add: verify_content_def cong: if_cong)

text \<open>The report before the authority comes in, whatever authority there is.\<close>

lemma Verify_with:
  "\<exists>r. \<forall>iv. Verify P (Some p) (opt\<lparr>vo_Intent := iv\<rparr>) = Inr (if level1Passed r then verifyIntent P p iv r else r)"
  (is "\<exists>r. ?with r")
proof -
  obtain view sig fault where parse: "parsePackage P p = (view, sig, fault)" by (cases "parsePackage P p")
  let ?r1 = "report0\<lparr>rp_SpecVersionSupported := True\<rparr>"
  let ?pub = "resolveIssuerKey (vo_IssuerKey opt) (iss_iss (pk_issuer p)) (iss_kid (pk_issuer p))"
  have un: "\<not> level1Passed report0" "\<not> level1Passed ?r1" by (simp_all add: level1Passed_def report0_def)
  note Verify = Verify_eq Let_def option.case parse prod.case
  show ?thesis
  proof (cases "specVersionSupported (pk_spec_version p)")
    case False
    with un(1) show ?thesis by (intro exI [of _ report0]) (simp add: Verify)
  next
    case supported: True
    show ?thesis
    proof (cases "fault = FaultNone")
      case False
      with supported show ?thesis
        by (intro exI [of _ "?r1\<lparr>rp_Structural := fault\<rparr>"]) (simp add: Verify not_level1)
    next
      case sound: True
      show ?thesis
      proof (cases "\<exists>pub. ?pub = Some pub \<and> verifyEd25519 P pub view sig")
        case True
        with supported sound show ?thesis
          by (intro exI [of _ "verify_content P p opt (?r1\<lparr>rp_Signature := True\<rparr>)"])
            (auto simp: Verify verify_content_opt)
      next
        case False
        with supported sound un(2) show ?thesis
          by (intro exI [of _ ?r1]) (auto simp: Verify split: option.split)
      qed
    qed
  qed
qed

interpretation verify_call: single_request verify_sent verify_op
proof unfold_locales
  fix v :: "prims \<times> http_verifier \<times> package \<times> verify_options" and send send' :: "request \<Rightarrow> response res"
  assume same: "\<And>rq. verify_sent v = Some rq \<Longrightarrow> send rq = send' rq"
  obtain P w p opt where v: "v = (P, w, p, opt)" by (cases v) auto
  obtain r where r: "\<And>iv. Verify P (Some p) (opt\<lparr>vo_Intent := iv\<rparr>) = Inr (if level1Passed r then verifyIntent P p iv r else r)"
    using Verify_with by blast
  show "verify_op v send = verify_op v send'"
  proof (cases "level1Passed r")
    case True
    then have "verify_sent v = hash_sent (w, in_intent_ref (pk_intent p))"
      by (simp add: v verify_sent_def level1_report_def r verifyIntent_level1)
    with same have "hash_op (w, in_intent_ref (pk_intent p)) send = hash_op (w, in_intent_ref (pk_intent p)) send'"
      by (intro hash_call.same_answer) simp
    then show ?thesis by (simp add: v verify_op_def r verifyIntent_eq hash_op_def http_authority_def)
  qed (simp add: v verify_op_def r)
qed

text \<open>
  Verification over the HTTP adapter returns within the timeout, and its report is OK only if
  the authority answered in good time.
\<close>

lemma timed_Verify_bounded:
  assumes "0 < dv_timeout d"
  obtains t r where "timed_Verify P d ctx now p opt = Some (t, Inr r)" "now \<le> t" "t \<le> now + dv_timeout d"
proof -
  obtain t r where run: "timed_Verify P d ctx now p opt = Some (t, r)" "now \<le> t" "t \<le> now + dv_timeout d"
    unfolding timed_Verify_def Let_def by (rule in_time_bounded [OF assms])
  then obtain send where r: "r = verify_op (P, dv_verifier d, p, opt) send"
    unfolding timed_Verify_def Let_def using verify_call.in_time_run by blast
  have "\<exists>r'. r = Inr r'" by (simp add: r verify_op_def Verify_total)
  then obtain r' where "r = Inr r'" ..
  with run that show thesis by simp
qed

lemma hash_op_failed: "hash_sent v = Some rq \<Longrightarrow> \<exists>e. hash_op v (\<lambda>_. Inl e0) = Inl e"
  by (auto simp: hash_sent_def hash_op_def intent_ConstraintsHash_def sent_request split: if_splits prod.splits)

lemma hash_op_unsent: "hash_sent v = None \<Longrightarrow> \<exists>e. hash_op v send = Inl e"
  by (auto simp: hash_sent_def hash_op_def intent_ConstraintsHash_def sent_request split: if_splits prod.splits option.splits)

lemma timed_Verify_OK:
  assumes "timed_Verify P d ctx now p opt = Some (t, Inr r)" "report_OK (Some r)"
  shows "\<exists>rq. verify_sent (P, dv_verifier d, p, opt) = Some rq \<and>
    in_good_time (withDeadline (dv_timeout d) ctx now) now (dv_net d now rq)"
proof -
  let ?v = "(P, dv_verifier d, p, opt)" and ?ref = "in_intent_ref (pk_intent p)"
  obtain r0 where r0: "\<And>iv. Verify P (Some p) (opt\<lparr>vo_Intent := iv\<rparr>) =
      Inr (if level1Passed r0 then verifyIntent P p iv r0 else r0)" using Verify_with by blast
  have answered: "level1Passed r0 \<and> (\<exists>h. hash_op (dv_verifier d, ?ref) send = Inr h)"
    if "verify_op ?v send = Inr r" for send
  proof -
    from that have l: "level1Passed r0" using assms(2)
      by (auto simp: verify_op_def r0 report_OK_def split: if_splits)
    moreover have "\<not> (\<exists>e. hash_op (dv_verifier d, ?ref) send = Inl e)"
      using Verify_unreached [of P p "opt\<lparr>vo_Intent := Some (http_authority (verifier_over (dv_verifier d) send))\<rparr>" r]
        that assms(2) by (auto simp: verify_op_def hash_op_def http_authority_def)
    ultimately show ?thesis by (meson sum.exhaust)
  qed
  have sent: "verify_sent ?v = hash_sent (dv_verifier d, ?ref)" if "level1Passed r0"
    using that by (simp add: verify_sent_def level1_report_def r0 verifyIntent_level1)
  from assms(1) show ?thesis unfolding timed_Verify_def Let_def
  proof (rule verify_call.in_time_op)
    assume "verify_sent ?v = None" "Inr r = verify_op ?v (\<lambda>rq. Inl DeadlineExceeded)"
    with answered [of "\<lambda>rq. Inl DeadlineExceeded"] sent hash_op_unsent show ?thesis by (metis sum.distinct(1))
  next
    fix rq a
    assume rq: "verify_sent ?v = Some rq" and a: "do_at (withDeadline (dv_timeout d) ctx now) now (dv_net d now rq) = Some (t, a)"
      and r: "Inr r = verify_op ?v (\<lambda>_. a)"
    from answered [OF r [symmetric]] sent rq have asked: "hash_sent (dv_verifier d, ?ref) = Some rq"
      and h: "\<exists>h. hash_op (dv_verifier d, ?ref) (\<lambda>_. a) = Inr h" by simp_all
    show ?thesis
    proof (cases a)
      case (Inl e)
      with h hash_op_failed [OF asked, of e] show ?thesis by auto
    next
      case (Inr rs)
      from do_at_answer [OF a [unfolded Inr]] rq show ?thesis by blast
    qed
  qed
qed

section \<open>The Vault signer\<close>

record deadline_signer =
  ds_signer :: vault_signer
  ds_timeout :: int
  ds_net :: network

definition signer_over :: "vault_signer \<Rightarrow> (request \<Rightarrow> response res) \<Rightarrow> vault_signer" where
  "signer_over s send = s\<lparr>vs_client := dialled (vs_client s) send\<rparr>"

definition sign_sent :: "vault_signer \<times> bytes \<Rightarrow> request option" where
  "sign_sent = (\<lambda>(s, message).
     case marshal (sign_request_val (std_encode message) (vs_version s)) of
       Inl e \<Rightarrow> None | Inr body \<Rightarrow> built (vs_client s) (sign_request s body))"

definition sign_op :: "vault_signer \<times> bytes \<Rightarrow> (request \<Rightarrow> response res) \<Rightarrow> bytes res" where
  "sign_op = (\<lambda>(s, message) send. vault_Sign (signer_over s send) message)"

definition keys_sent :: "vault_signer \<Rightarrow> request option" where
  "keys_sent s = built (vs_client s) (keys_request s)"

definition keys_op :: "vault_signer \<Rightarrow> (request \<Rightarrow> response res) \<Rightarrow> err option" where
  "keys_op s send = vault_Ping (signer_over s send)"

text \<open>A signer that is being constructed; what construction adds is the pinned version and key.\<close>

definition unpinned :: "client \<Rightarrow> string \<Rightarrow> string \<Rightarrow> string \<Rightarrow> vault_signer" where
  "unpinned C addr token keyName =
     \<lparr> vs_addr = addr, vs_token = token, vs_name = keyName, vs_client = C, vs_version = 0, vs_pub = [] \<rparr>"

definition new_op :: "vault_signer \<Rightarrow> (request \<Rightarrow> response res) \<Rightarrow> (int \<times> bytes) res" where
  "new_op s send =
     (case vault_New (dialled (vs_client s) send) (vs_addr s) (vs_token s) (vs_name s) None of
        Inl e \<Rightarrow> Inl e
      | Inr signer \<Rightarrow> Inr (vs_version signer, vs_pub signer))"

definition timed_Sign :: "deadline_signer \<Rightarrow> due \<Rightarrow> int \<Rightarrow> bytes \<Rightarrow> (int \<times> bytes res) option" where
  "timed_Sign d ctx now message =
     (let ctx = vault_withDeadline (ds_timeout d) ctx now; s = (ds_signer d, message) in
      in_time ctx (ds_net d) now (sign_sent s) (sign_op s))"

definition timed_vault_Ping :: "deadline_signer \<Rightarrow> due \<Rightarrow> int \<Rightarrow> (int \<times> err option) option" where
  "timed_vault_Ping d ctx now =
     (let ctx = vault_withDeadline (ds_timeout d) ctx now; s = ds_signer d in
      in_time ctx (ds_net d) now (keys_sent s) (keys_op s))"

definition timed_vault_New ::
  "network \<Rightarrow> due \<Rightarrow> int \<Rightarrow> client \<Rightarrow> string \<Rightarrow> string \<Rightarrow> string \<Rightarrow> int \<Rightarrow> (int \<times> (int \<times> bytes) res) option" where
  "timed_vault_New net ctx now C addr token keyName timeout =
     (let s = unpinned C addr token keyName; ctx = vault_withDeadline timeout ctx now in
      in_time ctx net now (keys_sent s) (new_op s))"

definition timed_Kid :: "vault_signer \<Rightarrow> due \<Rightarrow> int \<Rightarrow> string res" where
  "timed_Kid s ctx now = vault_Kid s (if past ctx now then Some DeadlineExceeded else None)"

lemma signer_over_simps [simp]:
  "sign_request (signer_over s send) = sign_request s" "keys_request (signer_over s send) = keys_request s"
  "vs_client (signer_over s send) = dialled (vs_client s) send" "vs_version (signer_over s send) = vs_version s"
  by (simp_all add: signer_over_def sign_request_def keys_request_def fun_eq_iff)

lemma fetch_same:
  assumes "\<And>rq. keys_sent s = Some rq \<Longrightarrow> send rq = send' rq"
  shows "fetchKeyMetadata (signer_over s send) = fetchKeyMetadata (signer_over s send')"
  using assms by (auto simp: keys_sent_def fetchKeyMetadata_def vault_doJSON_def sent_request split: option.splits if_splits)

lemma unpinned_over:
  "unpinned (dialled (vs_client s) send) (vs_addr s) (vs_token s) (vs_name s) =
     signer_over (s\<lparr>vs_version := 0, vs_pub := []\<rparr>) send"
  by (simp add: unpinned_def signer_over_def)

interpretation sign_call: single_request sign_sent sign_op
  by unfold_locales
    (auto simp: sign_sent_def sign_op_def vault_Sign_def vault_doJSON_def sent_request
      split: option.splits if_splits sum.splits)

interpretation ping_call: single_request keys_sent keys_op
  by unfold_locales (metis fetch_same keys_op_def vault_Ping_def)

lemma new_op_same:
  assumes "\<And>rq. keys_sent s = Some rq \<Longrightarrow> send rq = send' rq"
  shows "new_op s send = new_op s send'"
proof -
  let ?s = "s\<lparr>vs_version := 0, vs_pub := []\<rparr>"
  have "keys_sent ?s = keys_sent s" by (simp add: keys_sent_def keys_request_def)
  with assms have same: "fetchKeyMetadata (signer_over ?s send) = fetchKeyMetadata (signer_over ?s send')"
    by (intro fetch_same) simp
  note unfold = new_op_def vault_New_def Let_def unpinned_over [unfolded unpinned_def]
  show ?thesis
  proof (cases "fetchKeyMetadata (signer_over ?s send')")
    case (Inr resp)
    with same show ?thesis
      by (auto simp: unfold signer_over_def split: option.splits if_splits)
  qed (use same in \<open>simp add: unfold\<close>)
qed

interpretation new_call: single_request keys_sent new_op
  by unfold_locales (rule new_op_same)

text \<open>A signature in time is a response whose head came before the deadline.\<close>

lemma sign_op_unsent: "sign_sent v = None \<Longrightarrow> \<exists>e. sign_op v send = Inl e"
  by (auto simp: sign_sent_def sign_op_def vault_Sign_def sent_request split: sum.splits if_splits prod.splits option.splits)

lemma sign_op_failed:
  "sign_sent v = Some rq \<Longrightarrow>
     sign_op v (\<lambda>_. Inl e) = Inl (errorf ''vault: sign: '' (Joined (Sentinel ErrVaultUnreachable) '': '' e))"
  by (auto simp: sign_sent_def sign_op_def vault_Sign_def vault_doJSON_def sent_request
      split: sum.splits if_splits prod.splits option.splits)

lemma timed_Sign_bounded:
  assumes "0 < ds_timeout d"
  obtains t r where "timed_Sign d ctx now m = Some (t, r)" "now \<le> t" "t \<le> now + ds_timeout d"
  unfolding timed_Sign_def Let_def vault_withDeadline_same by (rule in_time_bounded [OF assms])

lemma timed_Sign_result:
  assumes "timed_Sign d ctx now m = Some (t, r)"
  defines "until \<equiv> vault_withDeadline (ds_timeout d) ctx now" and "sent \<equiv> sign_sent (ds_signer d, m)"
  shows "r = Inr sig \<Longrightarrow> \<exists>rq. sent = Some rq \<and> in_good_time until now (ds_net d now rq)"
    and "sent = Some rq \<Longrightarrow> \<not> in_good_time until now (ds_net d now rq) \<Longrightarrow>
      \<exists>e. r = Inl e \<and> err_is e ErrVaultUnreachable"
proof -
  have run: "in_time until (ds_net d) now sent (sign_op (ds_signer d, m)) = Some (t, r)"
    using assms by (simp add: timed_Sign_def Let_def)
  note cases = sign_call.in_time_op [OF run [unfolded sent_def], folded sent_def]
  show "\<exists>rq. sent = Some rq \<and> in_good_time until now (ds_net d now rq)" if signed: "r = Inr sig"
  proof (rule cases)
    assume "sent = None" "r = sign_op (ds_signer d, m) (\<lambda>rq. Inl DeadlineExceeded)"
    with signed sign_op_unsent [of "(ds_signer d, m)" "\<lambda>rq. Inl DeadlineExceeded"] show ?thesis
      by (auto simp: sent_def)
  next
    fix rq a
    assume rq: "sent = Some rq" "do_at until now (ds_net d now rq) = Some (t, a)"
      and "r = sign_op (ds_signer d, m) (\<lambda>_. a)"
    with signed obtain rs where "a = Inr rs" using sign_op_failed [OF rq(1) [unfolded sent_def]] by (cases a) auto
    with rq do_at_answer show ?thesis by metis
  qed
  show "\<exists>e. r = Inl e \<and> err_is e ErrVaultUnreachable"
    if "sent = Some rq" "\<not> in_good_time until now (ds_net d now rq)"
  proof (rule cases)
    fix rq' a
    assume "sent = Some rq'" and a: "do_at until now (ds_net d now rq') = Some (t, a)"
      and r: "r = sign_op (ds_signer d, m) (\<lambda>_. a)"
    with that obtain e where "a = Inl e" using do_at_late by fastforce
    with r sign_op_failed [OF that(1) [unfolded sent_def]] show ?thesis by simp
  qed (use that in simp)
qed

section \<open>Starting in time\<close>

text \<open>
  \<^verbatim>\<open>run\<close> up to the handler: one context bounds every call it makes while it starts. The only
  request sent is that of \<^verbatim>\<open>vault.New\<close>; \<open>None\<close> as the error is a server that serves.
\<close>

definition timed_start :: "'set startup \<Rightarrow> network \<Rightarrow> int \<Rightarrow> (int \<times> err option) option" where
  "timed_start st net now =
     (case Load (st_env st) of
        Inl e \<Rightarrow> Some (now, Some e)
      | Inr cfg \<Rightarrow>
        let ctx = WithTimeout None now startupTimeout in
     (case timed_vault_New net ctx now (st_client st) (cf_VaultAddr cfg) (cf_VaultToken cfg)
             (cf_VaultTransitKey cfg) startupTimeout of
        None \<Rightarrow> None
      | Some (t, Inl e) \<Rightarrow> Some (t, Some e)
      | Some (t, Inr (version, pub)) \<Rightarrow>
        let signer = (unpinned (st_client st) (cf_VaultAddr cfg) (cf_VaultToken cfg) (cf_VaultTransitKey cfg))
              \<lparr>vs_version := version, vs_pub := pub\<rparr> in
     (case timed_Kid signer ctx t of
        Inl e \<Rightarrow> Some (t, Some e)
      | Inr issuerKid \<Rightarrow>
     (case LoadAudiences (st_ReadFile st (cf_AudiencesFile cfg)) of
        Inl e \<Rightarrow> Some (t, Some e)
      | Inr audiences \<Rightarrow> Some (t, None)))))"

lemma vault_New_New:
  "new_op s send = Inr (version, pub) \<Longrightarrow>
     vault_New (dialled (vs_client s) send) (vs_addr s) (vs_token s) (vs_name s) None =
       Inr (unpinned (dialled (vs_client s) send) (vs_addr s) (vs_token s) (vs_name s)\<lparr>vs_version := version, vs_pub := pub\<rparr>)"
  by (auto simp: new_op_def vault_New_def Let_def unpinned_def split: sum.splits if_splits option.splits)

text \<open>The server starts or fails within the start-up timeout, as it does over a client that takes no time.\<close>

lemma timed_start_bounded:
  "\<exists>t r. timed_start st net now = Some (t, r) \<and> now \<le> t \<and> t \<le> now + startupTimeout"
proof (cases "Load (st_env st)")
  case (Inl e)
  then show ?thesis by (simp add: timed_start_def startupTimeout_def)
next
  case (Inr cfg)
  have "0 < startupTimeout" by (simp add: startupTimeout_def)
  then obtain t r where "timed_vault_New net (WithTimeout None now startupTimeout) now (st_client st) (cf_VaultAddr cfg)
      (cf_VaultToken cfg) (cf_VaultTransitKey cfg) startupTimeout = Some (t, r)" "now \<le> t" "t \<le> now + startupTimeout"
    unfolding timed_vault_New_def Let_def vault_withDeadline_same by (rule in_time_bounded)
  with Inr show ?thesis
    by (cases r) (auto simp: timed_start_def Let_def split: sum.splits prod.splits)
qed

lemma timed_start_runs:
  assumes "timed_start st net now = Some (t, None)"
  obtains send sv where "api_run (st\<lparr>st_client := dialled (st_client st) send\<rparr>) = Inr sv" "t < now + startupTimeout"
proof -
  obtain cfg where cfg: "Load (st_env st) = Inr cfg" using assms by (auto simp: timed_start_def split: sum.splits)
  let ?s = "unpinned (st_client st) (cf_VaultAddr cfg) (cf_VaultToken cfg) (cf_VaultTransitKey cfg)"
  let ?ctx = "WithTimeout None now startupTimeout"
  obtain version pub auds where new: "timed_vault_New net ?ctx now (st_client st) (cf_VaultAddr cfg)
      (cf_VaultToken cfg) (cf_VaultTransitKey cfg) startupTimeout = Some (t, Inr (version, pub))"
    and kid: "\<not> past ?ctx t" and auds: "LoadAudiences (st_ReadFile st (cf_AudiencesFile cfg)) = Inr auds"
    using assms cfg
    by (auto simp: timed_start_def Let_def timed_Kid_def vault_Kid_def split: option.splits sum.splits prod.splits if_splits)
  have "\<exists>send. new_op ?s send = Inr (version, pub)"
    using new unfolding timed_vault_New_def Let_def by (rule new_call.in_time_op) metis+
  then obtain send where "new_op ?s send = Inr (version, pub)" by blast
  from vault_New_New [OF this] have "vault_New (dialled (st_client st) send) (cf_VaultAddr cfg) (cf_VaultToken cfg)
      (cf_VaultTransitKey cfg) None = Inr (unpinned (dialled (st_client st) send) (cf_VaultAddr cfg) (cf_VaultToken cfg)
        (cf_VaultTransitKey cfg)\<lparr>vs_version := version, vs_pub := pub\<rparr>)"
    by (simp add: unpinned_def)
  with cfg auds have "\<exists>sv. api_run (st\<lparr>st_client := dialled (st_client st) send\<rparr>) = Inr sv"
    by (simp add: api_run_def Let_def vault_Kid_def)
  moreover have "t < now + startupTimeout" using kid by (simp add: WithTimeout_def)
  ultimately show thesis using that by blast
qed

end
