(* ===== verification/Seal_Time.thy ===== *)
theory Seal_Time
  imports Deadlines
begin

text \<open>
  \<^verbatim>\<open>Seal\<close> over the HTTP intent adapter and the Vault signer, in time: two questions to the
  authority and at most one signature, one after the other under the caller's context, each
  with the timeout of its adapter. What \<^verbatim>\<open>Seal\<close> computes itself takes no time.
\<close>

text \<open>The message of the signature that was asked for last.\<close>

definition sign_asked :: "world \<Rightarrow> bytes option" where
  "sign_asked s = (if trace s = [] then None else (case last (trace s) of EvSign m \<Rightarrow> Some m | _ \<Rightarrow> None))"

text \<open>The two ports as they answer: the authority with the answers it gave, the signer from \<open>t\<close> on.\<close>

definition answered_authority :: "intent_decision res \<Rightarrow> string res \<Rightarrow> intent_verifier" where
  "answered_authority check hash = \<lparr> iv_Check = (\<lambda>ref pj. check), iv_ConstraintsHash = (\<lambda>ref. hash) \<rparr>"

definition signer_at :: "deadline_signer \<Rightarrow> due \<Rightarrow> int \<Rightarrow> signer" where
  "signer_at d ctx t =
     \<lparr> signer_Kid = timed_Kid (ds_signer d) ctx t,
       signer_Sign = (\<lambda>m. case timed_Sign d ctx t m of None \<Rightarrow> Inl DeadlineExceeded | Some (t', r) \<Rightarrow> r) \<rparr>"

definition timed_Seal ::
  "prims \<Rightarrow> seal_request \<Rightarrow> deadline_signer \<Rightarrow> key_wrapper \<Rightarrow> deadline_verifier \<Rightarrow> due \<Rightarrow> int \<Rightarrow> world \<Rightarrow>
     (int \<times> package res \<times> world) option" where
  "timed_Seal P req ds w da ctx now s =
     (let ref = sr_IntentRef req in
      if sr_Audiences req = [] \<or> checkAudiences req \<noteq> Inr ()
      then Some (now, Seal P req (signer_at ds ctx now) w (answered_authority (Inl DeadlineExceeded) (Inl DeadlineExceeded)) s)
      else
     (case timed_Check da ctx now ref (sr_Projection req) of
        None \<Rightarrow> None
      | Some (t1, check) \<Rightarrow>
      if \<not> (case check of Inr d \<Rightarrow> id_Allowed d | Inl e \<Rightarrow> False)
      then Some (t1, Seal P req (signer_at ds ctx t1) w (answered_authority check (Inl DeadlineExceeded)) s)
      else
     (case timed_ConstraintsHash da ctx t1 ref of
        None \<Rightarrow> None
      | Some (t2, hash) \<Rightarrow>
     (case Seal P req (signer_at ds ctx t2) w (answered_authority check hash) s of
        (r, s') \<Rightarrow>
     (case sign_asked s' of
        None \<Rightarrow> Some (t2, r, s')
      | Some m \<Rightarrow> map_option (\<lambda>(t3, sig). (t3, r, s')) (timed_Sign ds ctx t2 m))))))"

lemma timed_Hash_bounded:
  assumes "0 < dv_timeout d"
  obtains t r where "timed_ConstraintsHash d ctx now ref = Some (t, r)" "now \<le> t" "t \<le> now + dv_timeout d"
  unfolding timed_ConstraintsHash_def Let_def by (rule in_time_bounded [OF assms])

lemma timed_Seal_bounded:
  assumes "0 < dv_timeout da" "0 < ds_timeout ds"
  shows "\<exists>t r s'. timed_Seal P req ds w da ctx now s = Some (t, r, s') \<and> now \<le> t \<and>
    t \<le> now + 2 * dv_timeout da + ds_timeout ds"
proof -
  let ?ref = "sr_IntentRef req"
  obtain t1 check where check: "timed_Check da ctx now ?ref (sr_Projection req) = Some (t1, check)"
    "now \<le> t1" "t1 \<le> now + dv_timeout da" using assms(1) by (rule timed_Check_bounded)
  obtain t2 hash where hash: "timed_ConstraintsHash da ctx t1 ?ref = Some (t2, hash)" "t1 \<le> t2" "t2 \<le> t1 + dv_timeout da"
    using assms(1) by (rule timed_Hash_bounded)
  obtain r s' where run: "Seal P req (signer_at ds ctx t2) w (answered_authority check hash) s = (r, s')" by fastforce
  have finish: "\<exists>t. (case sign_asked s' of None \<Rightarrow> Some (t2, r, s')
      | Some m \<Rightarrow> map_option (\<lambda>(t3, sig). (t3, r, s')) (timed_Sign ds ctx t2 m)) = Some (t, r, s') \<and>
      now \<le> t \<and> t \<le> now + 2 * dv_timeout da + ds_timeout ds"
  proof (cases "sign_asked s'")
    case None
    with check hash assms show ?thesis by simp
  next
    case (Some m)
    obtain t3 sig where "timed_Sign ds ctx t2 m = Some (t3, sig)" "t2 \<le> t3" "t3 \<le> t2 + ds_timeout ds"
      using assms(2) by (rule timed_Sign_bounded)
    with Some check hash show ?thesis by simp
  qed
  consider "sr_Audiences req = [] \<or> checkAudiences req \<noteq> Inr ()"
    | "\<not> (sr_Audiences req = [] \<or> checkAudiences req \<noteq> Inr ())" "\<not> (case check of Inr d \<Rightarrow> id_Allowed d | Inl e \<Rightarrow> False)"
    | "\<not> (sr_Audiences req = [] \<or> checkAudiences req \<noteq> Inr ())" "case check of Inr d \<Rightarrow> id_Allowed d | Inl e \<Rightarrow> False"
    by blast
  then show ?thesis
  proof cases
    case 1
    with assms show ?thesis by (cases "Seal P req (signer_at ds ctx now) w
      (answered_authority (Inl DeadlineExceeded) (Inl DeadlineExceeded)) s") (simp add: timed_Seal_def Let_def)
  next
    case 2
    with check assms show ?thesis by (cases "Seal P req (signer_at ds ctx t1) w
      (answered_authority check (Inl DeadlineExceeded)) s") (simp add: timed_Seal_def Let_def)
  next
    case 3
    with check(1) hash(1) run finish show ?thesis by (simp add: timed_Seal_def Let_def) blast
  qed
qed

text \<open>A package is only sealed when the authority answered both questions and Vault the signature, each in good time.\<close>

lemma timed_Seal_package:
  assumes "timed_Seal P req ds w da ctx now s = Some (t, Inr p, s')"
  obtains t1 t2 d ch view sig where
    "timed_Check da ctx now (sr_IntentRef req) (sr_Projection req) = Some (t1, Inr d)" "id_Allowed d"
    "timed_ConstraintsHash da ctx t1 (sr_IntentRef req) = Some (t2, Inr ch)"
    "Seal P req (signer_at ds ctx t2) w (answered_authority (Inr d) (Inr ch)) s = (Inr p, s')"
    "BuildSigningView P p = Inr view" "timed_Sign ds ctx t2 view = Some (t, Inr sig)"
proof -
  have not_asked: "Seal P req si w (answered_authority c (Inl e)) s \<noteq> (Inr p, s')" for si c e
    by (auto simp: answered_authority_def elim: Seal_authorized)
  obtain t1 check where check: "timed_Check da ctx now (sr_IntentRef req) (sr_Projection req) = Some (t1, check)"
    and allowed: "case check of Inr d \<Rightarrow> id_Allowed d | Inl e \<Rightarrow> False"
    and on: "sr_Audiences req \<noteq> []" "checkAudiences req = Inr ()"
    using assms not_asked by (auto simp: timed_Seal_def Let_def split: if_splits option.splits)
  obtain t2 hash where hash: "timed_ConstraintsHash da ctx t1 (sr_IntentRef req) = Some (t2, hash)"
    and rest: "(case Seal P req (signer_at ds ctx t2) w (answered_authority check hash) s of
        (r, s') \<Rightarrow> (case sign_asked s' of None \<Rightarrow> Some (t2, r, s')
          | Some m \<Rightarrow> map_option (\<lambda>(t3, sig). (t3, r, s')) (timed_Sign ds ctx t2 m))) = Some (t, Inr p, s')"
    using assms check allowed on by (auto simp: timed_Seal_def Let_def split: option.splits)
  then have seal: "Seal P req (signer_at ds ctx t2) w (answered_authority check hash) s = (Inr p, s')"
    by (auto split: prod.splits option.splits)
  then obtain ch where ch: "hash = Inr ch" by (cases hash) (use not_asked in auto)
  from seal obtain c where "seal_authorized P req (signer_at ds ctx t2) w c
      (emit (EvConstraintsHash (sr_IntentRef req)) (emit (EvCheck (sr_IntentRef req)) s)) = (Inr p, s')"
    by (rule Seal_authorized)
  then obtain u s2 where "signPackage P (signer_at ds ctx t2) u s2 = (Inr p, s')" by (rule seal_authorized_Inr)
  then obtain view sig where view: "BuildSigningView P p = Inr view" "signer_Sign (signer_at ds ctx t2) view = Inr sig"
    and last: "sign_asked s' = Some view"
  proof (rule signPackage_Inr)
    fix kid view sig
    assume v: "BuildSigningView P (u\<lparr>pk_issuer := (pk_issuer u)\<lparr>iss_kid := kid\<rparr>\<rparr>) = Inr view"
      and p: "p = u\<lparr>pk_issuer := (pk_issuer u)\<lparr>iss_kid := kid\<rparr>,
           pk_signature := \<lparr> sn_alg = signatureAlg, sn_kid = kid,
                            sn_signed_fields = RequiredSignedFields,
                            sn_value = EncodeSignatureValue sig \<rparr>\<rparr>"
      and s': "s' = emit (EvSign view) (emit EvKid s2)" and sig: "signer_Sign (signer_at ds ctx t2) view = Inr sig"
    have "BuildSigningView P p = Inr view" using v by (simp add: p BuildSigningView_def signingViewFields_def)
    moreover have "sign_asked s' = Some view" by (simp add: s' sign_asked_def emit_def)
    ultimately show thesis using sig that by blast
  qed
  from rest obtain sig' where "timed_Sign ds ctx t2 view = Some (t, sig')" by (auto simp: seal last)
  with view(2) have "timed_Sign ds ctx t2 view = Some (t, Inr sig)" by (simp add: signer_at_def)
  with check allowed hash ch seal view(1) that show thesis by (cases check) auto
qed

section \<open>A network that takes no time\<close>

text \<open>
  Over a network that answers at once, as the clients \<open>send_a\<close> and \<open>send_v\<close> do, sealing in time is
  sealing: the untimed model is the timed one without delays.
\<close>

definition at_once :: "network \<Rightarrow> (request \<Rightarrow> response res) \<Rightarrow> bool" where
  "at_once net send \<longleftrightarrow>
     (\<forall>now rq. \<exists>status ctype body. net now rq = Answers 0 status ctype [(0, body)] \<and>
        send rq = Inr \<lparr> rs_status = status, rs_type = ctype, rs_body = body \<rparr>)"

lemma do_at_once:
  assumes "at_once net send" "\<not> past ctx now"
  shows "do_at ctx now (net now rq) = Some (now, send rq)"
proof -
  from assms(1) obtain status ctype body where "net now rq = Answers 0 status ctype [(0, body)]"
    "send rq = Inr \<lparr> rs_status = status, rs_type = ctype, rs_body = body \<rparr>" unfolding at_once_def by blast
  with assms(2) show ?thesis by (simp add: do_at_def)
qed

lemma not_past_withDeadline: "0 < timeout \<Longrightarrow> \<not> past ctx now \<Longrightarrow> \<not> past (withDeadline timeout ctx now) now"
  by (auto simp: withDeadline_def WithTimeout_def past_def split: option.splits)

context single_request
begin

lemma in_time_at_once:
  assumes "at_once net send" "\<not> past ctx now"
  shows "in_time ctx net now (sent v) (op v) = Some (now, op v send)"
proof (cases "sent v")
  case None
  then show ?thesis by (rule in_time_unsent)
next
  case (Some rq)
  then show ?thesis
    using in_time_answered [of v rq ctx now net now send] do_at_once [OF assms, of rq] by simp
qed

end

lemma timed_at_once:
  assumes "\<not> past ctx now"
  shows "0 < dv_timeout da \<Longrightarrow> at_once (dv_net da) send \<Longrightarrow>
      timed_Check da ctx now ref pj = Some (now, intent_Check (verifier_over (dv_verifier da) send) ref pj)"
    "0 < dv_timeout da \<Longrightarrow> at_once (dv_net da) send \<Longrightarrow>
      timed_ConstraintsHash da ctx now ref = Some (now, intent_ConstraintsHash (verifier_over (dv_verifier da) send) ref)"
    "0 < ds_timeout ds \<Longrightarrow> at_once (ds_net ds) send \<Longrightarrow>
      timed_Sign ds ctx now m = Some (now, vault_Sign (signer_over (ds_signer ds) send) m)"
  using assms
  by (simp_all add: timed_Check_def timed_ConstraintsHash_def timed_Sign_def Let_def vault_withDeadline_same
      check_call.in_time_at_once hash_call.in_time_at_once sign_call.in_time_at_once not_past_withDeadline)
    (simp_all add: check_op_def hash_op_def sign_op_def)

lemma Seal_cong:
  assumes "iv_Check iv (sr_IntentRef req) (sr_Projection req) = iv_Check iv' (sr_IntentRef req) (sr_Projection req)"
    and "iv_ConstraintsHash iv (sr_IntentRef req) = iv_ConstraintsHash iv' (sr_IntentRef req)"
  shows "Seal P req si w iv s = Seal P req si w iv' s"
  unfolding Seal_def assms ..

lemma Seal_denied_cong:
  assumes "iv_Check iv (sr_IntentRef req) (sr_Projection req) = iv_Check iv' (sr_IntentRef req) (sr_Projection req)"
    and "\<not> (case iv_Check iv (sr_IntentRef req) (sr_Projection req) of Inr d \<Rightarrow> id_Allowed d | Inl e \<Rightarrow> False)"
  shows "Seal P req si w iv s = Seal P req si' w iv' s"
  using assms(2) by (auto simp: Seal_def Let_def assms(1) split: sum.splits)

lemma Seal_unasked_cong:
  assumes "sr_Audiences req = [] \<or> checkAudiences req \<noteq> Inr ()"
  shows "Seal P req si w iv s = Seal P req si' w iv' s"
  using assms by (auto simp: Seal_def split: sum.split)

lemma timed_Seal_at_once:
  assumes "0 < dv_timeout da" "0 < ds_timeout ds" "\<not> past ctx now"
    and "at_once (dv_net da) send_a" "at_once (ds_net ds) send_v"
  shows "timed_Seal P req ds w da ctx now s =
    (case Seal P req (vault_port P (signer_over (ds_signer ds) send_v, None)) w
            (http_authority (verifier_over (dv_verifier da) send_a)) s of
       (r, s') \<Rightarrow> Some (now, r, s'))"
proof -
  let ?si = "vault_port P (signer_over (ds_signer ds) send_v, None)"
  let ?iv = "http_authority (verifier_over (dv_verifier da) send_a)"
  let ?ref = "sr_IntentRef req" and ?pj = "sr_Projection req"
  have si: "signer_at ds ctx now = ?si"
    using assms(3) timed_at_once(3) [OF assms(3,2,5)]
    by (simp add: signer_at_def vault_port_def timed_Kid_def vault_Kid_def signer_over_def)
  have calls: "timed_Check da ctx now ?ref ?pj = Some (now, iv_Check ?iv ?ref ?pj)"
    "timed_ConstraintsHash da ctx now ?ref = Some (now, iv_ConstraintsHash ?iv ?ref)"
    using timed_at_once(1,2) [OF assms(3,1,4)] by (simp_all add: http_authority_def)
  have sign: "\<exists>sig. timed_Sign ds ctx now m = Some (now, sig)" for m
    using timed_at_once(3) [OF assms(3,2,5)] by simp
  consider "sr_Audiences req = [] \<or> checkAudiences req \<noteq> Inr ()"
    | "\<not> (sr_Audiences req = [] \<or> checkAudiences req \<noteq> Inr ())"
      "\<not> (case iv_Check ?iv ?ref ?pj of Inr d \<Rightarrow> id_Allowed d | Inl e \<Rightarrow> False)"
    | "\<not> (sr_Audiences req = [] \<or> checkAudiences req \<noteq> Inr ())"
      "case iv_Check ?iv ?ref ?pj of Inr d \<Rightarrow> id_Allowed d | Inl e \<Rightarrow> False"
    by blast
  then show ?thesis
  proof cases
    case 1
    then show ?thesis
      using Seal_unasked_cong [OF 1, of P "signer_at ds ctx now" w _ s ?si ?iv]
      by (simp add: timed_Seal_def Let_def split: prod.split)
  next
    case 2
    have "Seal P req (signer_at ds ctx now) w (answered_authority (iv_Check ?iv ?ref ?pj) (Inl DeadlineExceeded)) s
        = Seal P req ?si w ?iv s"
      by (rule Seal_denied_cong) (simp_all add: answered_authority_def 2(2))
    with 2 show ?thesis by (simp add: timed_Seal_def Let_def calls split: prod.split)
  next
    case 3
    have "Seal P req (signer_at ds ctx now) w (answered_authority (iv_Check ?iv ?ref ?pj) (iv_ConstraintsHash ?iv ?ref)) s
        = Seal P req ?si w ?iv s"
      unfolding si by (rule Seal_cong) (simp_all add: answered_authority_def)
    moreover obtain r s' where "Seal P req ?si w ?iv s = (r, s')" by fastforce
    ultimately show ?thesis
      using 3 sign by (simp add: timed_Seal_def Let_def calls split: option.split)
  qed
qed

end
