(* ===== verification/Demo_System.thy ===== *)
theory Demo_System
  imports Demo_Api Access Seal_Time
begin

text \<open>
  The concrete system of the witnesses: the demonstration server behind an authorizer that
  accepts one token, run until it has sealed a request; its shutdown; and an authority that
  never answers.
\<close>

declare json_escape.simps(2) [simp del] fold_key.simps(2) [simp del]

section \<open>A server that admits\<close>

definition demo_token :: token where
  "demo_token = fmap_of_list [(''realm_access'', JObj [(''roles'', JArr [JStr RoleIssuerAdmin])])]"

definition demo_keyed :: "unit startup" where
  "demo_keyed = demo_startup\<lparr>st_parse := (\<lambda>ks iss aud bearer. Inr demo_token)\<rparr>"

definition demo_keyed_server :: "unit server" where
  "demo_keyed_server = demo_server\<lparr>sv_authz := keycloak_New (\<lambda>ks iss aud bearer. Inr demo_token) ''k'' ''k'' ''k''\<rparr>"

lemma demo_role: "hasRole demo_token RoleIssuerAdmin"
  by (simp add: hasRole_def demo_token_def)

lemma api_run_parse:
  assumes "api_run st = Inr sv"
  shows "api_run (st\<lparr>st_parse := f\<rparr>) =
    Inr (sv\<lparr>sv_authz := keycloak_New f (st_env st ''CHAINBIND_KEYCLOAK_JWKS_URL'')
      (st_env st ''CHAINBIND_KEYCLOAK_ISSUER'') (st_env st ''CHAINBIND_KEYCLOAK_AUDIENCE'')\<rparr>)"
proof -
  obtain cfg signer kid auds where run: "Load (st_env st) = Inr cfg"
    "vault_New (st_client st) (cf_VaultAddr cfg) (cf_VaultToken cfg) (cf_VaultTransitKey cfg) None = Inr signer"
    "vault_Kid signer None = Inr kid" "LoadAudiences (st_ReadFile st (cf_AudiencesFile cfg)) = Inr auds"
    using assms by (auto simp: api_run_def Let_def split: sum.splits)
  then have "cfg = config_of (st_env st)" by (simp add: Load_cases split: if_splits)
  with run assms show ?thesis by (auto simp: api_run_def config_of_def)
qed

lemma demo_keyed_started: "api_run demo_keyed = Inr demo_keyed_server"
  using api_run_parse [OF demo_started] by (simp add: demo_keyed_def demo_keyed_server_def demo_startup_def)

lemma demo_keyed_config: "server_config flat_prims demo_keyed_server (\<lambda>bearer. None) = demo_config"
  by (simp add: server_config_def demo_keyed_server_def demo_config_def cong: if_cong)

section \<open>A request it seals\<close>

definition demo_bearer_rq :: request where
  "demo_bearer_rq = demo_seal_rq\<lparr>rq_headers := fmupd ''Authorization'' ''Bearer t'' (rq_headers demo_seal_rq)\<rparr>"

lemma demo_bearer: "bearerToken demo_bearer_rq = ''t''"
  by (simp add: bearerToken_def header_get_def demo_bearer_rq_def TrimPrefix_def)

lemma demo_bearer_same: "seal_target demo_bearer_rq" "hasJSONContentType demo_bearer_rq"
  "rq_body demo_bearer_rq = rq_body demo_seal_rq"
proof -
  have "seal_target demo_seal_rq" "hasJSONContentType demo_seal_rq"
    by (simp_all add: demo_seal_rq_def demo_targets shell_request_json)
  then show "seal_target demo_bearer_rq" "hasJSONContentType demo_bearer_rq" "rq_body demo_bearer_rq = rq_body demo_seal_rq"
    by (simp_all add: demo_bearer_rq_def seal_target_def hasJSONContentType_def header_get_def)
qed

lemma demo_bearer_run:
  obtains rs w where "NewHandler flat_prims demo_lib (server_config flat_prims demo_keyed_server (\<lambda>bearer. None)) demo_now
    demo_bearer_rq demo_world = (rs, w)" "\<not> asked_only demo_world w"
proof -
  obtain rs w where run: "NewHandler flat_prims demo_lib demo_config demo_now demo_seal_rq demo_world = (rs, w)"
    and sealed: "\<exists>projection pkg. rs = shell_writeJSON 200 (package_val pkg) \<and>
      Seal flat_prims (demo_shell_request projection) (vault_port flat_prims (demo_vault, None)) (Wrapper flat_prims)
        (http_authority (intent_New demo_client ''k'' None)) demo_world = (Inr pkg, w)"
    by (rule demo_shell_run)
  obtain q where q: "Project (PayloadValue payload0) = Inr q" using demo_projected by blast
  have none: "hc_Authorizer demo_config b = None" for b by (simp add: demo_config_def server_config_def)
  have plain: "seal_target demo_seal_rq" "hasJSONContentType demo_seal_rq" "rq_body demo_seal_rq = encode (VObj [])"
    by (simp_all add: demo_seal_rq_def demo_targets shell_request_json) (simp add: shell_request_def)
  have payload: "json_Decode dec_payload payload0 maxSealRequestBody (rq_body demo_seal_rq) = Inr payload0"
    unfolding plain(3) by (rule demo_payload_read)
  have "NewHandler flat_prims demo_lib demo_config demo_now demo_bearer_rq demo_world
      = NewHandler flat_prims demo_lib demo_config demo_now demo_seal_rq demo_world"
    unfolding seal_route [OF plain(1) none plain(2) payload q]
      seal_route [OF demo_bearer_same(1) none demo_bearer_same(2) payload [folded demo_bearer_same(3)] q] ..
  moreover have "\<not> asked_only demo_world w" using sealed Seal_not_asked by blast
  ultimately show thesis using run that by (simp add: demo_keyed_config)
qed

section \<open>A run of the system\<close>

abbreviation demo_step :: "unit system \<Rightarrow> unit system \<Rightarrow> bool" where
  "demo_step \<equiv> sstep flat_prims demo_lib demo_keyed_server (\<lambda>t. ()) 0"

definition demo_system ::
  "int \<Rightarrow> unit cache \<Rightarrow> unit fetching \<Rightarrow> request list \<Rightarrow> (request \<times> err option \<times> int) list \<Rightarrow> unit system" where
  "demo_system t c f rqs ds =
     \<lparr> sy_life = (life0 0 demo_world)\<lparr>lf_clock := t, lf_accepted := rqs, lf_pending := rqs\<rparr>,
       sy_keys = \<lparr> sh_clock = t, sh_cache = c, sh_request = (\<lambda>i. Idle)(0 := f) \<rparr>,
       sy_decided = ds \<rparr>"

abbreviation demo_empty :: "unit cache" where
  "demo_empty \<equiv> snd (sv_authz demo_keyed_server)"

abbreviation demo_cached :: "unit cache" where
  "demo_cached \<equiv> \<lparr> ca_set = Some (), ca_fetchedAt = 0 \<rparr>"

abbreviation demo_let_in :: "(request \<times> err option \<times> int) list" where
  "demo_let_in \<equiv> [(demo_bearer_rq, None, 0)]"

text \<open>An hour in which the body of the request arrives.\<close>

abbreviation demo_hour :: int where
  "demo_hour \<equiv> 3600 * 10 ^ 9"

abbreviation demo_late :: "unit system" where
  "demo_late \<equiv> demo_system demo_hour demo_cached Idle [demo_bearer_rq] demo_let_in"

lemma demo_provider: "pr_fetchTimeout (fst (sv_authz demo_keyed_server)) = defaultFetchTimeout"
  "ca_set (snd (sv_authz demo_keyed_server)) = None"
  by (simp_all add: demo_keyed_server_def keycloak_New_def)

lemma demo_bearer_admitted:
  "keycloak_answers (fst (sv_authz demo_keyed_server)) (sy_keys (demo_system 0 demo_empty (Holding () 0 0) rqs ds))
     (bearerToken demo_bearer_rq) None"
proof -
  let ?p = "fst (sv_authz demo_keyed_server)" and ?g = "sy_keys (demo_system 0 demo_empty (Holding () 0 0) rqs ds)"
  let ?c = "\<lparr> ca_set = None, ca_fetchedAt = 0 \<rparr> :: unit cache"
  have ks: "keySet ?p 0 (\<lambda>url. Inr ()) 0 ?c = (Inr (), demo_cached)"
    by (simp add: keySet_def fresh_def)
  have "fst (Authorize ?p 0 (\<lambda>url. Inr ()) 0 ''t'' ?c) = None"
    unfolding Authorize_None ks by (simp add: admits_def demo_keyed_server_def keycloak_New_def demo_role)
  moreover have "serves_set ?p ?g ()"
    unfolding serves_set_def by (intro disjI2 exI [of _ 0]) (simp add: demo_system_def)
  ultimately show ?thesis
    unfolding keycloak_answers_def demo_bearer
    by (intro exI [of _ 0] exI [of _ "\<lambda>url. Inr ()"] exI [of _ ?c]) simp
qed

lemma demo_serving: "(demo_step)\<^sup>*\<^sup>* (system0 demo_keyed_server 0 demo_world) demo_late"
proof -
  let ?p = "fst (sv_authz demo_keyed_server)" and ?S = "demo_system 0 demo_empty"
  have 0: "system0 demo_keyed_server 0 demo_world = ?S Idle [] []"
    by (auto simp: system0_def demo_system_def life0_def)
  have "kstep ?p (\<lambda>t. ()) 0 (sy_keys (?S Idle [] [])) (sy_keys (?S (Asking 0) [] []))"
    using kstep.ask [of "sy_keys (?S Idle [] [])" 0 ?p "\<lambda>t. ()" 0]
    by (simp add: demo_system_def demo_provider fresh_def)
  from sstep.cache [of demo_keyed_server "\<lambda>t. ()" 0 "?S Idle [] []", OF this]
  have 1: "demo_step (?S Idle [] []) (?S (Asking 0) [] [])" by (simp add: demo_system_def)
  have "kstep ?p (\<lambda>t. ()) 0 (sy_keys (?S (Asking 0) [] [])) (sy_keys (?S (Holding () 0 0) [] []))"
    using kstep.arrive [of "sy_keys (?S (Asking 0) [] [])" 0 0 ?p 0 "\<lambda>t. ()" 0]
    by (simp add: demo_system_def demo_provider defaultFetchTimeout_def)
  from sstep.cache [of demo_keyed_server "\<lambda>t. ()" 0 "?S (Asking 0) [] []", OF this]
  have 2: "demo_step (?S (Asking 0) [] []) (?S (Holding () 0 0) [] [])" by (simp add: demo_system_def)
  have "lstep h 0 (sy_life (?S f [] [])) (sy_life (?S f [demo_bearer_rq] []))" for h f
    using lstep.accept [of "sy_life (?S f [] [])" h 0 demo_bearer_rq]
    by (simp add: demo_system_def life0_def)
  from sstep.process [of _ _ _ _ _ "sy_life (?S (Holding () 0 0) [demo_bearer_rq] [])", OF this]
  have 3: "demo_step (?S (Holding () 0 0) [] []) (?S (Holding () 0 0) [demo_bearer_rq] [])"
    by (simp add: demo_system_def)
  have "demo_step (?S (Holding () 0 0) [demo_bearer_rq] [])
      ((?S (Holding () 0 0) [demo_bearer_rq] [])\<lparr>sy_decided := sy_decided (?S (Holding () 0 0) [demo_bearer_rq] [])
         @ [(demo_bearer_rq, None, lf_clock (sy_life (?S (Holding () 0 0) [demo_bearer_rq] [])))]\<rparr>)"
    by (rule sstep.decide [OF _ demo_bearer_same(1) _ demo_bearer_admitted]) (simp_all add: demo_system_def life0_def undecided_def)
  then have 4: "demo_step (?S (Holding () 0 0) [demo_bearer_rq] []) (?S (Holding () 0 0) [demo_bearer_rq] demo_let_in)"
    by (simp add: demo_system_def)
  have "kstep ?p (\<lambda>t. ()) 0 (sy_keys (?S (Holding () 0 0) [demo_bearer_rq] demo_let_in))
      (sy_keys (demo_system 0 demo_cached Idle [demo_bearer_rq] demo_let_in))"
    using kstep.store [of "sy_keys (?S (Holding () 0 0) [demo_bearer_rq] demo_let_in)" 0 "()" 0 0 ?p "\<lambda>t. ()" 0]
    by (simp add: demo_system_def)
  from sstep.cache [of demo_keyed_server "\<lambda>t. ()" 0 "?S (Holding () 0 0) [demo_bearer_rq] demo_let_in", OF this]
  have 5: "demo_step (?S (Holding () 0 0) [demo_bearer_rq] demo_let_in)
      (demo_system 0 demo_cached Idle [demo_bearer_rq] demo_let_in)" by (simp add: demo_system_def)
  let ?T = "demo_system 0 demo_cached Idle [demo_bearer_rq] demo_let_in"
  have "demo_step ?T (?T\<lparr>sy_life := (sy_life ?T)\<lparr>lf_clock := lf_clock (sy_life ?T) + demo_hour\<rparr>,
      sy_keys := (sy_keys ?T)\<lparr>sh_clock := sh_clock (sy_keys ?T) + demo_hour\<rparr>\<rparr>)"
    by (intro sstep.time lstep.tick kstep.tick) (simp_all add: demo_system_def life0_def)
  then have 6: "demo_step ?T demo_late" by (simp add: demo_system_def life0_def)
  from 1 2 3 4 5 6 show ?thesis unfolding 0 by (meson converse_rtranclp_into_rtranclp rtranclp.rtrancl_refl)
qed

lemma demo_seals:
  obtains S' where "demo_step demo_late S'" "\<not> asked_only (lf_world (sy_life demo_late)) (lf_world (sy_life S'))"
proof -
  obtain rs w where run: "NewHandler flat_prims demo_lib (server_config flat_prims demo_keyed_server (\<lambda>bearer. None))
    demo_now demo_bearer_rq demo_world = (rs, w)" "\<not> asked_only demo_world w" by (rule demo_bearer_run)
  then have h: "decided_handles flat_prims demo_lib demo_keyed_server demo_bearer_rq None demo_bearer_rq demo_world rs w"
    unfolding decided_handles_def by blast
  have "lstep (decided_handles flat_prims demo_lib demo_keyed_server demo_bearer_rq None) 0 (sy_life demo_late)
      ((sy_life demo_late)\<lparr>lf_pending := [] @ [], lf_answered := lf_answered (sy_life demo_late) @ [(demo_bearer_rq, rs)],
         lf_world := w\<rparr>)"
    using h by (intro lstep.answer) (simp_all add: demo_system_def life0_def)
  from sstep.answer [of demo_late "[]" demo_bearer_rq None 0 "[]", OF _ this, of "\<lambda>t. ()"] show thesis
    by (rule that) (simp_all add: demo_system_def life0_def run(2))
qed

section \<open>A shutdown\<close>

lemma demo_shutdown:
  obtains L where "(lstep h 0)\<^sup>*\<^sup>* (life0 0 w) L" "lf_main L = Returned None" "lf_log L = [''chainbind-api: listening'', ''chainbind-api: shutting down'']"
proof -
  let ?a = "(life0 0 w)\<lparr>lf_signalled := True\<rparr>"
  let ?b = "?a\<lparr>lf_main := Draining (lf_clock ?a + shutdownGrace), lf_closing := True,
       lf_log := lf_log ?a @ [''chainbind-api: shutting down'']\<rparr>"
  let ?c = "?b\<lparr>lf_main := Receiving\<rparr>"
  let ?d = "?c\<lparr>lf_serving := Sending (serve_result ErrServerClosed)\<rparr>"
  let ?e = "?d\<lparr>lf_serving := Ended, lf_chan := lf_chan ?d @ [None]\<rparr>"
  have "lstep h 0 (life0 0 w) ?a" by (rule lstep.signal) (simp add: life0_def)
  moreover have "lstep h 0 ?a ?b" by (rule lstep.select_signal) (simp_all add: life0_def)
  moreover have "lstep h 0 ?b ?c"
    using lstep.drained [of ?b _ h 0 None] by (simp add: life0_def)
  moreover have "lstep h 0 ?c ?d" by (rule lstep.serve_returns) (simp_all add: life0_def)
  moreover have "lstep h 0 ?d ?e" by (rule lstep.send) (simp_all add: life0_def serve_result_def)
  moreover have "lstep h 0 ?e (?e\<lparr>lf_chan := [], lf_main := Returned None\<rparr>)"
    by (rule lstep.receive) (simp_all add: life0_def)
  ultimately have "(lstep h 0)\<^sup>*\<^sup>* (life0 0 w) (?e\<lparr>lf_chan := [], lf_main := Returned None\<rparr>)"
    by (meson converse_rtranclp_into_rtranclp rtranclp.rtrancl_refl)
  then show thesis by (rule that) (simp_all add: life0_def)
qed

section \<open>An authority that never answers\<close>

definition projection0 :: projection where
  "projection0 = \<lparr> pj_Amount = py_Amount (pl_Payment payload0), pj_Currency = co_Currency (pl_Checkout payload0),
     pj_MerchantID = co_MerchantID (pl_Checkout payload0) \<rparr>"

lemma demo_projection0: "Project (PayloadValue payload0) = Inr projection0"
  by (simp add: Project_def asPayload_def projection0_def)

definition demo_silent :: deadline_verifier where
  "demo_silent = server_authority demo_server (\<lambda>now rq. Silent)"

lemma demo_silent_sent:
  obtains rq where "check_sent (dv_verifier demo_silent, ref, projection_val q) = Some rq"
proof -
  have "first_fail (check_request_val (projection_val q)) = None"
    using no_fail_sections by (simp add: check_request_val_def)
  then show thesis
    using that by (auto simp: check_sent_def demo_silent_def server_authority_def demo_server_def intent_New_def
        marshal_def built_def demo_client_def split: sum.splits option.splits)
qed

section \<open>A network that answers at once\<close>

definition demo_net :: network where
  "demo_net now rq = Answers 0 200 ''application/json'' [(0, encode demo_answer)]"

definition demo_prompt :: deadline_verifier where
  "demo_prompt = server_authority demo_server demo_net"

definition demo_prompt_signer :: deadline_signer where
  "demo_prompt_signer = \<lparr> ds_signer = demo_vault, ds_timeout = startupTimeout, ds_net = demo_net \<rparr>"

lemma demo_at_once: "at_once demo_net (cl_do demo_client)"
  by (simp add: at_once_def demo_net_def demo_client_def json_response_def)

lemma demo_timed_seal:
  obtains q pkg s where "Project (PayloadValue payload0) = Inr q"
    "timed_Seal flat_prims (demo_shell_request q) demo_prompt_signer (Wrapper flat_prims) demo_prompt None 0 demo_world
       = Some (0, Inr pkg, s)"
proof -
  obtain q pkg s where q: "Project (PayloadValue payload0) = Inr q"
    and sealed: "Seal flat_prims (demo_shell_request q) (vault_port flat_prims (demo_vault, None)) (Wrapper flat_prims)
       (http_authority (intent_New demo_client ''k'' None)) demo_world = (Inr pkg, s)"
    by (rule demo_shell_sealed)
  have same: "signer_over (ds_signer demo_prompt_signer) (cl_do demo_client) = demo_vault"
    "verifier_over (dv_verifier demo_prompt) (cl_do demo_client) = intent_New demo_client ''k'' None"
    by (simp_all add: demo_prompt_signer_def demo_prompt_def server_authority_def demo_server_def signer_over_def
        verifier_over_def dialled_def demo_vault_def intent_New_def)
  have timeouts: "0 < dv_timeout demo_prompt" "0 < ds_timeout demo_prompt_signer"
    and nets: "at_once (dv_net demo_prompt) (cl_do demo_client)" "at_once (ds_net demo_prompt_signer) (cl_do demo_client)"
    by (simp_all add: demo_prompt_def demo_prompt_signer_def server_authority_def startupTimeout_def demo_at_once)
  have "timed_Seal flat_prims (demo_shell_request q) demo_prompt_signer (Wrapper flat_prims) demo_prompt None 0 demo_world
       = Some (0, Inr pkg, s)"
    unfolding timed_Seal_at_once [OF timeouts past_Some(2) nets] same sealed by simp
  with q show thesis by (rule that)
qed

end
