(* ===== verification/Logger.thy ===== *)
theory Logger
  imports Config Go_Json
begin

text \<open>
  \<^verbatim>\<open>internal/platform/logger/logger.go\<close>: a \<^verbatim>\<open>slog\<close> handler that puts a correlation id on every
  record, and \<^verbatim>\<open>Config.LogValue\<close>. A record's JSON is the list of its members, names repeated
  where the handler repeats them; the text of times, levels and strings is left to \<^verbatim>\<open>slog\<close>.
  The lemmas say that the handler nests as \<^verbatim>\<open>slog\<close>'s own would, and what reaches the top level.
\<close>

section \<open>Attributes\<close>

text \<open>
  \<^verbatim>\<open>slog.Attr\<close> and \<^verbatim>\<open>slog.Value\<close>: \<open>SNil\<close> is the zero value, \<open>SAny\<close> any value but a group with its
  JSON, \<open>SValuer\<close> a \<^verbatim>\<open>LogValuer\<close> with what it resolves to.
\<close>

datatype svalue = SNil | SAny goval | SGroup "sattr list" | SValuer svalue
  and sattr = Attr (at_Key: string) (at_Value: svalue)

definition slog_String :: "string \<Rightarrow> string \<Rightarrow> sattr" where
  "slog_String key val = Attr key (SAny (VStr val))"

definition isEmptyGroup :: "svalue \<Rightarrow> bool" where
  "isEmptyGroup v \<longleftrightarrow> v = SGroup []"

definition GroupValue :: "sattr list \<Rightarrow> svalue" where
  "GroupValue as = SGroup (filter (\<lambda>a. \<not> isEmptyGroup (at_Value a)) as)"

definition AddAttrs :: "sattr list \<Rightarrow> sattr list \<Rightarrow> sattr list" where
  "AddAttrs as new = as @ filter (\<lambda>a. \<not> isEmptyGroup (at_Value a)) new"

text \<open>
  What \<^verbatim>\<open>slog.JSONHandler\<close> writes for an attribute: nothing for the zero attribute or a group
  without members, the members themselves for a group without a name.
\<close>

fun value_members :: "string \<Rightarrow> svalue \<Rightarrow> (string \<times> goval) list"
  and attr_members :: "sattr \<Rightarrow> (string \<times> goval) list"
  and attrs_members :: "sattr list \<Rightarrow> (string \<times> goval) list" where
  "value_members key SNil = (if key = [] then [] else [(key, VNull)])"
| "value_members key (SAny v) = [(key, v)]"
| "value_members key (SGroup as) =
     (let ms = attrs_members as in
      if ms = [] then [] else if key = [] then ms else [(key, VObj ms)])"
| "value_members key (SValuer v) = value_members key v"
| "attr_members (Attr key v) = value_members key v"
| "attrs_members [] = []"
| "attrs_members (a # as) = attr_members a @ attrs_members as"

record log_record =
  lr_Time :: "string option"
  lr_Level :: string
  lr_Message :: string
  lr_Attrs :: "sattr list"

text \<open>The zero time is left out.\<close>

definition record_members :: "log_record \<Rightarrow> (string \<times> goval) list" where
  "record_members r =
     (case lr_Time r of None \<Rightarrow> [] | Some t \<Rightarrow> [(''time'', VStr t)])
     @ [(''level'', VStr (lr_Level r)), (''msg'', VStr (lr_Message r))] @ attrs_members (lr_Attrs r)"

section \<open>The correlation id\<close>

definition correlationIDAttr :: string where
  "correlationIDAttr = ''correlation_id''"

text \<open>A context is the id it carries; \<open>fresh\<close> is what \<^verbatim>\<open>crypto/rand.Text\<close> would return.\<close>

type_synonym context_id = "string option"

definition WithCorrelationID :: "context_id \<Rightarrow> string \<Rightarrow> context_id" where
  "WithCorrelationID ctx i = Some i"

definition CorrelationID :: "context_id \<Rightarrow> string" where
  "CorrelationID ctx = (case ctx of None \<Rightarrow> [] | Some i \<Rightarrow> i)"

definition EnsureCorrelationID :: "string \<Rightarrow> context_id \<Rightarrow> context_id \<times> string" where
  "EnsureCorrelationID fresh ctx =
     (let i = CorrelationID ctx in
      if i \<noteq> [] then (ctx, i) else (WithCorrelationID ctx fresh, fresh))"

section \<open>The handler\<close>

record groupOrAttrs =
  ga_group :: string
  ga_attrs :: "sattr list"

text \<open>\<open>ch_base\<close> is the level of the base handler, a \<^verbatim>\<open>slog.JSONHandler\<close>.\<close>

record correlationHandler =
  ch_base :: int
  ch_goas :: "groupOrAttrs list"

definition logger_New :: "int \<Rightarrow> correlationHandler" where
  "logger_New level = \<lparr> ch_base = level, ch_goas = [] \<rparr>"

definition Enabled :: "correlationHandler \<Rightarrow> int \<Rightarrow> bool" where
  "Enabled h level \<longleftrightarrow> ch_base h \<le> level"

definition withGoa :: "correlationHandler \<Rightarrow> groupOrAttrs \<Rightarrow> correlationHandler" where
  "withGoa h goa = h\<lparr>ch_goas := ch_goas h @ [goa]\<rparr>"

definition WithAttrs :: "correlationHandler \<Rightarrow> sattr list \<Rightarrow> correlationHandler" where
  "WithAttrs h attrs = (if length attrs = 0 then h else withGoa h \<lparr> ga_group = [], ga_attrs = attrs \<rparr>)"

definition WithGroup :: "correlationHandler \<Rightarrow> string \<Rightarrow> correlationHandler" where
  "WithGroup h name = (if name = [] then h else withGoa h \<lparr> ga_group = name, ga_attrs = [] \<rparr>)"

text \<open>The loop of \<open>Handle\<close>, over the chain from its innermost link.\<close>

fun replay :: "groupOrAttrs list \<Rightarrow> sattr list \<Rightarrow> sattr list" where
  "replay [] attrs = attrs"
| "replay (goa # goas) attrs =
     (if ga_group goa \<noteq> [] then
        (if length attrs = 0 then replay goas attrs
         else replay goas [Attr (ga_group goa) (GroupValue attrs)])
      else replay goas (ga_attrs goa @ attrs))"

definition Handle :: "correlationHandler \<Rightarrow> context_id \<Rightarrow> log_record \<Rightarrow> log_record" where
  "Handle h ctx r =
     (let attrs = replay (rev (ch_goas h)) (lr_Attrs r);
          out = r\<lparr>lr_Attrs := []\<rparr>;
          i = CorrelationID ctx in
      if i \<noteq> [] then
        let attrs = filter (\<lambda>a. at_Key a \<noteq> correlationIDAttr) attrs in
        out\<lparr>lr_Attrs := AddAttrs (AddAttrs [] attrs) [slog_String correlationIDAttr i]\<rparr>
      else out\<lparr>lr_Attrs := AddAttrs [] attrs\<rparr>)"

section \<open>The configuration in a log\<close>

definition LogValue :: "config \<Rightarrow> svalue" where
  "LogValue c = GroupValue
     [slog_String ''vault_addr'' (cf_VaultAddr c), slog_String ''vault_token'' ''[REDACTED]'',
      slog_String ''vault_transit_key'' (cf_VaultTransitKey c), slog_String ''issuer_id'' (cf_IssuerID c),
      slog_String ''intent_authority_url'' (cf_IntentAuthorityURL c),
      slog_String ''keycloak_issuer'' (cf_KeycloakIssuer c),
      slog_String ''keycloak_jwks_url'' (cf_KeycloakJWKSURL c),
      slog_String ''keycloak_audience'' (cf_KeycloakAudience c), slog_String ''http_addr'' (cf_HTTPAddr c),
      slog_String ''audiences_file'' (cf_AudiencesFile c)]"

section \<open>Nesting\<close>

text \<open>What \<^verbatim>\<open>slog\<close>'s own handler writes for a chain of links, from the outermost on.\<close>

fun nested :: "groupOrAttrs list \<Rightarrow> sattr list \<Rightarrow> (string \<times> goval) list" where
  "nested [] attrs = attrs_members attrs"
| "nested (goa # goas) attrs =
     (if ga_group goa \<noteq> [] then
        (let ms = nested goas attrs in if ms = [] then [] else [(ga_group goa, VObj ms)])
      else attrs_members (ga_attrs goa) @ nested goas attrs)"

lemma attrs_members_append [simp]: "attrs_members (as @ bs) = attrs_members as @ attrs_members bs"
  by (induction as) simp_all

lemma attr_members_empty: "isEmptyGroup (at_Value a) \<Longrightarrow> attr_members a = []"
  by (cases a) (auto simp: isEmptyGroup_def)

lemma attrs_members_filter [simp]: "attrs_members (filter (\<lambda>a. \<not> isEmptyGroup (at_Value a)) as) = attrs_members as"
  by (induction as) (auto simp: attr_members_empty)

lemma AddAttrs_members [simp]: "attrs_members (AddAttrs as new) = attrs_members as @ attrs_members new"
  by (simp add: AddAttrs_def)

text \<open>Deriving a logger leaves its base alone, its level included.\<close>

lemma derived_Enabled [simp]:
  "Enabled (WithAttrs h attrs) level = Enabled h level" "Enabled (WithGroup h name) level = Enabled h level"
  by (simp_all add: Enabled_def WithAttrs_def WithGroup_def withGoa_def)

lemma replay_append: "replay (xs @ ys) attrs = replay ys (replay xs attrs)"
  by (induction xs arbitrary: attrs) simp_all

lemma replay_nested: "attrs_members (replay (rev goas) attrs) = nested goas attrs"
proof (induction goas)
  case (Cons goa goas)
  then have "replay (rev goas) attrs = [] \<Longrightarrow> nested goas attrs = []" by (metis attrs_members.simps(1))
  with Cons show ?case by (auto simp: replay_append GroupValue_def Let_def)
qed simp

section \<open>The top level\<close>

text \<open>An attribute whose name is its member's name: not a group without a name.\<close>

fun unnamed_group :: "string \<Rightarrow> svalue \<Rightarrow> bool" where
  "unnamed_group key (SGroup as) \<longleftrightarrow> key = []"
| "unnamed_group key (SValuer v) \<longleftrightarrow> unnamed_group key v"
| "unnamed_group key v \<longleftrightarrow> False"

definition named :: "sattr \<Rightarrow> bool" where
  "named a \<longleftrightarrow> \<not> unnamed_group (at_Key a) (at_Value a)"

lemma value_members_key: "\<not> unnamed_group key v \<Longrightarrow> km \<in> set (value_members key v) \<Longrightarrow> fst km = key"
  by (induction v) (auto simp: Let_def split: if_splits)

lemma attr_members_key: "named a \<Longrightarrow> km \<in> set (attr_members a) \<Longrightarrow> fst km = at_Key a"
  using value_members_key by (cases a) (auto simp: named_def)

lemma attrs_members_mem: "km \<in> set (attrs_members as) \<longleftrightarrow> (\<exists>a \<in> set as. km \<in> set (attr_members a))"
  by (induction as) auto

lemma Handle_members:
  assumes "CorrelationID ctx \<noteq> []"
  shows "record_members (Handle h ctx r) =
    (case lr_Time r of None \<Rightarrow> [] | Some t \<Rightarrow> [(''time'', VStr t)])
    @ [(''level'', VStr (lr_Level r)), (''msg'', VStr (lr_Message r))]
    @ attrs_members (filter (\<lambda>a. at_Key a \<noteq> correlationIDAttr) (replay (rev (ch_goas h)) (lr_Attrs r)))
    @ [(correlationIDAttr, VStr (CorrelationID ctx))]"
  using assms by (simp add: Handle_def Let_def record_members_def slog_String_def)

lemma Handle_plain:
  assumes "CorrelationID ctx = []"
  shows "record_members (Handle h ctx r) =
    (case lr_Time r of None \<Rightarrow> [] | Some t \<Rightarrow> [(''time'', VStr t)])
    @ [(''level'', VStr (lr_Level r)), (''msg'', VStr (lr_Message r))] @ nested (ch_goas h) (lr_Attrs r)"
  using assms by (simp add: Handle_def Let_def record_members_def replay_nested)

lemma Handle_top:
  assumes "CorrelationID ctx \<noteq> []" "\<forall>a \<in> set (replay (rev (ch_goas h)) (lr_Attrs r)). named a"
  shows "filter (\<lambda>km. fst km = correlationIDAttr) (record_members (Handle h ctx r))
    = [(correlationIDAttr, VStr (CorrelationID ctx))]"
proof -
  let ?as = "filter (\<lambda>a. at_Key a \<noteq> correlationIDAttr) (replay (rev (ch_goas h)) (lr_Attrs r))"
  have "filter (\<lambda>km. fst km = correlationIDAttr) (attrs_members ?as) = []"
    using assms(2) attr_members_key by (fastforce simp: filter_empty_conv attrs_members_mem)
  then show ?thesis
    unfolding Handle_members [OF assms(1)] by (simp add: correlationIDAttr_def split: option.split)
qed

text \<open>A group without a name slips past the filter, and its member comes before the context's id.\<close>

lemma shadowed:
  "record_members (Handle (logger_New level) (Some ''real'')
     \<lparr> lr_Time = None, lr_Level = ''INFO'', lr_Message = ''m'',
       lr_Attrs = [Attr [] (GroupValue [slog_String ''correlation_id'' ''forged''])] \<rparr>) =
   [(''level'', VStr ''INFO''), (''msg'', VStr ''m''), (''correlation_id'', VStr ''forged''),
    (''correlation_id'', VStr ''real'')]"
  by (simp add: Handle_def logger_New_def CorrelationID_def correlationIDAttr_def record_members_def
      slog_String_def GroupValue_def isEmptyGroup_def Let_def AddAttrs_def)

text \<open>Attributes added to a logger are attributes of each of its records.\<close>

lemma WithAttrs_members:
  "nested (ch_goas (WithAttrs h as)) attrs = nested (ch_goas h) (as @ attrs)"
proof -
  have "nested (goas @ [\<lparr> ga_group = [], ga_attrs = as \<rparr>]) attrs = nested goas (as @ attrs)" for goas
    by (induction goas) simp_all
  then show ?thesis by (simp add: WithAttrs_def withGoa_def)
qed

end
