(* ===== verification/Sentinels.thy ===== *)
theory Sentinels
  imports Prelude
begin

text \<open>
  The sentinel errors of every package, each with the text it is declared with, as the packages
  declare them. Together they are all the sentinels of the model, and no text is declared
  twice: an error that is logged or returned by its text still says which sentinel it was.
\<close>

definition core_sentinels :: "(sentinel \<times> string) list" where
  "core_sentinels =
     [(ErrUnsupportedSpecVersion, ''chainbind: unsupported spec_version''),
      (ErrMalformedPackage, ''chainbind: malformed package''),
      (ErrSignatureInvalid, ''chainbind: signature invalid''),
      (ErrHashMismatch, ''chainbind: hash mismatch''),
      (ErrBindingMismatch, ''chainbind: binding mismatch''),
      (ErrIntentNotEvaluated, ''chainbind: intent not evaluated''),
      (ErrIntentDenied, ''chainbind: intent denied by authority''),
      (ErrIntentInvalid, ''chainbind: intent invalid''),
      (ErrBindingCollision, ''chainbind: binding name collision''),
      (ErrNilPackage, ''chainbind: verify: package is nil''),
      (ErrIntegrityCheckFailed, ''chainbind: open: integrity check failed'')]"

definition crypto_sentinels :: "(sentinel \<times> string) list" where
  "crypto_sentinels = [(ErrDecryptionFailed, ''chainbind: decryption failed'')]"

definition seal_sentinels :: "(sentinel \<times> string) list" where
  "seal_sentinels =
     [(ErrNoAudiences, ''chainbind: seal requires at least one audience''),
      (ErrDuplicateAudience, ''chainbind: seal: duplicate audience name''),
      (ErrSegmentMissing, ''chainbind: seal: missing segment plaintext for audience'')]"

definition profile_sentinels :: "(sentinel \<times> string) list" where
  "profile_sentinels =
     [(ErrUnsupportedPayload, ''agenticcheckout: unsupported payload type''),
      (ErrMissingSegmentHash, ''agenticcheckout: missing segment plain_hash'')]"

definition unwrap_sentinels :: "(sentinel \<times> string) list" where
  "unwrap_sentinels = [(ErrUnwrapFailed, ''keywrap/x25519: unwrap failed'')]"

definition wrap_sentinels :: "(sentinel \<times> string) list" where
  "wrap_sentinels = [(ErrWrapFailed, ''keywrap/x25519: wrap failed'')]"

definition local_sentinels :: "(sentinel \<times> string) list" where
  "local_sentinels = [(ErrKeySize, ''chainbind/signer/local: invalid private key size'')]"

definition mock_sentinels :: "(sentinel \<times> string) list" where
  "mock_sentinels =
     [(ErrUnknownIntentRef, ''mock: unknown intent_ref''),
      (ErrDuplicateIntentRef, ''mock: duplicate intent_ref in seed data'')]"

definition vault_sentinels :: "(sentinel \<times> string) list" where
  "vault_sentinels =
     [(ErrVaultUnreachable, ''vault: unreachable''),
      (ErrVaultResponse, ''vault: invalid response''),
      (ErrKeyTypeUnsupported, ''vault: unsupported key type''),
      (ErrKeyVersionMismatch, ''vault: signature key version does not match pinned version'')]"

definition intent_sentinels :: "(sentinel \<times> string) list" where
  "intent_sentinels =
     [(ErrAuthorityUnreachable, ''http: intent authority unreachable''),
      (ErrAuthorityResponse, ''http: intent authority returned an invalid response'')]"

definition keycloak_sentinels :: "(sentinel \<times> string) list" where
  "keycloak_sentinels =
     [(ErrUnauthorized, ''keycloak: unauthorized''),
      (ErrForbidden, ''keycloak: forbidden: missing '' @ ''role_issuer_admin'' @ '' role'')]"

definition config_sentinels :: "(sentinel \<times> string) list" where
  "config_sentinels = [(ErrMissingConfig, ''config: missing required environment variables'')]"

definition all_sentinels :: "(sentinel \<times> string) list" where
  "all_sentinels = core_sentinels @ crypto_sentinels @ seal_sentinels @ profile_sentinels @ unwrap_sentinels
     @ wrap_sentinels @ local_sentinels @ mock_sentinels @ vault_sentinels @ intent_sentinels
     @ keycloak_sentinels @ config_sentinels"

lemmas sentinel_lists = all_sentinels_def core_sentinels_def crypto_sentinels_def seal_sentinels_def
  profile_sentinels_def unwrap_sentinels_def wrap_sentinels_def local_sentinels_def mock_sentinels_def
  vault_sentinels_def intent_sentinels_def keycloak_sentinels_def config_sentinels_def

lemma sentinels_declared: "s \<in> set (map fst all_sentinels)"
  by (cases s) (simp_all add: sentinel_lists)

lemma declared_once: "distinct (map fst all_sentinels)" "distinct (map snd all_sentinels)"
proof -
  show "distinct (map fst all_sentinels)" by (simp add: sentinel_lists)
  show "distinct (map snd all_sentinels)" unfolding sentinel_lists by code_simp
qed

lemma declared_text: "(s, t) \<in> set all_sentinels \<Longrightarrow> sentinel_text s = t"
  by (auto simp: sentinel_lists sentinel_text_def)

lemma sentinel_text_inject: "sentinel_text s = sentinel_text s' \<longleftrightarrow> s = s'"
proof
  assume eq: "sentinel_text s = sentinel_text s'"
  obtain t t' where t: "(s, t) \<in> set all_sentinels" "(s', t') \<in> set all_sentinels"
    using sentinels_declared [of s] sentinels_declared [of s'] by auto
  then have "t = t'" using eq declared_text by metis
  with t declared_once(2) show "s = s'" by (metis distinct_map inj_onD snd_conv prod.inject)
qed simp

end
