(* ===== verification/Spec2Isabelle.thy ===== *)
theory Spec2Isabelle
  imports Demo_System Logger Sentinels
begin

text \<open>
  Verification of chainbind-go.

  The program. chainbind binds an agent's execution to the authorization it was given. An
  issuer seals a payload, split into one segment per audience, into a signed package
  (\<^verbatim>\<open>pkg/chainbind/seal.go\<close>); anybody verifies it without a key
  (\<^verbatim>\<open>verify.go\<close>); an audience opens its own segment and no other
  (\<^verbatim>\<open>open.go\<close>). The core calls through four ports (\<^verbatim>\<open>ports.go\<close>): a
  signer, a key wrapper, an intent authority and the bindings of a profile. Around it are the
  adapters (\<^verbatim>\<open>internal/adapters\<close>: the X25519 wrapper, a local signer, the Vault signer, a
  mock authority in memory, the authority behind HTTP, the Keycloak authorizer, the HTTP API)
  and the commands (\<^verbatim>\<open>cmd\<close>: the command line, the API server, the mock authority's server).

  Conventions. A Go string is a list of bytes (\<open>string\<close>), a byte slice a list of 8-bit words
  (\<open>bytes\<close>), or \<open>gobytes\<close> where nil and empty are told apart; a map is a finite map, ranged over
  in an order that is either an argument or irrelevant by a lemma. A function that may fail
  returns \<open>err + 'a\<close>; a sentinel is a constructor, \<^verbatim>\<open>%w\<close> is \<open>Wrapped\<close>, \<^verbatim>\<open>errors.Is\<close> is
  \<open>err_is\<close>. Entropy and effects are a \<open>world\<close> that the calls thread: the bytes still to be drawn
  and the trace of what was asked, pinged, drawn, encrypted, wrapped, zeroed and signed. Where what
  an operation returns does not depend on the world, \<open>Verify_w\<close> is the operation with its world and
  \<open>Verify\<close> what it returns (\<open>answer_of\<close>). Go names are
  kept, with a prefix where two packages share one (\<open>mock_New\<close>, \<open>vault_New\<close>).

  What the repository only calls is a parameter: the cryptographic primitives and
  \<^verbatim>\<open>jcs.Transform\<close> (the record \<open>prims\<close>, with \<open>gcm_ok\<close>, \<open>aes_ok\<close>, \<open>ecdh_ok\<close>,
  \<open>ed25519_pair\<close>, \<open>sha256_ok\<close> and \<open>jcs_total\<close> as their documented laws), the decoding of JSON
  numbers to floats (\<open>float_lib\<close>), the lax half of \<^verbatim>\<open>time.Parse\<close> (\<open>read_lib\<close>), the transport
  (\<open>client\<close>), the JOSE library (\<open>pr_parse\<close>), and what a process finds outside it (\<open>cli_env\<close>,
  \<open>startup\<close>). Collision resistance is never assumed: a theorem that would need it ends in the
  colliding inputs.

  The theories, from the bottom up.
  \<^item> \<open>Prelude\<close>: bytes, maps, errors, the world. \<open>Go_Text\<close>, \<open>Go_Json\<close>, \<open>Go_Read\<close>,
    \<open>Go_Decode\<close>, \<open>Go_Any\<close>, \<open>Go_Time\<close>, \<open>Go_Indent\<close>, \<open>Go_Http\<close>: what is used of Go's
    standard library, down to the text: hex, base64, quoting, JSON written, read (as the pushdown
    machine of \<^verbatim>\<open>scanner.go\<close>) and decoded, RFC 3339 times, requests, routes and clients.
    The main facts are round trips: \<open>read_render\<close>, \<open>unquote_escape\<close>, \<open>parse_time_text\<close>,
    \<open>read_indent\<close>. \<open>Primitives\<close>: the record \<open>prims\<close> and its laws.
  \<^item> \<open>Canonical\<close> (\<^verbatim>\<open>canonical.go\<close>), \<open>Package_Format\<close> and \<open>Package_Wire\<close>
    (\<^verbatim>\<open>package.go\<close>), \<open>Segment_Crypto\<close> (\<^verbatim>\<open>aad.go\<close>, \<^verbatim>\<open>crypto.go\<close>),
    \<open>Bindings_Engine\<close> (\<^verbatim>\<open>bindings.go\<close>), \<open>Signing_View\<close> (\<^verbatim>\<open>signview.go\<close>),
    \<open>Ports\<close> (\<^verbatim>\<open>ports.go\<close>): each hash, commitment, view and encoding determines its inputs up
    to an explicit collision, and a package survives its JSON.
  \<^item> \<open>Seal\<close>, \<open>Verify\<close>, \<open>Open_Segment\<close>: the three operations, each with its
    specification (\<open>package_sealed\<close>, \<open>level1_valid\<close> with \<open>intent_valid\<close>, \<open>opens\<close>) and the
    refinement to it; \<open>Lifecycle\<close>: from one to the next; \<open>Seal_Live\<close>: when sealing succeeds;
    \<open>Seal_Wire\<close>: that a sealed package is text.
  \<^item> \<open>Key_Wrap\<close> (\<^verbatim>\<open>keywrap/x25519\<close>), \<open>Local_Signer\<close> (\<^verbatim>\<open>signer/local\<close>),
    \<open>Mock_Intent\<close> (\<^verbatim>\<open>intent/mock\<close>), \<open>Vault_Signer\<close> (\<^verbatim>\<open>signer/vault\<close>),
    \<open>Intent_Http\<close> (\<^verbatim>\<open>intent/http\<close>), \<open>Keycloak\<close> (\<^verbatim>\<open>auth/keycloak\<close>): the adapters. The
    locales \<open>signing_port\<close>, \<open>wrapping_port\<close> and \<open>authority_port\<close> of \<open>Ports\<close> are interpreted on
    them (\<open>local_signer\<close>, \<open>vault_signer\<close>, \<open>x25519\<close>, \<open>mock\<close>, \<open>remote\<close>), and \<open>profile_port\<close> on
    the checkout profile (\<open>checkout\<close>). The key cache that
    Keycloak requests share is a step relation \<open>kstep\<close> over any number of requests, with an
    invariant by rule induction.
  \<^item> \<open>Checkout_Profile\<close>, \<open>Checkout_Wire\<close>, \<open>Checkout_Seal\<close>
    (\<^verbatim>\<open>profile/agenticcheckout\<close>): payload, segments, projection and bindings of the one profile.
  \<^item> \<open>Http_Shell\<close> and \<open>Shell_Api\<close> (\<^verbatim>\<open>adapters/http\<close>): the routes, their answers, and what
    the API promises. \<open>Config\<close> and \<open>Logger\<close> (\<^verbatim>\<open>platform\<close>): configuration from the
    environment, and the log handler with its nesting. \<open>Api_Main\<close> (\<^verbatim>\<open>cmd/chainbind-api\<close>): the
    server put together. \<open>Mock_Authority\<close> (\<^verbatim>\<open>cmd/mock-authority\<close>): its server, and that the
    HTTP adapter over it refines the authority in memory. \<open>Cli\<close> and \<open>Cli_Run\<close>
    (\<^verbatim>\<open>cmd/chainbind\<close>): flags, files, the three subcommands, exit codes and output.
  \<^item> \<open>Server_Life\<close>: the two server processes from \<^verbatim>\<open>main\<close> to exit. \<^verbatim>\<open>serveUntilSignal\<close> is the step
    relation \<open>lstep\<close> over the listening goroutine, its channel, the requests in flight and the
    main goroutine, with the invariants \<open>life_ok\<close> and \<open>timely\<close> by rule induction.
  \<^item> \<open>Deadlines\<close>: contexts with a deadline and a network whose answers take time
    (\<^verbatim>\<open>withDeadline\<close> of both HTTP adapters). Every operation sends at most one request: that is the
    locale \<open>single_request\<close>, interpreted on each of them, on construction of the Vault signer and on
    \<open>Verify\<close> over the HTTP adapter; what it says carries the untimed models over to time.
  \<^item> \<open>Seal_Time\<close>: \<open>Seal\<close> over both remote adapters under their deadlines, and that over a network which
    answers at once it is the untimed \<open>Seal\<close>. \<open>Sentinels\<close>: the sentinel errors of every package, and
    that no two share a text.
  \<^item> \<open>Access\<close>: the interfaces \<^verbatim>\<open>Authorizer\<close> and \<^verbatim>\<open>Prober\<close> of the HTTP shell as the locales
    \<open>authorizing_port\<close> (interpreted on Keycloak over the shared cache) and \<open>probing_port\<close>, and the
    deployed server as one system \<open>sstep\<close>: the process, the key cache, and the decisions of the
    authorizer, each made at one moment and acted on at a later one.
  \<^item> \<open>Demo\<close>, \<open>Demo_Shell\<close>, \<open>Demo_Cli\<close>, \<open>Demo_Api\<close>, \<open>Demo_System\<close>: concrete deployments on which the
    witnesses apply the properties: primitives without strength that satisfy the laws, a checkout, a
    server over a client with one answer, a process with six files.

  The properties, stated below: sealing then verifying and opening, in the core, over HTTP and at the
  command line; \<open>Verify\<close> and \<open>Open\<close> against their specifications; what a signature, a root, a
  commitment and associated data pin down; that sealing asks first, fails closed, has exactly its
  effects and zeroes its keys; what verification does not see; the answers to errors and denials;
  what any request can bring about, who was let in to seal and under keys of what age; that calls and shutdowns end in time; what exit
  codes mean; and the smaller contracts.

  Fuel and bounds. The loop of the Concat KDF runs on fuel, as many rounds as bytes are asked for, which
  \<open>kdf_terminates\<close> shows it never exhausts; every other loop is structural or has its measure. JSON reading keeps the
  nesting limit of Go, 10000, and a package nests far less (\<open>depth_package\<close>). Size limits of bodies
  are the code's (\<open>maxResponseBody\<close>, \<open>maxSealRequestBody\<close>, \<open>maxVerifyRequestBody\<close>); nothing
  evaluates them digit by digit. Times are in nanoseconds, unbounded; the bounded delays of a process
  that is not scheduled at once are a parameter \<open>lag\<close>. Counters of RFC 3394 and lengths of the KDF are kept at their width.

  Not modelled. The fetch of a key set and the call of the authorizer are steps of the key cache and of
  the system, not events of the world; the clock the JOSE library compares the times of a token with is
  part of its parameter. A write that fails leaves nothing behind, and a byte that \<^verbatim>\<open>GenerateKey\<close> reads and
  drops is not counted as drawn. Outside \<open>Deadlines\<close> a context is the error its call would give; cancellation by the
  client is a deadline. The requests of a server are answered one after the other, in any order:
  handlers share only the key cache, whose steps do interleave, as do the decisions of the authorizer
  with the answers. \<open>timed_Seal\<close> repeats the guards of \<open>Seal\<close> that come before its calls, to place the
  calls in time. Of \<^verbatim>\<open>net/http\<close>: TLS, the
  connection, the header timeout (\<open>readHeaderTimeout\<close> is a constant only), the body of a redirect,
  response headers but the content type. Of \<^verbatim>\<open>encoding/json\<close>: the texts of its errors, the spare capacity of a slice
  that a repeated member shrinks. The offset in a base64 error. What \<^verbatim>\<open>flag\<close> prints. Of
  \<^verbatim>\<open>log/slog\<close>: times, the names of levels, escaping; of the lines the servers log, their
  messages. Memory: that a zeroed key is
  gone is an event of the trace, not a fact about copies.
\<close>

section \<open>Properties\<close>

text \<open>C1: a package that \<open>Seal\<close> produced verifies completely: a verifier that trusts the signing key for the issuer, recomputes the same bindings and asks an authority that still gives the same constraints hash gets a report that is OK.\<close>

theorem seal_then_verify:
  assumes "Seal P req si w iv s = (Inr p, s')" "signs_for P si pub"
    and "trusts (vo_IssuerKey opt) (sr_Issuer req) si pub"
    and "vo_BindingSpecs opt = sr_BindingSpecs req" "distinct (map bs_name (sr_BindingSpecs req))"
    and "vo_Intent opt = Some iv'"
    and "iv_ConstraintsHash iv' (sr_IntentRef req) = iv_ConstraintsHash iv (sr_IntentRef req)"
  shows "\<exists>r. Verify P (Some p) opt = Inr r \<and> report_OK (Some r)"
proof -
  note sealed = Seal_Inr [OF assms(1)]
  obtain r where r: "Verify P (Some p) opt = Inr r" using Verify_total by blast
  have "level1_valid P p opt" by (rule sealed_level1 [OF sealed assms(2-5)])
  moreover have "intent_valid P p (vo_Intent opt)"
    unfolding assms(6) by (rule sealed_intent [OF sealed assms(7)])
  ultimately show ?thesis using Verify_OK [OF r] assms(4,5) r by auto
qed

theorem seal_then_verify_witness:
  "\<exists>p s r. Seal demo_prims demo_request demo_signer (Wrapper demo_prims) demo_authority demo_world = (Inr p, s)
     \<and> Verify demo_prims (Some p) demo_options = Inr r \<and> report_OK (Some r)"
proof -
  obtain p s where d: "Seal demo_prims demo_request demo_signer (Wrapper demo_prims) demo_authority demo_world = (Inr p, s)"
    by (rule demo_sealed)
  from seal_then_verify [OF d demo_signs_for demo_trusts demo_specs demo_intent refl] d show ?thesis by blast
qed

text \<open>C2: each audience of a sealed package opens its own segment and no other, and gets back the plaintext that was sealed for it. The laws are those of the primitives; the audience owns the private key; its plaintext is not the empty non-nil slice (see the property on the empty plaintext).\<close>

theorem seal_then_open:
  assumes "Seal P req si (Wrapper P) iv s = (Inr p, s')" "signs_for P si pub"
    and "trusts (vo_IssuerKey opt) (sr_Issuer req) si pub"
    and "vo_BindingSpecs opt = sr_BindingSpecs req" "distinct (map bs_name (sr_BindingSpecs req))"
    and "wrapper_laws P" "gcm_ok P" "owns (Wrapper P) req priv aud"
    and "segment_plaintext (sr_Segments req) (au_Name aud) \<noteq> Some []"
  shows "fst (Open P (Some p) priv (Wrapper P) opt t)
    = Inr (au_Name aud, segment_plaintext (sr_Segments req) (au_Name aud))"
proof -
  obtain dek where
    "opens P p priv (Wrapper P) (au_Name aud) (segment_plaintext (sr_Segments req) (au_Name aud)) dek"
    using sealed_opens_wrapper [OF assms(1,6-9)] by blast
  with sealed_level1 [OF Seal_Inr [OF assms(1)] assms(2-5)] Open_Inr [of opt P p priv "Wrapper P" t] assms(4,5)
  show ?thesis by (metis fst_conv)
qed

theorem seal_then_open_witness:
  "\<exists>p s. Seal demo_prims demo_request demo_signer (Wrapper demo_prims) demo_authority demo_world = (Inr p, s)
     \<and> fst (Open demo_prims (Some p) (demo_private 2) (Wrapper demo_prims) demo_options demo_world)
       = Inr (AudienceMerchant, section_bytes (checkout_val (pl_Checkout demo_payload)))"
proof -
  obtain p s where d: "Seal demo_prims demo_request demo_signer (Wrapper demo_prims) demo_authority demo_world = (Inr p, s)"
    by (rule demo_sealed)
  have "segment_plaintext (sr_Segments demo_request) (au_Name (demo_audience AudienceMerchant 2))
      = section_bytes (checkout_val (pl_Checkout demo_payload))"
    by (simp add: segment_plaintext_def demo_request_def demo_audience_def split_of_lookup)
  with seal_then_open [OF d demo_signs_for demo_trusts demo_specs demo_laws(2) demo_gcm_ok demo_owns demo_plaintext] d
  show ?thesis by (auto simp: demo_audience_def)
qed

text \<open>C3: \<open>Verify\<close> never fails on a package, Level 1 of its report is true exactly for the packages the specification \<open>level1_valid\<close> admits (shape, issuer signature over the nine fields, ciphertext hashes, segments root, bindings), and the report is OK exactly when the authority was reached and confirms the intent commitment as well.\<close>

theorem verify_meets_spec:
  assumes "distinct (map bs_name (vo_BindingSpecs opt))"
  shows "\<exists>r. Verify P (Some p) opt = Inr r \<and> (report_Level1 (Some r) \<longleftrightarrow> level1_valid P p opt) \<and>
    (report_OK (Some r) \<longleftrightarrow> level1_valid P p opt \<and> intent_valid P p (vo_Intent opt))"
  using Verify_total [of P p opt] Verify_Level1 [OF _ assms] Verify_OK [OF _ assms] by blast

theorem verify_meets_spec_witness:
  "\<exists>p r. Verify demo_prims (Some p) demo_options = Inr r \<and> report_Level1 (Some r)"
proof -
  obtain p where p: "level1_valid demo_prims p demo_options" using demo_package by blast
  have "distinct (map bs_name (vo_BindingSpecs demo_options))" using demo_specs by simp
  from verify_meets_spec [OF this, of demo_prims p] p show ?thesis by blast
qed

text \<open>C4: \<open>Open\<close> returns a segment exactly when the package passes Level 1 and \<open>opens\<close> relates them: the audience is the only entry of \<open>cnf\<close> with the thumbprint of the caller's key, its data key unwraps, the ciphertext decrypts under the package's own context, and the plaintext has the signed hash. The data key is zeroed.\<close>

theorem open_meets_spec:
  assumes "distinct (map bs_name (vo_BindingSpecs opt))"
  shows "Open P (Some p) priv w opt s = (Inr (a, g), s') \<longleftrightarrow>
    level1_valid P p opt \<and> (\<exists>dek. opens P p priv w a g dek \<and> s' = emit (EvZero dek) s)"
  by (rule Open_Inr [OF assms])

theorem open_meets_spec_witness:
  "\<exists>p dek. Open demo_prims (Some p) (demo_private 2) (Wrapper demo_prims) demo_options demo_world
     = (Inr (AudienceMerchant, section_bytes (checkout_val (pl_Checkout demo_payload))), emit (EvZero dek) demo_world)"
proof -
  obtain p dek where p: "level1_valid demo_prims p demo_options"
    "opens demo_prims p (demo_private 2) (Wrapper demo_prims) AudienceMerchant
       (section_bytes (checkout_val (pl_Checkout demo_payload))) dek" by (rule demo_opens)
  have "distinct (map bs_name (vo_BindingSpecs demo_options))" using demo_specs by simp
  from open_meets_spec [OF this] p show ?thesis by blast
qed

text \<open>C5: sealing fails closed: unless the authority answers, allows the request and gives its constraints hash, \<open>Seal\<close> returns no package, draws no entropy, and has done nothing but ask.\<close>

theorem seal_fails_closed:
  assumes "Seal P req si w iv s = (r, s')"
    and "\<not> (\<exists>d ch. iv_Check iv (sr_IntentRef req) (sr_Projection req) = Inr d \<and> id_Allowed d \<and>
           iv_ConstraintsHash iv (sr_IntentRef req) = Inr ch)"
  shows "(\<exists>e. r = Inl e) \<and> entropy s' = entropy s \<and>
    trace s' \<in> (\<lambda>es. trace s @ es) ` {[], [EvCheck (sr_IntentRef req)],
      [EvCheck (sr_IntentRef req), EvConstraintsHash (sr_IntentRef req)]}"
  by (rule Seal_fails_closed [OF assms])

theorem seal_fails_closed_witness:
  "\<exists>e. fst (Seal demo_prims demo_request demo_signer (Wrapper demo_prims)
     \<lparr> iv_Check = (\<lambda>ref pj. Inr \<lparr> id_Allowed = False, id_Reason = ''no'' \<rparr>),
       iv_ConstraintsHash = (\<lambda>ref. Inr ''h'') \<rparr> demo_world) = Inl e"
proof -
  let ?iv = "\<lparr> iv_Check = (\<lambda>ref pj. Inr \<lparr> id_Allowed = False, id_Reason = ''no'' \<rparr>),
       iv_ConstraintsHash = (\<lambda>ref. Inr ''h'') \<rparr> :: intent_verifier"
  obtain r s where run: "Seal demo_prims demo_request demo_signer (Wrapper demo_prims) ?iv demo_world = (r, s)"
    by fastforce
  from seal_fails_closed [OF this] show ?thesis unfolding run by simp
qed

text \<open>C6: the whole trace of a successful \<open>Seal\<close>: the authority is asked, the package id is drawn, then for every audience in order a 32-byte key and a 12-byte nonce are drawn, one encryption is made under them with the segment's own associated data, the key is wrapped and zeroed, and at the end exactly one signature is made, over the signing view of the package returned. The draws consume the entropy in consecutive stretches, so no key or nonce is ever reused.\<close>

theorem seal_effects:
  assumes "Seal P req si (Wrapper P) iv s = (Inr p, s')"
  shows "\<exists>idb ds view es. length idb = 16 \<and> pk_package_id p = ''pkg_'' @ hex_encode idb \<and>
    list_all2 (draws_ok P (mf_aad_context (pk_manifest p))) (sr_Audiences req) ds \<and>
    BuildSigningView P p = Inr view \<and>
    es = [EvCheck (sr_IntentRef req), EvConstraintsHash (sr_IntentRef req), EvRand idb]
      @ concat (map2 segment_events (sr_Audiences req) ds) @ [EvKid, EvSign view] \<and>
    trace s' = trace s @ es \<and> entropy s = concat (drawn es) @ entropy s'"
  using x25519.Seal_events [OF assms] unfolding advances_def by blast

theorem seal_effects_witness:
  "\<exists>p s view. Seal demo_prims demo_request demo_signer (Wrapper demo_prims) demo_authority demo_world = (Inr p, s)
     \<and> BuildSigningView demo_prims p = Inr view \<and> last (trace s) = EvSign view"
proof -
  obtain p s where d: "Seal demo_prims demo_request demo_signer (Wrapper demo_prims) demo_authority demo_world = (Inr p, s)"
    by (rule demo_sealed)
  from seal_effects [OF d] d show ?thesis by auto
qed

text \<open>C7: what a signature pins down: two packages that pass Level 1 with the same signed bytes agree on all nine signed fields and, for every audience, on the ciphertext and tag, unless the pair exhibits a collision of canonicalization or of SHA-256.\<close>

theorem signature_binds:
  assumes "level1_valid P p opt" "level1_valid P q opt'" "BuildSigningView P p = BuildSigningView P q"
  shows "jcs_collision P (view_val p) (view_val q) \<or>
    (same_signed_content p q \<and>
     (\<forall>a \<in> set (mf_segment_order (pk_manifest p)). \<forall>sp sq.
        fmlookup (pk_segments p) a = Some sp \<longrightarrow> fmlookup (pk_segments q) a = Some sq \<longrightarrow>
        segment_bytes sp = segment_bytes sq \<or>
        (\<exists>b b'. segment_bytes sp = Some b \<and> segment_bytes sq = Some b' \<and> sha_collision P b b')))"
  by (rule level1_binds [OF assms])

theorem signature_binds_witness: "\<exists>p. level1_valid demo_prims p demo_options \<and> same_signed_content p p"
proof -
  obtain p where p: "level1_valid demo_prims p demo_options" using demo_package by blast
  from signature_binds [OF p p refl] p show ?thesis by (auto simp: jcs_collision_def)
qed

text \<open>C8: an API server that started, over a Vault whose signatures are what their labels say, verifies what it seals: the body of a 200 answer of the seal route, sent to the verify route, is answered with 200 and a report that is OK after one question to the authority, unless it is longer than the verify route reads.\<close>

theorem deployed_roundtrip:
  assumes "api_run st = Inr sv" "vault_honest P (sv_signer sv) pubs"
    and "pubs (vs_version (sv_signer sv)) = sv_issuerPub sv"
    and "utf8_valid (st_env st ''CHAINBIND_ISSUER_ID'')" "utf8_valid (st_env st ''CHAINBIND_VAULT_TRANSIT_KEY'')"
    and "jcs_total P" "time_valid now" "seal_target rq"
    and "NewHandler P R (server_config P sv authz) now rq w = (rs, w')" "rs_status rs = 200"
    and "verify_target rq'" "hasJSONContentType rq'" "rq_body rq' = rs_body rs"
  shows "maxVerifyRequestBody < length (rs_body rs) \<or>
    (\<exists>r ref. NewHandler P R (server_config P sv authz') now' rq' v
         = (shell_writeJSON 200 (report_val r), emit (EvConstraintsHash ref) v) \<and> report_OK (Some r))"
proof (cases "maxVerifyRequestBody < length (rs_body rs)")
  case False
  have "NewHandler P R (server_config P sv authz') now' rq' v = NewHandler P R (server_config P sv authz) now' rq' v"
    by (simp add: NewHandler_verify [OF assms(11)] config_opts_def server_config_def)
  with shell_roundtrip [OF assms(9,8,10) started_well_configured [OF assms(1-5)] assms(6,7,11-13)] False
  show ?thesis by simp
qed simp

theorem deployed_roundtrip_witness:
  "\<exists>rs w. NewHandler flat_prims demo_lib demo_config demo_now demo_seal_rq demo_world = (rs, w) \<and> rs_status rs = 200 \<and>
     (maxVerifyRequestBody < length (rs_body rs) \<or>
      (\<exists>r ref. NewHandler flat_prims demo_lib demo_config demo_now (shell_request ''/v1/packages/verify'' (rs_body rs)) w
             = (shell_writeJSON 200 (report_val r), emit (EvConstraintsHash ref) w) \<and> report_OK (Some r)))"
proof -
  obtain rs w where run: "NewHandler flat_prims demo_lib demo_config demo_now demo_seal_rq demo_world = (rs, w)"
    "rs_status rs = 200" by (rule demo_shell_run)
  have vault: "vault_honest flat_prims (sv_signer demo_server) (\<lambda>n. replicate 32 0)"
    "(\<lambda>n :: int. replicate 32 (0 :: byte)) (vs_version (sv_signer demo_server)) = sv_issuerPub demo_server"
    using demo_vault_honest by (simp_all add: demo_server_def)
  have env: "utf8_valid (st_env demo_startup ''CHAINBIND_ISSUER_ID'')"
    "utf8_valid (st_env demo_startup ''CHAINBIND_VAULT_TRANSIT_KEY'')" by (simp_all add: demo_startup_def)
  have laws: "jcs_total flat_prims" by (rule demo_jcs)
  have rq: "seal_target demo_seal_rq" by (simp add: demo_seal_rq_def demo_targets)
  have body: "rq_body (shell_request ''/v1/packages/verify'' (rs_body rs)) = rs_body rs" by (simp add: shell_request_def)
  from deployed_roundtrip [OF demo_started vault env laws demo_now_valid rq run(1) [unfolded demo_config_def] run(2)
      demo_targets(2) shell_request_json body] run
  show ?thesis unfolding demo_config_def by blast
qed

text \<open>C9: what a successful \<open>seal\<close> wrote, to a file or to standard output, \<open>verify\<close> on the same authority and the other half of the signing key accepts with exit code 0.\<close>

theorem cli_seal_then_verify:
  assumes "runSeal P env args w = (r, w')" "cr_exit r = exitOK" "jcs_total P" "time_valid (ce_now env)"
    and "parse_flags seal_flags args fmempty = Some m" "flags_text m"
    and "parse_flags verify_flags args' fmempty = Some m'" "\<not> flag_bool m' ''json''"
    and "flag_str m' ''authority-seed-dir'' = flag_str m ''authority-seed-dir''"
      "flag_str m' ''authority-url'' = flag_str m ''authority-url''" "same_authority env env'"
    and "flag_str m' ''package'' \<noteq> []" "ce_ReadFile env' (flag_str m' ''package'') = Inr (output_of r)"
    and "flag_str m' ''issuer-key'' \<noteq> []"
      "key_files P env (flag_str m ''signing-key'') env' (flag_str m' ''issuer-key'') pub"
  shows "cr_exit (runVerify P env' args') = exitOK"
  by (rule cli_seal_verify [OF assms])

theorem cli_seal_then_verify_witness:
  "\<exists>r w. runSeal flat_prims (demo_env []) demo_seal_args demo_world = (r, w) \<and> cr_exit r = exitOK \<and>
     cr_exit (runVerify flat_prims (demo_env (output_of r)) demo_verify_args) = exitOK"
proof -
  obtain r w where run: "runSeal flat_prims (demo_env []) demo_seal_args demo_world = (r, w)" "cr_exit r = exitOK"
    by (rule demo_cli_run)
  have now: "time_valid (ce_now (demo_env []))" using demo_now_valid by simp
  have flags: "flag_str demo_verify_set ''authority-seed-dir'' = flag_str demo_seal_set ''authority-seed-dir''"
    "flag_str demo_verify_set ''authority-url'' = flag_str demo_seal_set ''authority-url''"
    "flag_str demo_verify_set ''package'' \<noteq> []" "flag_str demo_verify_set ''issuer-key'' \<noteq> []"
    "ce_ReadFile (demo_env (output_of r)) (flag_str demo_verify_set ''package'') = Inr (output_of r)"
    by (simp_all add: demo_flags)
  have keys: "key_files flat_prims (demo_env []) (flag_str demo_seal_set ''signing-key'') (demo_env (output_of r))
      (flag_str demo_verify_set ''issuer-key'') (replicate 32 0)"
    unfolding demo_flags by (rule demo_key_files)
  from cli_seal_then_verify [OF run demo_jcs now demo_parsed_flags(1) demo_flags_text demo_parsed_flags(2) demo_flags(20)
      flags(1,2) demo_same_authority flags(3,5,4) keys] run
  show ?thesis by blast
qed

text \<open>C10: what a successful \<open>seal\<close> wrote, \<open>open\<close> with the private key of one of the audiences opens: it exits with 0, names the audience, and writes exactly the audience's section of the payload.\<close>

theorem cli_seal_then_open:
  assumes "runSeal P env args w = (r, w')" "cr_exit r = exitOK" "jcs_total P" "time_valid (ce_now env)"
    and "wrapper_laws P" "gcm_ok P"
    and "parse_flags seal_flags args fmempty = Some m" "flags_text m"
    and "loadAudiences env (flag_str m ''audiences'') = Inr audiences" "holds_key P audiences priv a"
      "readPayload env (flag_str m ''payload'') = Inr payload"
    and "parse_flags open_flags args' fmempty = Some m'"
    and "flag_str m' ''package'' \<noteq> []" "ce_ReadFile env' (flag_str m' ''package'') = Inr (output_of r)"
    and "flag_str m' ''key'' \<noteq> []" "loadRecipientPrivateKey env' (flag_str m' ''key'') = Inr priv"
    and "flag_str m' ''issuer-key'' \<noteq> []"
      "key_files P env (flag_str m ''signing-key'') env' (flag_str m' ''issuer-key'') pub"
    and "flag_str m' ''out'' \<noteq> []" "\<And>data. ce_WriteFile env' (flag_str m' ''out'') data = None"
  shows "fst (runOpen P env' args' v) =
    \<lparr> cr_exit = exitOK, cr_stdout = [], cr_stderr = println (''opened audience: '' @ a),
      cr_file = Some (flag_str m' ''out'', raw_bytes (segment_plaintext (split_of payload) a)) \<rparr>"
  by (rule cli_seal_open [OF assms])

theorem cli_seal_then_open_witness:
  "\<exists>r w. runSeal flat_prims (demo_env []) demo_seal_args demo_world = (r, w) \<and>
     cr_exit (fst (runOpen flat_prims (demo_env (output_of r)) demo_open_args w)) = exitOK \<and>
     cr_file (fst (runOpen flat_prims (demo_env (output_of r)) demo_open_args w))
       = Some (''plain'', raw_bytes (segment_plaintext (split_of payload0) AudienceMerchant))"
proof -
  obtain r w where run: "runSeal flat_prims (demo_env []) demo_seal_args demo_world = (r, w)" "cr_exit r = exitOK"
    by (rule demo_cli_run)
  have now: "time_valid (ce_now (demo_env []))" using demo_now_valid by simp
  have loaded: "loadAudiences (demo_env []) (flag_str demo_seal_set ''audiences'') = Inr demo_loaded"
    "readPayload (demo_env []) (flag_str demo_seal_set ''payload'') = Inr payload0"
    unfolding demo_flags by (rule demo_loads, rule demo_payload_file)
  have flags: "flag_str demo_open_set ''package'' \<noteq> []" "flag_str demo_open_set ''key'' \<noteq> []"
    "flag_str demo_open_set ''issuer-key'' \<noteq> []" "flag_str demo_open_set ''out'' \<noteq> []"
    "ce_ReadFile (demo_env (output_of r)) (flag_str demo_open_set ''package'') = Inr (output_of r)"
    "ce_WriteFile (demo_env (output_of r)) (flag_str demo_open_set ''out'') data = None" for data
    by (simp_all add: demo_flags)
  have key: "loadRecipientPrivateKey (demo_env (output_of r)) (flag_str demo_open_set ''key'') = Inr (demo_private 2)"
    unfolding demo_flags by (rule demo_keys_loaded(3))
  have keys: "key_files flat_prims (demo_env []) (flag_str demo_seal_set ''signing-key'') (demo_env (output_of r))
      (flag_str demo_open_set ''issuer-key'') (replicate 32 0)"
    unfolding demo_flags by (rule demo_key_files)
  from cli_seal_then_open [OF run demo_jcs now demo_wraps demo_parsed_flags(1) demo_flags_text loaded(1) demo_holds
      loaded(2) demo_parsed_flags(3) flags(1,5,2) key flags(3) keys flags(4,6), of w] run
  show ?thesis by (auto simp: demo_flags)
qed

text \<open>C11: the authority behind HTTP refines the one in process: over a connection that delivers, sealing against the mock authority's server with the HTTP adapter has the effects of sealing against the authority itself, and returns the same packages.\<close>

theorem http_authority_refines:
  assumes "connected C base (newHandler P S ctx)" "plain_ref (sr_IntentRef req)"
    "flat_projection (sr_Projection req)" "floats_reread (sv_floats S)" "sha256_ok P"
    and "\<And>d. mock_Check (sv_floats S) (sv_order S) ctx (sv_auths S) (sr_IntentRef req) (sr_Projection req)
           = Some (Inr d) \<Longrightarrow> length (encode (decision_val d)) \<le> maxResponseBody"
  shows "snd (Seal P req si w (http_authority \<lparr> hv_baseURL = base, hv_client = C \<rparr>) s)
       = snd (Seal P req si w (in_process P S ctx) s) \<and>
    (\<forall>p. fst (Seal P req si w (http_authority \<lparr> hv_baseURL = base, hv_client = C \<rparr>) s) = Inr p \<longleftrightarrow>
         fst (Seal P req si w (in_process P S ctx) s) = Inr p)"
  using http_seal_refines [OF assms] by blast

theorem http_authority_refines_witness:
  "snd (Seal demo_prims demo_request demo_signer (Wrapper demo_prims)
          (http_authority \<lparr> hv_baseURL = ''http://a'', hv_client = loopback ''http://a'' (newHandler demo_prims demo_mock None) \<rparr>)
          demo_world)
   = snd (Seal demo_prims demo_request demo_signer (Wrapper demo_prims) (in_process demo_prims demo_mock None) demo_world)"
proof -
  have "length (encode (decision_val d)) \<le> maxResponseBody"
    if "mock_Check (sv_floats demo_mock) (sv_order demo_mock) None (sv_auths demo_mock) (sr_IntentRef demo_request)
          (sr_Projection demo_request) = Some (Inr d)" for d
    using that demo_mock_check allowed_fits by simp
  from http_authority_refines [OF connected_loopback demo_mock_hyps(1-3) demo_sha256_ok this] show ?thesis by blast
qed

text \<open>C12: sealing succeeds: for a well-formed request that the authority allows, recipient keys that can be agreed with, bindings that compute, a signer that answers and 16 bytes of entropy plus 76 per audience, \<open>Seal\<close> returns a package.\<close>

theorem seal_succeeds:
  assumes "sealing_laws P" "sealable P req" "\<forall>spec \<in> set (sr_BindingSpecs req). computes req spec"
    and "answers si" "authorizes iv req" "entropy_needed req \<le> length (entropy s)"
  shows "\<exists>p s'. Seal P req si (Wrapper P) iv s = (Inr p, s')"
  by (rule Seal_live [OF assms])

theorem seal_succeeds_witness:
  "\<exists>p s. Seal demo_prims demo_request demo_signer (Wrapper demo_prims) demo_authority demo_world = (Inr p, s)"
  by (rule seal_succeeds [OF demo_laws(1) demo_sealable demo_computes demo_answers demo_authorizes demo_entropy])

text \<open>C13: the segments root determines the order of the audiences and the hash of every plaintext, or its two inputs are a collision.\<close>

theorem segments_root_binds:
  assumes "SegmentsRoot P order ph = Inr r" "SegmentsRoot P order' ph' = Inr r"
  shows "(order = order' \<and> ph = ph') \<or> digest_collision P (root_val order ph) (root_val order' ph')"
  by (rule SegmentsRoot_inject [OF assms])

theorem segments_root_binds_witness:
  "\<exists>r. SegmentsRoot demo_prims [''a''] (fmupd ''a'' ''h'' fmempty) = Inr r \<and>
     (\<forall>order ph. SegmentsRoot demo_prims order ph = Inr r \<longrightarrow>
        (order = [''a''] \<and> ph = fmupd ''a'' ''h'' fmempty) \<or>
        digest_collision demo_prims (root_val order ph) (root_val [''a''] (fmupd ''a'' ''h'' fmempty)))"
proof -
  have "wf_val (root_val [''a''] (fmupd ''a'' ''h'' fmempty))"
    by (simp add: root_val_def vlist_def segment_root_entry_val_def lookup_or_empty_def)
  then obtain r where r: "SegmentsRoot demo_prims [''a''] (fmupd ''a'' ''h'' fmempty) = Inr r"
    by (auto simp: SegmentsRoot_Inr JCS_demo)
  with segments_root_binds [OF _ r] show ?thesis by blast
qed

text \<open>C14: the intent commitment determines the three things it commits to: the authorization, its constraints hash and the segments root. Two different inputs with one commitment are a collision of canonicalization or of SHA-256.\<close>

theorem intent_commitment_binds:
  assumes "IntentCommitment P r c s = Inr x" "IntentCommitment P r' c' s' = Inr x"
  shows "(r = r' \<and> c = c' \<and> s = s')
    \<or> digest_collision P (intent_commitment_val r c s) (intent_commitment_val r' c' s')"
  by (rule IntentCommitment_inject [OF assms])

theorem intent_commitment_binds_witness:
  "\<exists>x. IntentCommitment demo_prims ''r'' ''c'' ''s'' = Inr x \<and>
     take 11 x = ''ctx:sha256:'' \<and> \<not> digest_collision demo_prims
       (intent_commitment_val ''r'' ''c'' ''s'') (intent_commitment_val ''r'' ''c'' ''s'')"
proof -
  have "wf_val (intent_commitment_val ''r'' ''c'' ''s'')" by (simp add: intent_commitment_val_def)
  then obtain x where x: "IntentCommitment demo_prims ''r'' ''c'' ''s'' = Inr x"
    by (simp add: IntentCommitment_def JCS_demo)
  from intent_commitment_binds [OF x x] IntentCommitment_prefix [OF x] x show ?thesis
    by (auto simp: digest_collision_def jcs_collision_def sha_collision_def)
qed

text \<open>C15: the associated data of a segment determines its package, tenant, environment, audience and version, so a ciphertext spliced elsewhere is checked against different data, unless canonicalization collides.\<close>

theorem aad_binds:
  assumes "AAD P ctx a v = Inr d" "AAD P ctx' a' v' = Inr d"
  shows "(ctx = ctx' \<and> a = a' \<and> v = v')
    \<or> jcs_collision P (aad_input_val ctx a v) (aad_input_val ctx' a' v')"
  by (rule AAD_inject [OF assms])

theorem aad_binds_witness:
  "\<exists>d. AAD demo_prims \<lparr> ac_package_id = ''p'', ac_tenant_id = ''t'', ac_environment = ''e'' \<rparr> ''a'' ''1.0.0'' = Inr d
     \<and> AAD demo_prims \<lparr> ac_package_id = ''p'', ac_tenant_id = ''t'', ac_environment = ''e'' \<rparr> ''b'' ''1.0.0'' \<noteq> Inr d"
proof -
  let ?ctx = "\<lparr> ac_package_id = ''p'', ac_tenant_id = ''t'', ac_environment = ''e'' \<rparr>"
  have wf: "wf_val (aad_input_val ?ctx ''a'' ''1.0.0'')" "wf_val (aad_input_val ?ctx ''b'' ''1.0.0'')"
    by (simp_all add: aad_input_val_def)
  then obtain d where d: "AAD demo_prims ?ctx ''a'' ''1.0.0'' = Inr d" by (simp add: AAD_def JCS_demo)
  have "\<not> jcs_collision demo_prims (aad_input_val ?ctx ''a'' ''1.0.0'') (aad_input_val ?ctx ''b'' ''1.0.0'')"
    using render_inject [OF wf] by (auto simp: jcs_collision_def JCS_demo wf aad_input_val_def)
  with aad_binds [OF d, of ?ctx "''b''" "''1.0.0''"] d show ?thesis by auto
qed

text \<open>C16: every run of \<open>Seal\<close>, failed ones included, asks the authority before anything else happens: whatever follows the two questions follows an allowance and a constraints hash.\<close>

theorem seal_asks_first:
  assumes "Seal P req si (Wrapper P) iv s = (r, s')"
  shows "\<exists>es. trace s' = trace s @ es \<and>
    (es \<in> {[], [EvCheck (sr_IntentRef req)]} \<or>
     take 2 es = [EvCheck (sr_IntentRef req), EvConstraintsHash (sr_IntentRef req)] \<and>
     (drop 2 es \<noteq> [] \<longrightarrow>
        (\<exists>d ch. iv_Check iv (sr_IntentRef req) (sr_Projection req) = Inr d \<and> id_Allowed d \<and>
           iv_ConstraintsHash iv (sr_IntentRef req) = Inr ch)))"
  using x25519.Seal_authority_first [OF assms] unfolding advances_def by blast

theorem seal_asks_first_witness:
  "\<exists>p s es. Seal demo_prims demo_request demo_signer (Wrapper demo_prims) demo_authority demo_world = (Inr p, s)
     \<and> trace s = trace demo_world @ es"
proof -
  obtain p s where d: "Seal demo_prims demo_request demo_signer (Wrapper demo_prims) demo_authority demo_world = (Inr p, s)"
    by (rule demo_sealed)
  from seal_asks_first [OF d] d show ?thesis by blast
qed

text \<open>C17: whatever the outcome of sealing a segment, either nothing happened or a 32-byte data key was drawn first and zeroed last, and nothing was signed in between.\<close>

theorem segment_key_zeroed:
  assumes "sealSegment P (Wrapper P) aadCtx aud g s = (r, s')"
  shows "(\<exists>e. r = Inl e) \<and> s' = s \<or>
    (\<exists>dek es. length dek = 32 \<and> advances s s' (EvRand dek # es @ [EvZero dek]) \<and>
       (\<forall>q. EvSign q \<notin> set es))"
  by (rule x25519.sealSegment_zeroes [OF assms])

theorem segment_key_zeroed_witness:
  "\<exists>r s'. sealSegment demo_prims (Wrapper demo_prims)
       \<lparr> ac_package_id = ''p'', ac_tenant_id = ''t'', ac_environment = ''e'' \<rparr>
       \<lparr> au_Name = ''a'', au_PublicKey = [], au_Kid = ''k'' \<rparr> None \<lparr> entropy = replicate 40 1, trace = [] \<rparr> = (r, s')
     \<and> ((\<exists>e. r = Inl e) \<and> s' = \<lparr> entropy = replicate 40 1, trace = [] \<rparr> \<or>
        (\<exists>dek. length dek = 32 \<and> last (trace s') = EvZero dek))"
proof -
  obtain r s' where run: "sealSegment demo_prims (Wrapper demo_prims)
       \<lparr> ac_package_id = ''p'', ac_tenant_id = ''t'', ac_environment = ''e'' \<rparr>
       \<lparr> au_Name = ''a'', au_PublicKey = [], au_Kid = ''k'' \<rparr> None \<lparr> entropy = replicate 40 1, trace = [] \<rparr> = (r, s')"
    by fastforce
  from segment_key_zeroed [OF run] run show ?thesis by (auto simp: advances_def)
qed

text \<open>C18: what a request to the API can have done. A POST to the seal route, of JSON type, with a bearer the authorizer admits and a body that decodes to a payload: what sealing does. A POST to the verify route, by anybody: one question to the authority about the constraints hash, and only for a package that passes Level 1 under the issuer key the server trusts. A GET of the ready route: a ping of Vault and, if that answered, of the authority. Any other request: nothing; none but the first draws entropy, asks for an allowance, wraps or signs. (What the authorizer fetches from Keycloak is a step of its own system, not an event of this world.)\<close>

theorem api_effects:
  assumes "NewHandler P R cfg now rq w = (rs, w')" "w' \<noteq> w"
  shows "seal_target rq \<and> hc_Authorizer cfg (bearerToken rq) = None \<and> hasJSONContentType rq \<and>
      (\<exists>payload. json_Decode dec_payload payload0 maxSealRequestBody (rq_body rq) = Inr payload) \<or>
    verify_target rq \<and> hasJSONContentType rq \<and>
      (\<exists>p. json_Decode (dec_package R) package0 maxVerifyRequestBody (rq_body rq) = Inr p \<and>
         level1_valid P p \<lparr> vo_IssuerKey = Some (hc_IssuerKey cfg), vo_Intent = Some (hc_IntentVerifier cfg),
           vo_BindingSpecs = BindingSpecs P \<rparr> \<and>
         w' = emit (EvConstraintsHash (in_intent_ref (pk_intent p))) w) \<or>
    ready_target rq \<and>
      (w' = emit (EvPing ''vault'') w \<or> w' = emit (EvPing ''intent-authority'') (emit (EvPing ''vault'') w))"
  by (rule shell_effects [OF assms])

theorem api_effects_witness:
  "\<exists>rs w. NewHandler flat_prims demo_lib demo_config demo_now demo_seal_rq demo_world = (rs, w) \<and> w \<noteq> demo_world \<and>
     (seal_target demo_seal_rq \<or> verify_target demo_seal_rq \<or> ready_target demo_seal_rq)"
proof -
  obtain rs w where run: "NewHandler flat_prims demo_lib demo_config demo_now demo_seal_rq demo_world = (rs, w)"
    and sealed: "\<exists>projection pkg. rs = shell_writeJSON 200 (package_val pkg) \<and>
      Seal flat_prims (demo_shell_request projection) (vault_port flat_prims (demo_vault, None)) (Wrapper flat_prims)
        (http_authority (intent_New demo_client ''k'' None)) demo_world = (Inr pkg, w)"
    by (rule demo_shell_run)
  from sealed have "w \<noteq> demo_world" using Seal_moves by blast
  from api_effects [OF run this] run this show ?thesis by blast
qed

text \<open>C19: at every moment of every interleaving of the serving process, its key cache and the decisions of the authorizer, a step of a started server that does more than ask whether an authorization stands or a dependency answers is the answer to a request for the seal route that was let in at some earlier moment: at that moment its token carried the role under the configured issuer and audience and a key set that was published no longer ago than the TTL of the cache, the fetch timeout and the lag of the lock together. The bound is on the moment of the decision; the effect comes later, and how much later is up to whoever sends the body.\<close>

theorem deployed_access:
  assumes "api_run st = Inr sv" "(sstep P R sv published lag)\<^sup>*\<^sup>* (system0 sv now w) S" "0 \<le> lag"
    and "sstep P R sv published lag S S'" "\<not> asked_only (lf_world (sy_life S)) (lf_world (sy_life S'))"
  shows "\<exists>rq rs ta t tok. lf_answered (sy_life S') = lf_answered (sy_life S) @ [(rq, rs)] \<and> seal_target rq \<and>
    (rq, None, ta) \<in> set (sy_decided S) \<and> ta \<le> lf_clock (sy_life S) \<and>
    st_parse st (published t) (st_env st ''CHAINBIND_KEYCLOAK_ISSUER'') (st_env st ''CHAINBIND_KEYCLOAK_AUDIENCE'')
      (bearerToken rq) = Inr tok \<and> hasRole tok RoleIssuerAdmin \<and>
    t \<le> ta \<and> ta \<le> t + defaultCacheTTL + defaultFetchTimeout + lag"
  by (rule system_access [OF assms]) blast

theorem deployed_access_witness:
  "\<exists>S S' rq rs. demo_step\<^sup>*\<^sup>* (system0 demo_keyed_server 0 demo_world) S \<and> demo_step S S' \<and>
     lf_answered (sy_life S') = lf_answered (sy_life S) @ [(rq, rs)] \<and> seal_target rq \<and>
     (\<forall>(rq', r, ta) \<in> set (sy_decided S). ta + defaultCacheTTL + defaultFetchTimeout < lf_clock (sy_life S))"
proof -
  obtain S' where S': "demo_step demo_late S'" "\<not> asked_only (lf_world (sy_life demo_late)) (lf_world (sy_life S'))"
    by (rule demo_seals)
  have late: "\<forall>(rq', r, ta) \<in> set (sy_decided demo_late).
      ta + defaultCacheTTL + defaultFetchTimeout < lf_clock (sy_life demo_late)"
    by (simp add: demo_system_def defaultCacheTTL_def defaultFetchTimeout_def)
  from deployed_access [OF demo_keyed_started demo_serving _ S'] obtain rq rs where
    "lf_answered (sy_life S') = lf_answered (sy_life demo_late) @ [(rq, rs)]" "seal_target rq" by auto
  with demo_serving S'(1) late show ?thesis by blast
qed

text \<open>C20: \<open>verify\<close> exits with 0 only when an authority was configured and the report of \<open>Verify\<close> on the package read, under the issuer key read, is OK: a structural check alone is never a success.\<close>

theorem cli_verify_exit:
  assumes "cr_exit (runVerify P env args) = exitOK"
  shows "\<exists>m iv pub pkg report. parse_flags verify_flags args fmempty = Some m \<and>
    verify_reports P env m (Some iv) pub pkg report \<and> report_OK (Some report) \<and>
    (flag_str m ''authority-seed-dir'' \<noteq> [] \<or> flag_str m ''authority-url'' \<noteq> [])"
proof -
  have "cr_exit (runVerify P env args) \<in> {exitOK, exitNegative}" using assms by simp
  then obtain m iv pub pkg report where m: "parse_flags verify_flags args fmempty = Some m"
    and rep: "verify_reports P env m iv pub pkg report"
    and code: "cr_exit (runVerify P env args) = (if report_OK (Some report) then exitOK else exitNegative)"
    by (rule runVerify_answer)
  from code assms have ok: "report_OK (Some report)" by (simp add: exit_codes split: if_splits)
  have "iv \<noteq> None"
    using OK_needs_authority [OF _ ok] rep BindingSpecs_distinct by (fastforce simp: verify_reports_def)
  then obtain v where v: "iv = Some v" by blast
  have "flag_str m ''authority-seed-dir'' \<noteq> [] \<or> flag_str m ''authority-url'' \<noteq> []"
    using rep v resolve_None [of P env "flag_str m ''authority-seed-dir''" "flag_str m ''authority-url''"]
    by (auto simp: verify_reports_def)
  with m rep ok v show ?thesis by blast
qed

theorem cli_verify_exit_witness:
  "\<exists>pkg. cr_exit (runVerify flat_prims (demo_env pkg) demo_verify_args) = exitOK \<and>
     (\<exists>m. parse_flags verify_flags demo_verify_args fmempty = Some m \<and> flag_str m ''authority-url'' \<noteq> [])"
proof -
  obtain pkg where pkg: "cr_exit (runVerify flat_prims (demo_env pkg) demo_verify_args) = exitOK"
    by (rule demo_cli_verifies)
  from cli_verify_exit [OF pkg] pkg show ?thesis by (auto simp: demo_parsed_flags demo_flags)
qed

text \<open>C21: bytes leave \<open>open\<close> only as a plaintext that was released: whatever is on standard output or in the file is a segment of a package that passes Level 1 under the given issuer key, opened with the given private key.\<close>

theorem cli_open_releases:
  assumes "runOpen P env args w = (r, w')" "cr_stdout r \<noteq> [] \<or> cr_file r \<noteq> None"
  shows "\<exists>m priv pub pkg a g dek. parse_flags open_flags args fmempty = Some m \<and> open_asks env m priv pub pkg \<and>
    level1_valid P pkg (open_options P pub) \<and> opens P pkg priv (Wrapper P) a g dek \<and> w' = emit (EvZero dek) w \<and>
    cr_exit r \<in> {exitOK, exitOperational} \<and>
    (case cr_file r of None \<Rightarrow> cr_stdout r \<in> {raw_bytes g, raw_bytes g @ [10]}
     | Some f \<Rightarrow> cr_stdout r = [] \<and> f = (flag_str m ''out'', raw_bytes g))"
proof -
  obtain m priv pub pkg a g where s: "parse_flags open_flags args fmempty = Some m" "open_asks env m priv pub pkg"
    "Open P (Some pkg) priv (Wrapper P) (open_options P pub) w = (Inr (a, g), w')"
    "writeOutput env (flag_str m ''out'') (raw_bytes g)
       = (fst (writeOutput env (flag_str m ''out'') (raw_bytes g)), cr_stdout r, cr_file r)"
    "cr_exit r = (if fst (writeOutput env (flag_str m ''out'') (raw_bytes g)) = None then exitOK else exitOperational)"
    using assms by (rule runOpen_released)
  have "distinct (map bs_name (vo_BindingSpecs (open_options P pub)))"
    by (simp add: open_options_def BindingSpecs_distinct)
  from s(3) [unfolded Open_Inr [OF this]] obtain dek where
    "level1_valid P pkg (open_options P pub)" "opens P pkg priv (Wrapper P) a g dek" "w' = emit (EvZero dek) w" by blast
  moreover have "case cr_file r of None \<Rightarrow> cr_stdout r \<in> {raw_bytes g, raw_bytes g @ [10]}
     | Some f \<Rightarrow> cr_stdout r = [] \<and> f = (flag_str m ''out'', raw_bytes g)"
    using s(4) assms(2) writeOutput_bytes by blast
  ultimately show ?thesis using s(1,2,5) by (metis insertCI)
qed

theorem cli_open_releases_witness:
  "\<exists>pkg. cr_file (fst (runOpen flat_prims (demo_env pkg) demo_open_args demo_world)) \<noteq> None \<and>
     (\<exists>m priv pub p. open_asks (demo_env pkg) m priv pub p \<and> level1_valid flat_prims p (open_options flat_prims pub))"
proof -
  obtain pkg r w where run: "runOpen flat_prims (demo_env pkg) demo_open_args demo_world = (r, w)" "cr_file r \<noteq> None"
    by (rule demo_cli_opens)
  have "cr_stdout r \<noteq> [] \<or> cr_file r \<noteq> None" using run(2) by blast
  from cli_open_releases [OF run(1) this] obtain m priv pub p where
    "open_asks (demo_env pkg) m priv pub p" "level1_valid flat_prims p (open_options flat_prims pub)" by blast
  moreover have "cr_file (fst (runOpen flat_prims (demo_env pkg) demo_open_args demo_world)) \<noteq> None" using run by simp
  ultimately show ?thesis by blast
qed

text \<open>C22: the API server exits with code 0 only after a clean shutdown: all the required variables were set and it started, a signal was received, and every request it had accepted has been answered. A listener that fails, and a shutdown that runs into its grace period, are exit code 1.\<close>

theorem clean_exit:
  assumes "api_main P R st lag now w logged 0 served"
  shows "missing_in (st_env st) = [] \<and>
    (\<exists>sv L. api_run st = Inr sv \<and> served = Some L \<and> lf_signalled L \<and> lf_pending L = [] \<and>
       mset (map fst (lf_answered L)) = mset (lf_accepted L))"
proof -
  obtain sv L where run: "served = Some L" "api_run st = Inr sv" "lf_signalled L" "lf_pending L = []"
    "mset (map fst (lf_answered L)) = mset (lf_accepted L)" using assms by (rule api_exit_0)
  obtain cfg where "Load (st_env st) = Inr cfg" using run(2) by (rule api_run_Inr)
  then have "missing_in (st_env st) = []" by (simp add: Load_cases split: if_splits)
  with run show ?thesis by blast
qed

theorem clean_exit_witness:
  "\<exists>L. api_main flat_prims demo_lib demo_startup 0 0 demo_world
     [''chainbind-api: configuration loaded'', ''chainbind-api: listening'', ''chainbind-api: shutting down''] 0 (Some L) \<and>
     lf_signalled L \<and> lf_pending L = []"
proof -
  obtain L where L: "(lstep (api_handles flat_prims demo_lib demo_server) 0)\<^sup>*\<^sup>* (life0 0 demo_world) L"
    "lf_main L = Returned None" "lf_log L = [''chainbind-api: listening'', ''chainbind-api: shutting down'']"
    by (rule demo_shutdown)
  have "main_end None = ([], 0)" by (simp add: main_end_def)
  from api_main.served [OF demo_started L(1,2) this]
  have "api_main flat_prims demo_lib demo_startup 0 0 demo_world
     [''chainbind-api: configuration loaded'', ''chainbind-api: listening'', ''chainbind-api: shutting down''] 0 (Some L)"
    by (simp add: L(3))
  from this clean_exit [OF this] show ?thesis by blast
qed

text \<open>C23: from every state a signal has been received in, the server can end without any request being answered and within the grace period: the process is never left waiting for a value that is not sent. And no run leaves it draining beyond its deadline by more than the lag.\<close>

theorem signalled_server_ends:
  assumes "(lstep handles lag)\<^sup>*\<^sup>* (life0 now w) L" "0 \<le> lag" "lf_signalled L" "running L"
  shows "(\<exists>L' r. (lstep handles lag)\<^sup>*\<^sup>* L L' \<and> lf_main L' = Returned r \<and>
      lf_answered L' = lf_answered L \<and> lf_clock L' \<le> lf_clock L + shutdownGrace) \<and>
    (\<forall>t. lf_main L = Draining t \<longrightarrow> lf_clock L \<le> t + lag)"
proof -
  have "life_ok L" "timely lag L"
    using life_ok_reachable [OF assms(1) life_ok_start] timely_reachable [OF assms(1) timely_start assms(2)] by simp_all
  with signalled_ends [OF this assms(2-4), of handles] show ?thesis
    unfolding ends_within_def timely_def by blast
qed

theorem signalled_server_ends_witness:
  "\<exists>L' r. (lstep (\<lambda>rq w rs w'. False) 0)\<^sup>*\<^sup>* ((life0 0 demo_world)\<lparr>lf_signalled := True\<rparr>) L' \<and> lf_main L' = Returned r \<and>
     lf_clock L' \<le> 10000000000"
proof -
  let ?L = "(life0 0 demo_world)\<lparr>lf_signalled := True\<rparr>"
  have "running (life0 0 demo_world)" by (simp add: life0_def)
  then have "(lstep (\<lambda>rq w rs w'. False) 0)\<^sup>*\<^sup>* (life0 0 demo_world) ?L" by (intro r_into_rtranclp lstep.signal)
  moreover have "(0 :: int) \<le> 0" "lf_signalled ?L" "running ?L" by (simp_all add: life0_def)
  ultimately have "\<exists>L' r. (lstep (\<lambda>rq w rs w'. False) 0)\<^sup>*\<^sup>* ?L L' \<and> lf_main L' = Returned r \<and>
      lf_answered L' = lf_answered ?L \<and> lf_clock L' \<le> lf_clock ?L + shutdownGrace"
    using signalled_server_ends by blast
  then show ?thesis by (auto simp: life0_def shutdownGrace_def)
qed

text \<open>C24: sealing over the HTTP authority and the Vault signer always returns, within the timeouts of its two questions and its one signature, whatever the network does; and a package comes out only when the authority began to answer the question, and Vault the request to sign the package's own view, before the deadline of that call.\<close>

theorem sealing_in_time:
  assumes "0 < dv_timeout da" "0 < ds_timeout ds"
  shows "\<exists>t r s'. timed_Seal P req ds w da ctx now s = Some (t, r, s') \<and> now \<le> t \<and>
    t \<le> now + 2 * dv_timeout da + ds_timeout ds \<and>
    (\<forall>p. r = Inr p \<longrightarrow>
       (\<exists>rq. check_sent (dv_verifier da, sr_IntentRef req, sr_Projection req) = Some rq \<and>
          in_good_time (withDeadline (dv_timeout da) ctx now) now (dv_net da now rq)) \<and>
       (\<exists>view asked rq. BuildSigningView P p = Inr view \<and> sign_sent (ds_signer ds, view) = Some rq \<and>
          in_good_time (vault_withDeadline (ds_timeout ds) ctx asked) asked (ds_net ds asked rq)))"
proof -
  obtain t r s' where run: "timed_Seal P req ds w da ctx now s = Some (t, r, s')" "now \<le> t"
    "t \<le> now + 2 * dv_timeout da + ds_timeout ds" using timed_Seal_bounded [OF assms] by blast
  have "(\<exists>rq. check_sent (dv_verifier da, sr_IntentRef req, sr_Projection req) = Some rq \<and>
          in_good_time (withDeadline (dv_timeout da) ctx now) now (dv_net da now rq)) \<and>
       (\<exists>view asked rq. BuildSigningView P p = Inr view \<and> sign_sent (ds_signer ds, view) = Some rq \<and>
          in_good_time (vault_withDeadline (ds_timeout ds) ctx asked) asked (ds_net ds asked rq))" if "r = Inr p" for p
    by (rule timed_Seal_package [OF run(1) [unfolded that]]) (blast dest: timed_Check_result(1) timed_Sign_result(1))
  with run show ?thesis by blast
qed

theorem sealing_in_time_witness:
  "\<exists>q t p s'. timed_Seal flat_prims (demo_shell_request q) demo_prompt_signer (Wrapper flat_prims) demo_prompt None 0 demo_world
       = Some (t, Inr p, s') \<and> t \<le> 30000000000 \<and>
     (\<exists>view rq. BuildSigningView flat_prims p = Inr view \<and> sign_sent (ds_signer demo_prompt_signer, view) = Some rq)"
proof -
  obtain q p s' where run: "timed_Seal flat_prims (demo_shell_request q) demo_prompt_signer (Wrapper flat_prims) demo_prompt
      None 0 demo_world = Some (0, Inr p, s')" by (rule demo_timed_seal)
  have timeouts: "0 < dv_timeout demo_prompt" "0 < ds_timeout demo_prompt_signer"
    by (simp_all add: demo_prompt_def demo_prompt_signer_def server_authority_def startupTimeout_def)
  from sealing_in_time [OF timeouts, of flat_prims "demo_shell_request q" "Wrapper flat_prims" None 0 demo_world] run
  have "\<exists>view rq. BuildSigningView flat_prims p = Inr view \<and> sign_sent (ds_signer demo_prompt_signer, view) = Some rq"
    by auto
  moreover have "(0 :: int) \<le> 30000000000" by simp
  ultimately have "timed_Seal flat_prims (demo_shell_request q) demo_prompt_signer (Wrapper flat_prims) demo_prompt None 0 demo_world
      = Some (0, Inr p, s') \<and> (0 :: int) \<le> 30000000000 \<and>
    (\<exists>view rq. BuildSigningView flat_prims p = Inr view \<and> sign_sent (ds_signer demo_prompt_signer, view) = Some rq)"
    using run by (intro conjI)
  then show ?thesis by (intro exI)
qed

text \<open>C25: verifying a package over the HTTP adapter always returns a report within the timeout of the adapter, whatever the package and whatever the network does, and the report is only OK when the authority was asked and began to answer before the deadline.\<close>

theorem verification_in_time:
  assumes "0 < dv_timeout d"
  shows "\<exists>t r. timed_Verify P d ctx now p opt = Some (t, Inr r) \<and> now \<le> t \<and> t \<le> now + dv_timeout d \<and>
    (report_OK (Some r) \<longrightarrow> (\<exists>rq. verify_sent (P, dv_verifier d, p, opt) = Some rq \<and>
       in_good_time (withDeadline (dv_timeout d) ctx now) now (dv_net d now rq)))"
proof -
  obtain t r where run: "timed_Verify P d ctx now p opt = Some (t, Inr r)" "now \<le> t" "t \<le> now + dv_timeout d"
    using assms by (rule timed_Verify_bounded)
  with timed_Verify_OK [OF run(1)] show ?thesis by blast
qed

theorem verification_in_time_witness:
  "\<exists>p t r. level1_valid demo_prims p demo_options \<and>
     timed_Verify demo_prims demo_silent None 0 p demo_options = Some (t, Inr r) \<and> t \<le> 10000000000 \<and>
     \<not> report_OK (Some r)"
proof -
  obtain p where p: "level1_valid demo_prims p demo_options" using demo_package by blast
  have silent: "\<not> in_good_time ctx 0 (dv_net demo_silent 0 rq)" for ctx rq
    by (simp add: in_good_time_def demo_silent_def server_authority_def)
  have timeout: "dv_timeout demo_silent = 10000000000"
    by (simp add: demo_silent_def server_authority_def startupTimeout_def)
  then have "0 < dv_timeout demo_silent" by simp
  from verification_in_time [OF this, of demo_prims None 0 p demo_options] silent timeout p show ?thesis by force
qed

text \<open>C26: an authority that has not begun to answer when its deadline passes is reported to the client of the seal route as a 502 that says so, and nothing has happened but the question: sealing under a slow authority fails closed.\<close>

theorem slow_authority_refused:
  assumes "seal_target rq" "hc_Authorizer cfg (bearerToken rq) = None" "hasJSONContentType rq"
    and "json_Decode dec_payload payload0 maxSealRequestBody (rq_body rq) = Inr payload"
    and "Project (PayloadValue payload) = Inr projection"
    and "check_sent (dv_verifier d, ci_IntentRef (pl_Intent payload), projection_val projection) = Some q"
    and "overdue (withDeadline (dv_timeout d) ctx asked) asked (dv_net d asked q)"
    and "timed_Check d ctx asked (ci_IntentRef (pl_Intent payload)) (projection_val projection) =
      Some (t, iv_Check (hc_IntentVerifier cfg) (ci_IntentRef (pl_Intent payload)) (projection_val projection))"
    and "hc_Audiences cfg \<noteq> []" "distinct (map au_Name (hc_Audiences cfg))"
      "au_Name ` set (hc_Audiences cfg) \<subseteq> set profile_SegmentOrder"
  shows "NewHandler P R cfg now rq w =
    (writeProblem 502 typeAuthorityDown ''authority unreachable'' ''the intent authority could not be reached'',
     emit (EvCheck (ci_IntentRef (pl_Intent payload))) w)"
  by (rule overdue_refused [OF assms])

theorem slow_authority_refused_witness:
  "\<exists>t r. timed_Check demo_silent None 0 [] (projection_val projection0) = Some (t, r) \<and>
   NewHandler flat_prims demo_lib
     (demo_config\<lparr>hc_IntentVerifier := \<lparr> iv_Check = (\<lambda>ref pj. r), iv_ConstraintsHash = (\<lambda>ref. Inr ''h'') \<rparr>\<rparr>)
     demo_now demo_seal_rq demo_world =
   (writeProblem 502 typeAuthorityDown ''authority unreachable'' ''the intent authority could not be reached'',
    emit (EvCheck []) demo_world)"
proof -
  have pos: "0 < dv_timeout demo_silent" by (simp add: demo_silent_def server_authority_def startupTimeout_def)
  have q: "Project (PayloadValue payload0) = Inr projection0" by (rule demo_projection0)
  obtain t r where run: "timed_Check demo_silent None 0 [] (projection_val projection0) = Some (t, r)"
    using pos by (rule timed_Check_bounded)
  obtain rq where sent: "check_sent (dv_verifier demo_silent, ci_IntentRef (pl_Intent payload0), projection_val projection0) = Some rq"
    by (rule demo_silent_sent)
  have late: "overdue (withDeadline (dv_timeout demo_silent) None 0) 0 (dv_net demo_silent 0 rq)"
    by (simp add: overdue_def demo_silent_def server_authority_def)
  let ?cfg = "demo_config\<lparr>hc_IntentVerifier := \<lparr> iv_Check = (\<lambda>ref pj. r), iv_ConstraintsHash = (\<lambda>ref. Inr ''h'') \<rparr>\<rparr>"
  have rq: "seal_target demo_seal_rq" "hasJSONContentType demo_seal_rq" "rq_body demo_seal_rq = encode (VObj [])"
    by (simp_all add: demo_seal_rq_def demo_targets shell_request_json) (simp add: shell_request_def)
  have cfg: "hc_Authorizer ?cfg (bearerToken demo_seal_rq) = None" "hc_Audiences ?cfg = demo_auds"
    by (simp_all add: demo_config_def server_config_def demo_server_def)
  have payload: "json_Decode dec_payload payload0 maxSealRequestBody (rq_body demo_seal_rq) = Inr payload0"
    unfolding rq(3) by (rule demo_payload_read)
  have ref: "ci_IntentRef (pl_Intent payload0) = []" by (simp add: payload0_def)
  have check: "timed_Check demo_silent None 0 (ci_IntentRef (pl_Intent payload0)) (projection_val projection0) =
      Some (t, iv_Check (hc_IntentVerifier ?cfg) (ci_IntentRef (pl_Intent payload0)) (projection_val projection0))"
    using run by (simp add: ref)
  have auds: "hc_Audiences ?cfg \<noteq> []" "distinct (map au_Name (hc_Audiences ?cfg))"
    "au_Name ` set (hc_Audiences ?cfg) \<subseteq> set profile_SegmentOrder"
    unfolding cfg(2) by (simp_all add: demo_auds_def profile_SegmentOrder_def)
  from slow_authority_refused [OF rq(1) cfg(1) rq(2) payload q sent late check auds, of flat_prims demo_lib demo_now demo_world] run
  show ?thesis by (auto simp: ref)
qed

text \<open>C27: what the Vault signer signs is signed as named: the key id names the version pinned when the signer was made, the pinned public key is the one Vault published for it, and every signature it returns verifies under that version's key; an answer labelled with any other version is an error.\<close>

theorem vault_signs_as_named:
  assumes "vault_New dflt addr token name client = Inr s" "vault_honest P s pubs"
  shows "vault_Kid s None = Inr (name @ '':v'' @ dec_int (vs_version s)) \<and>
    (\<exists>resp key. fetchKeyMetadata s = Inr resp \<and> vs_version s = kd_LatestVersion (kr_Data resp) \<and>
       fmlookup (kd_Keys (kr_Data resp)) (dec_int (vs_version s)) = Some key \<and>
       std_decode (kv_PublicKey key) = Some (vs_pub s) \<and> length (vs_pub s) = 32) \<and>
    (\<forall>m. case vault_Sign s m of
       Inl e \<Rightarrow> True | Inr sig \<Rightarrow> length sig = 64 \<and> ed25519_verify P (pubs (vs_version s)) m sig)"
proof -
  obtain resp key where "fetchKeyMetadata s = Inr resp" "vs_version s = kd_LatestVersion (kr_Data resp)"
    "fmlookup (kd_Keys (kr_Data resp)) (dec_int (vs_version s)) = Some key"
    "std_decode (kv_PublicKey key) = Some (vs_pub s)" "length (vs_pub s) = 32" "vs_name s = name"
    using assms(1) by (rule vault_New_Inr)
  then show ?thesis
    using vault_Sign_verifies [OF assms(2)] by (auto simp: vault_Kid_def split: sum.split)
qed

theorem vault_signs_as_named_witness:
  "vault_New demo_client ''k'' ''k'' ''k'' None = Inr demo_vault \<and> vault_Sign demo_vault [1] = Inr (replicate 64 0) \<and>
     vault_Kid demo_vault None = Inr (''k'' @ '':v'' @ dec_int (vs_version demo_vault))"
  using vault_signs_as_named [OF demo_vault_New demo_vault_honest] demo_vault_New demo_vault_Sign by simp

text \<open>C28: an authority that denies an authorized request is reported as 422 with its reason word for word, and nothing has happened but the question: no entropy was drawn, nothing was wrapped or signed.\<close>

theorem denial_reported:
  assumes "seal_target rq" "hc_Authorizer cfg (bearerToken rq) = None" "hasJSONContentType rq"
    and "json_Decode dec_payload payload0 maxSealRequestBody (rq_body rq) = Inr payload"
    and "Project (PayloadValue payload) = Inr projection"
    and "iv_Check (hc_IntentVerifier cfg) (ci_IntentRef (pl_Intent payload)) (projection_val projection) = Inr d"
      "\<not> id_Allowed d"
    and "hc_Audiences cfg \<noteq> []" "distinct (map au_Name (hc_Audiences cfg))"
      "au_Name ` set (hc_Audiences cfg) \<subseteq> set profile_SegmentOrder"
  shows "NewHandler P R cfg now rq w =
    (writeProblem 422 typeIntentDenied ''intent denied'' (id_Reason d),
     emit (EvCheck (ci_IntentRef (pl_Intent payload))) w)"
  by (rule shell_denied [OF assms])

theorem denial_reported_witness:
  "NewHandler flat_prims demo_lib
     (demo_config\<lparr>hc_IntentVerifier := \<lparr> iv_Check = (\<lambda>ref pj. Inr \<lparr> id_Allowed = False, id_Reason = ''over the limit'' \<rparr>),
        iv_ConstraintsHash = (\<lambda>ref. Inr ''h'') \<rparr>\<rparr>) demo_now demo_seal_rq demo_world =
   (writeProblem 422 typeIntentDenied ''intent denied'' ''over the limit'', emit (EvCheck []) demo_world)"
proof -
  let ?iv = "\<lparr> iv_Check = (\<lambda>ref pj. Inr \<lparr> id_Allowed = False, id_Reason = ''over the limit'' \<rparr>),
      iv_ConstraintsHash = (\<lambda>ref. Inr ''h'') \<rparr> :: intent_verifier"
  let ?d = "\<lparr> id_Allowed = False, id_Reason = ''over the limit'' \<rparr>"
  let ?cfg = "demo_config\<lparr>hc_IntentVerifier := ?iv\<rparr>"
  obtain q where q: "Project (PayloadValue payload0) = Inr q" using demo_projected by blast
  have rq: "seal_target demo_seal_rq" "hasJSONContentType demo_seal_rq" "rq_body demo_seal_rq = encode (VObj [])"
    by (simp_all add: demo_seal_rq_def demo_targets shell_request_json) (simp add: shell_request_def)
  have cfg: "hc_Authorizer ?cfg (bearerToken demo_seal_rq) = None" "hc_Audiences ?cfg = demo_auds"
    by (simp_all add: demo_config_def server_config_def demo_server_def)
  have payload: "json_Decode dec_payload payload0 maxSealRequestBody (rq_body demo_seal_rq) = Inr payload0"
    unfolding rq(3) by (rule demo_payload_read)
  have check: "iv_Check (hc_IntentVerifier ?cfg) (ci_IntentRef (pl_Intent payload0)) (projection_val q) = Inr ?d"
    by simp
  have auds: "hc_Audiences ?cfg \<noteq> []" "distinct (map au_Name (hc_Audiences ?cfg))"
    "au_Name ` set (hc_Audiences ?cfg) \<subseteq> set profile_SegmentOrder"
    unfolding cfg(2) by (simp_all add: demo_auds_def profile_SegmentOrder_def)
  from denial_reported [OF rq(1) cfg(1) rq(2) payload q check _ auds] show ?thesis
    by (simp add: payload0_def)
qed

text \<open>C29: whatever a client sends, a 200 of the seal route carries the JSON of a package that is text throughout, and the body decodes to that very package.\<close>

theorem sealed_bodies_typed:
  assumes "well_configured P cfg kid pub" "jcs_total P" "time_valid now" "seal_target rq"
    and "NewHandler P R cfg now rq w = (rs, w')" "rs_status rs = 200"
  shows "\<exists>pkg. package_text pkg \<and> rs = shell_writeJSON 200 (package_val pkg) \<and>
    json_Decode (dec_package R) package0 (length (rs_body rs)) (rs_body rs) = Inr pkg"
proof -
  have "requireIssuerAdmin (hc_Authorizer cfg) (sealHandler P (config_deps cfg) now) rq w = (rs, w')"
    using assms(5) NewHandler_seal [OF assms(4)] by simp
  then have "sealHandler P (config_deps cfg) now rq w = (rs, w')"
    using assms(6) by (auto simp: requireIssuerAdmin_def writeProblem_def split: option.splits if_splits)
  then obtain payload segments projection pkg where s:
    "json_Decode dec_payload payload0 maxSealRequestBody (rq_body rq) = Inr payload"
    "Seal P (seal_request_of P (config_deps cfg) now payload segments projection)
       (hc_Signer cfg) (hc_KeyWrapper cfg) (hc_IntentVerifier cfg) w = (Inr pkg, w')"
    "rs = shell_writeJSON 200 (package_val pkg)"
    by (rule sealHandler_ok [OF _ assms(6)]) (simp add: config_deps_def)
  have pt: "package_text pkg" by (rule route_package_text [OF s(1,2) assms(1-3)])
  then obtain raw where raw: "marshal (package_val pkg) = Inr raw" using package_marshals by blast
  then have body: "rs_body rs = raw @ [10]"
    using s(3) by (simp add: shell_writeJSON_def json_response_def encode_def)
  have "json_Decode (dec_package R) package0 (length (rs_body rs)) (raw @ [10]) = Inr pkg"
    by (rule package_roundtrip(2) [OF pt raw]) (simp add: body)
  with pt s(3) body show ?thesis by auto
qed

theorem sealed_bodies_typed_witness:
  "\<exists>rs pkg. fst (NewHandler flat_prims demo_lib demo_config demo_now demo_seal_rq demo_world) = rs \<and> package_text pkg \<and>
     rs = shell_writeJSON 200 (package_val pkg)"
proof -
  obtain rs w where run: "NewHandler flat_prims demo_lib demo_config demo_now demo_seal_rq demo_world = (rs, w)"
    "rs_status rs = 200" by (rule demo_shell_run)
  have target: "seal_target demo_seal_rq" by (simp add: demo_seal_rq_def demo_targets)
  from sealed_bodies_typed [OF demo_configured demo_jcs demo_now_valid target run] run(1) show ?thesis by auto
qed

text \<open>C30: without an authority, or with one that does not answer, verification is never OK and says that the intent was not evaluated.\<close>

theorem verify_without_authority:
  assumes "Verify P (Some p) opt = Inr r"
    and "case vo_Intent opt of None \<Rightarrow> True
         | Some a \<Rightarrow> \<exists>e. iv_ConstraintsHash a (in_intent_ref (pk_intent p)) = Inl e"
  shows "\<not> ir_Evaluated (rp_Intent r) \<and> \<not> report_OK (Some r)"
  by (rule Verify_unreached [OF assms])

theorem verify_without_authority_witness:
  "\<exists>p r. level1_valid demo_prims p demo_options \<and>
     Verify demo_prims (Some p) (demo_options\<lparr>vo_Intent := None\<rparr>) = Inr r \<and>
     \<not> ir_Evaluated (rp_Intent r) \<and> \<not> report_OK (Some r)"
proof -
  obtain p where p: "level1_valid demo_prims p demo_options" using demo_package by blast
  obtain r where r: "Verify demo_prims (Some p) (demo_options\<lparr>vo_Intent := None\<rparr>) = Inr r"
    using Verify_total by blast
  from verify_without_authority [OF r] p r show ?thesis by auto
qed

text \<open>C31: what \<open>Verify\<close> does not see: sealed segments of audiences outside the signed order, added, removed or replaced, and the ephemeral key, wrapped key and nonce of a sealed segment within it. Packages that differ only there get the same answer, the whole report included, and the same question is asked about them.\<close>

theorem verify_blind_spot:
  assumes "q = p\<lparr>pk_segments := segs\<rparr>" "same_hashed_segments p q"
  shows "Verify_w P (Some q) opt w = Verify_w P (Some p) opt w"
  by (rule Verify_unhashed [OF assms])

theorem verify_blind_spot_witness:
  "\<exists>p q a r. a \<notin> set (mf_segment_order (pk_manifest q)) \<and> fmlookup (pk_segments q) a = Some sealed_segment0 \<and>
     Verify demo_prims (Some q) demo_options = Inr r \<and> Verify demo_prims (Some p) demo_options = Inr r \<and>
     report_Level1 (Some r)"
proof -
  obtain p where p: "level1_valid demo_prims p demo_options" using demo_package by blast
  obtain a where a: "a \<notin> set (mf_segment_order (pk_manifest p))"
    using ex_new_if_finite [OF infinite_UNIV_listI] by (metis List.finite_set)
  let ?q = "p\<lparr>pk_segments := fmupd a sealed_segment0 (pk_segments p)\<rparr>"
  have same: "same_hashed_segments p ?q"
    using a by (auto simp: same_hashed_segments_def intro!: option.rel_refl)
  obtain r where r: "Verify demo_prims (Some p) demo_options = Inr r" using Verify_total by blast
  from verify_blind_spot [OF refl same, of demo_prims demo_options demo_world] r
  have q: "Verify demo_prims (Some ?q) demo_options = Inr r" by (metis Verify_w_fst)
  have "distinct (map bs_name (vo_BindingSpecs demo_options))" by (simp add: demo_options_def BindingSpecs_distinct)
  from Verify_Level1 [OF r this] p have "report_Level1 (Some r)" by simp
  with a r q show ?thesis by (intro exI [of _ p] exI [of _ ?q] exI [of _ a] exI [of _ r]) simp
qed

text \<open>C32: \<open>Open\<close> fails with one of four bare sentinels, whatever the inputs: nothing of a key, a plaintext or a library error reaches the caller.\<close>

theorem open_errors:
  assumes "Open P pkg priv w opt s = (Inl e, s')"
  shows "e \<in> Sentinel ` {ErrNilPackage, ErrIntegrityCheckFailed, ErrDecryptionFailed, ErrHashMismatch}"
  by (rule Open_error [OF assms])

theorem open_errors_witness:
  "\<exists>e. Open demo_prims None [] (Wrapper demo_prims) demo_options demo_world = (Inl e, demo_world)
     \<and> e \<in> Sentinel ` {ErrNilPackage, ErrIntegrityCheckFailed, ErrDecryptionFailed, ErrHashMismatch}"
proof -
  have e: "Open demo_prims None [] (Wrapper demo_prims) demo_options demo_world = (Inl (Sentinel ErrNilPackage), demo_world)"
    by (simp add: Open_def Verify_eq)
  from open_errors [OF e] e show ?thesis by blast
qed

text \<open>C33: the view rebuilt from the names a package lists is the view the issuer built, in whatever order the nine names are listed; a list that drops, repeats or invents a name is malformed.\<close>

theorem reconstruct_is_build:
  "if distinct (sn_signed_fields (pk_signature p))
      \<and> set (sn_signed_fields (pk_signature p)) = set RequiredSignedFields
   then ReconstructSigningView P p = BuildSigningView P p
   else (\<exists>e. ReconstructSigningView P p = Inl e \<and> err_is e ErrMalformedPackage)"
proof (cases "checkSignedFields (sn_signed_fields (pk_signature p))")
  case (Inl e)
  then show ?thesis
    using checkSignedFields_Inr [of "sn_signed_fields (pk_signature p)"] checkSignedFields_Inl [OF Inl]
    by (auto simp: ReconstructSigningView_def)
next
  case (Inr u)
  then show ?thesis
    using checkSignedFields_Inr [of "sn_signed_fields (pk_signature p)"] Reconstruct_Build [of p P] by simp
qed

text \<open>C34: RFC 3394 key unwrap is the exact inverse of key wrap over any block cipher: a value unwraps to a key exactly if it is the wrap of that key under the same key-encryption key.\<close>

theorem key_wrap_inverse:
  assumes "aes_ok P"
  shows "aesKeyUnwrap P kek w = Inr d \<longleftrightarrow> aesKeyWrap P kek d = Inr w"
  using aesKeyUnwrap_Wrap [OF assms] aesKeyWrap_Unwrap [OF assms] by blast

theorem key_wrap_inverse_witness:
  "\<exists>w. aesKeyUnwrap demo_prims (replicate 32 1) w = Inr (replicate 8 2)"
proof -
  obtain w where "aesKeyWrap demo_prims (replicate 32 1) (replicate 8 2) = Inr w"
    using aesKeyWrap_Inr [of demo_prims "replicate 32 1" "replicate 8 2"] by force
  then show ?thesis using key_wrap_inverse [OF demo_aes_ok] by blast
qed

text \<open>C35: the loop of the Concat KDF ends by its own guard, within the fuel, and computes the one-step KDF: the first bytes of the concatenated hash blocks, exactly as many as asked for.\<close>

theorem kdf_terminates:
  assumes "sha256_ok P"
  shows "(\<exists>out. kdf_loop P n z oi n 1 [] = Some out \<and> n \<le> length out) \<and>
    concatKDF P z oi bits = kdf_spec P z oi (bits div 8) \<and> length (concatKDF P z oi bits) = bits div 8"
  using kdf_loop_done [OF assms] concatKDF_spec [OF assms] length_concatKDF [OF assms] by blast

theorem kdf_terminates_witness: "length (concatKDF demo_prims [1, 2] [3] 512) = 64"
proof -
  have "length (concatKDF demo_prims [1, 2] [3] 512) = 512 div 8"
    using kdf_terminates [OF demo_sha256_ok, of 0 "[1, 2]" "[3]" 512] by blast
  then show ?thesis by simp
qed

text \<open>C36: in a package sealed with the checkout profile, \<open>checkout_hash\<close> is the merchant's plaintext hash in the signed manifest, \<open>transaction_id\<close> hashes it with the gateway's, and \<open>conditional_transaction_id\<close> is the package's own intent commitment.\<close>

theorem checkout_bindings:
  assumes "Seal P req si w iv s = (Inr p, s')" "sr_BindingSpecs req = BindingSpecs P"
  shows "\<exists>merchant gateway canon.
    fmlookup (mf_segments (pk_manifest p)) AudienceMerchant = Some merchant \<and>
    fmlookup (mf_segments (pk_manifest p)) AudienceGateway = Some gateway \<and>
    lookup_or_empty (bd_extra (pk_bindings p)) ''checkout_hash'' = sg_plain_hash merchant \<and>
    JCS P (transaction_id_val (sg_plain_hash merchant) (sg_plain_hash gateway)) = Inr canon \<and>
    lookup_or_empty (bd_extra (pk_bindings p)) ''transaction_id'' = ''txn:'' @ H P canon \<and>
    lookup_or_empty (bd_extra (pk_bindings p)) ''conditional_transaction_id''
      = bd_intent_commitment (pk_bindings p)"
  using assms by (rule sealed_checkout) blast

theorem checkout_bindings_witness:
  "\<exists>p s. Seal demo_prims demo_request demo_signer (Wrapper demo_prims) demo_authority demo_world = (Inr p, s)
     \<and> lookup_or_empty (bd_extra (pk_bindings p)) ''conditional_transaction_id''
       = bd_intent_commitment (pk_bindings p)"
proof -
  obtain p s where d: "Seal demo_prims demo_request demo_signer (Wrapper demo_prims) demo_authority demo_world = (Inr p, s)"
    by (rule demo_sealed)
  have "sr_BindingSpecs demo_request = BindingSpecs demo_prims" by (simp add: demo_request_def)
  from checkout_bindings [OF d this] d show ?thesis by blast
qed

text \<open>C37: a package sealed under the mock authority still verifies completely after any sequence of recorded uses: consumption never enters the constraints hash.\<close>

theorem uses_keep_packages_valid:
  assumes "Seal P req si w (mock_port P st) s = (Inr p, s')" "mock_step\<^sup>*\<^sup>* st st'" "signs_for P si pub"
    and "trusts (vo_IssuerKey opt) (sr_Issuer req) si pub"
    and "vo_BindingSpecs opt = sr_BindingSpecs req" "distinct (map bs_name (sr_BindingSpecs req))"
    and "vo_Intent opt = Some (mock_port P st')"
  shows "\<exists>r. Verify P (Some p) opt = Inr r \<and> report_OK (Some r)"
proof -
  note sealed = Seal_Inr [OF assms(1)]
  obtain r where r: "Verify P (Some p) opt = Inr r" using Verify_total by blast
  have "intent_valid P p (vo_Intent opt)"
    unfolding assms(7) by (rule sealed_intent [OF sealed mock.hash_immutable_steps [OF assms(2)]])
  with sealed_level1 [OF sealed assms(3-6)] Verify_OK [OF r] assms(5,6) r show ?thesis by auto
qed

theorem uses_keep_packages_valid_witness:
  "\<exists>p r. Verify demo_prims (Some p) (demo_options\<lparr>vo_Intent :=
      Some (mock_port demo_prims (demo_floats, recordUse ''ref-1'' demo_auths))\<rparr>) = Inr r \<and> report_OK (Some r)"
proof -
  obtain p s where d: "Seal demo_prims demo_request demo_signer (Wrapper demo_prims) demo_authority demo_world = (Inr p, s)"
    by (rule demo_sealed)
  let ?st = "(demo_floats, recordUse ''ref-1'' demo_auths)"
  let ?opt = "demo_options\<lparr>vo_Intent := Some (mock_port demo_prims ?st)\<rparr>"
  have "mock_step\<^sup>*\<^sup>* (demo_floats, demo_auths) ?st" by (rule r_into_rtranclp) (rule use_recorded)
  from uses_keep_packages_valid [OF d [unfolded demo_authority_def] this demo_signs_for, of ?opt] demo_trusts demo_specs
  show ?thesis by auto
qed

text \<open>C38: a defect: a segment sealed from an empty plaintext that is not nil cannot be opened by its owner. Decryption returns a nil slice, whose canonical form is null and not the empty string, so \<open>Open\<close> reports a hash mismatch (or the two forms collide).\<close>

theorem empty_plaintext_refused:
  assumes "Seal P req si (Wrapper P) iv s = (Inr p, s')" "signs_for P si pub"
    and "trusts (vo_IssuerKey opt) (sr_Issuer req) si pub"
    and "vo_BindingSpecs opt = sr_BindingSpecs req" "distinct (map bs_name (sr_BindingSpecs req))"
    and "wrapper_laws P" "gcm_ok P" "owns (Wrapper P) req priv aud"
    and "segment_plaintext (sr_Segments req) (au_Name aud) = Some []"
  shows "fst (Open P (Some p) priv (Wrapper P) opt t) = Inl (Sentinel ErrHashMismatch)
    \<or> digest_collision P VNull (VStr [])"
proof -
  note sealed = Seal_Inr [OF assms(1)]
  have pub: "kw_PublicKey (Wrapper P) priv = Inr (au_PublicKey aud)" using assms(8) by (simp add: owns_def)
  have unwrap: "kw_Unwrap (Wrapper P) priv epk wrapped = Inr dek"
    if "length dek = 32" "kw_Wrap (Wrapper P) (au_PublicKey aud) dek x = (Inr (wrapped, epk), x')"
    for dek x x' wrapped epk using x25519.wrap_unwrap [OF assms(6) pub that] .
  have specs: "distinct (map bs_name (vo_BindingSpecs opt))" using assms(4,5) by simp
  show ?thesis
    by (rule sealed_empty_refused [OF sealed assms(8,7) _ assms(9) sealed_level1 [OF sealed assms(2-5)] specs])
      (rule unwrap)
qed

theorem empty_plaintext_refused_witness:
  "\<exists>p s. Seal demo_prims demo_empty_request demo_signer (Wrapper demo_prims) demo_authority demo_world = (Inr p, s)
     \<and> (fst (Open demo_prims (Some p) (demo_private 2) (Wrapper demo_prims) demo_options demo_world)
          = Inl (Sentinel ErrHashMismatch)
        \<or> digest_collision demo_prims VNull (VStr []))"
proof -
  obtain p s where d: "Seal demo_prims demo_empty_request demo_signer (Wrapper demo_prims) demo_authority demo_world = (Inr p, s)"
    by (rule demo_empty_sealed)
  from empty_plaintext_refused [OF d demo_signs_for demo_empty_trusts demo_empty_specs demo_laws(2) demo_gcm_ok
    demo_empty_owns demo_empty_plaintext] d show ?thesis by blast
qed

text \<open>C39: the configuration loads exactly when all nine required variables are set, each into its field, with the default address when none is given; otherwise the error is about missing configuration and names the missing variables, all of them, in order, and nothing else of the environment.\<close>

theorem config_loads:
  "Load env =
     (if missing_in env = [] then Inr (config_of env)
      else Inl (Wrapped [] (Sentinel ErrMissingConfig) ('': '' @ strings_Join (missing_in env) '', '')))"
  by (rule Load_cases)

text \<open>C40: however a logger was derived with groups and attributes, a record logged under a context with a correlation id has exactly one member \<^verbatim>\<open>correlation_id\<close> at its top level, the context's, provided no top-level attribute is a group without a name; the other members nest as \<^verbatim>\<open>slog\<close>'s own handler nests them.\<close>

theorem correlation_id_once:
  assumes "CorrelationID ctx \<noteq> []" "\<forall>a \<in> set (replay (rev (ch_goas h)) (lr_Attrs r)). named a"
  shows "filter (\<lambda>km. fst km = correlationIDAttr) (record_members (Handle h ctx r))
      = [(correlationIDAttr, VStr (CorrelationID ctx))] \<and>
    last (record_members (Handle h ctx r)) = (correlationIDAttr, VStr (CorrelationID ctx)) \<and>
    attrs_members (replay (rev (ch_goas h)) (lr_Attrs r)) = nested (ch_goas h) (lr_Attrs r)"
  using Handle_top [OF assms] Handle_members [OF assms(1)] replay_nested by simp

theorem correlation_id_once_witness:
  "filter (\<lambda>km. fst km = ''correlation_id'')
     (record_members (Handle (WithGroup (WithAttrs (logger_New 0) [slog_String ''correlation_id'' ''forged'']) ''req'') (Some ''real'')
        \<lparr> lr_Time = None, lr_Level = ''INFO'', lr_Message = ''m'', lr_Attrs = [slog_String ''correlation_id'' ''nested''] \<rparr>))
   = [(''correlation_id'', VStr ''real'')]"
proof -
  let ?h = "WithGroup (WithAttrs (logger_New 0) [slog_String ''correlation_id'' ''forged'']) ''req''"
  let ?r = "\<lparr> lr_Time = None, lr_Level = ''INFO'', lr_Message = ''m'', lr_Attrs = [slog_String ''correlation_id'' ''nested''] \<rparr>"
  have "CorrelationID (Some ''real'') \<noteq> []" by (simp add: CorrelationID_def)
  moreover have "\<forall>a \<in> set (replay (rev (ch_goas ?h)) (lr_Attrs ?r)). named a"
    by (simp add: WithGroup_def WithAttrs_def withGoa_def logger_New_def slog_String_def named_def GroupValue_def isEmptyGroup_def)
  ultimately show ?thesis
    using correlation_id_once [of "Some ''real''" ?h ?r] by (simp add: correlationIDAttr_def CorrelationID_def)
qed

end
